theory Spec2Isabelle
  imports Complex_Main "HOL-Library.Log_Nat" "HOL-Library.Multiset"
    "HOL-Library.Power_By_Squaring"
begin

section \<open>Quota enforcement: platform/backend/src/models/limit.ts\<close>

text \<open>
  The data layer is a relational store. Each table is a list of rows in the order a scan
  of the table meets them; a query without \<^verbatim>\<open>ORDER BY\<close> returns its rows in that order. An
  UPDATE writes a new version of the row, and where a later scan meets the new version is
  the choice of the storage engine (\<open>slot\<close>); the rows the UPDATE does not touch keep
  their relative order. A query of the data layer can throw; which queries throw is part
  of the store (\<open>failing\<close>), so that every \<^verbatim>\<open>try\<close>/\<^verbatim>\<open>catch\<close> of the source is a branch
  of the model. Instants are milliseconds since the epoch; \<^verbatim>\<open>new Date()\<close> reads a clock,
  and a computation that reads it several times is given the successive readings.
\<close>

subsection \<open>JavaScript numbers\<close>

text \<open>
  A JavaScript number is an IEEE 754 binary64 value: a finite value, held as the rational
  it denotes, an infinity, or NaN. The two zeros are not told apart (no operation of this
  module distinguishes them). Every arithmetic operation gives the binary64 value nearest
  to its exact result, ties to the even significand.
\<close>

datatype number = Num rat | PosInfinity | NegInfinity | NaN

definition pow2 :: "int \<Rightarrow> rat" where
  "pow2 e = (if 0 \<le> e then 2 ^ nat e else 1 / 2 ^ nat (- e))"

text \<open>For \<open>0 < x\<close>, the exponent \<open>e\<close> with \<open>2 ^ e \<le> x < 2 ^ (e + 1)\<close>.\<close>

definition floorLog2 :: "rat \<Rightarrow> int" where
  "floorLog2 x =
     (case quotient_of x of
        (p, q) \<Rightarrow> let d = bitlen p - bitlen q in if pow2 d \<le> x then d else d - 1)"

definition roundHalfEven :: "rat \<Rightarrow> int" where
  "roundHalfEven m =
     (let n = \<lfloor>m\<rfloor>; f = m - of_int n in
      if f < 1 / 2 then n else if 1 / 2 < f then n + 1 else if even n then n else n + 1)"

text \<open>
  The binary64 value of an exact result: 53 significant bits, the least exponent of a unit
  in the last place is -1074 (subnormal numbers), and a rounded magnitude of \<open>2 ^ 1024\<close> or
  more (exponent 1024 or more) is an infinity.
\<close>

definition binary64 :: "rat \<Rightarrow> number" where
  "binary64 x =
     (if x = 0 then Num 0
      else
        let q = max (floorLog2 \<bar>x\<bar> - 52) (- 1074);
            r = of_int (roundHalfEven (x / pow2 q)) * pow2 q
        in if r \<noteq> 0 \<and> 1024 \<le> floorLog2 \<bar>r\<bar>
           then (if 0 < x then PosInfinity else NegInfinity) else Num r)"

definition signOf :: "number \<Rightarrow> int" where
  "signOf x =
     (case x of
        Num a \<Rightarrow> (if 0 < a then 1 else if a < 0 then - 1 else 0)
      | PosInfinity \<Rightarrow> 1
      | NegInfinity \<Rightarrow> - 1
      | NaN \<Rightarrow> 0)"

text \<open>\<^verbatim>\<open>x * y\<close>\<close>

definition multiply :: "number \<Rightarrow> number \<Rightarrow> number" where
  "multiply x y =
     (case (x, y) of
        (Num a, Num b) \<Rightarrow> binary64 (a * b)
      | _ \<Rightarrow>
          if x = NaN \<or> y = NaN \<or> signOf x * signOf y = 0 then NaN
          else if 0 < signOf x * signOf y then PosInfinity
          else NegInfinity)"

text \<open>\<^verbatim>\<open>x + y\<close>\<close>

definition addition :: "number \<Rightarrow> number \<Rightarrow> number" where
  "addition x y =
     (case (x, y) of
        (Num a, Num b) \<Rightarrow> binary64 (a + b)
      | (Num a, _) \<Rightarrow> y
      | (_, Num b) \<Rightarrow> x
      | _ \<Rightarrow> if x = y then x else NaN)"

text \<open>\<^verbatim>\<open>x / 1000000\<close>\<close>

definition perMillion :: "number \<Rightarrow> number" where
  "perMillion x = (case x of Num a \<Rightarrow> binary64 (a / 1000000) | _ \<Rightarrow> x)"

text \<open>\<^verbatim>\<open>x >= v\<close> for a finite \<open>v\<close>: false when \<open>x\<close> is NaN.\<close>

definition greaterOrEqual :: "number \<Rightarrow> rat \<Rightarrow> bool" where
  "greaterOrEqual x v =
     (case x of Num a \<Rightarrow> v \<le> a | PosInfinity \<Rightarrow> True | NegInfinity \<Rightarrow> False | NaN \<Rightarrow> False)"

text \<open>
  \<^verbatim>\<open>parseFloat\<close> of the decimal text of a \<^verbatim>\<open>numeric\<close> column: the binary64 value nearest
  to the decimal.
\<close>

definition parseFloat :: "rat \<Rightarrow> number" where
  "parseFloat decimal = binary64 decimal"

subsection \<open>The store\<close>

text \<open>
  The usage counters are integers within the range JavaScript holds exactly, where the sum
  of two counters is exact; the limit value is a finite number. A price is the decimal of
  a \<^verbatim>\<open>numeric\<close> column, which the code receives as text.
\<close>

datatype entity_type = Organization | Team | Agent

record limit =
  limit_id :: string
  entityType :: entity_type
  entityId :: string
  limitType :: string
  model :: "string option"
  limitValue :: rat
  currentUsageTokensIn :: int
  currentUsageTokensOut :: int
  lastCleanup :: "int option"
  updatedAt :: int

record team =
  team_id :: string
  team_organizationId :: string

record organization =
  organization_id :: string
  limitCleanupInterval :: "string option"

record token_price =
  price_model :: string
  pricePerMillionInput :: rat
  pricePerMillionOutput :: rat

datatype query =
    GetTeamsForAgent string
  | SelectTeams "string list"
  | SelectOrganizationLimits
  | SelectOrganization string
  | FindLimitsNeedingCleanup string int
  | ResetLimitUsage string
  | FindLimitsForValidation entity_type string string
  | FindTokenPrice string

datatype error = RepositoryError query

record database =
  limitsTable :: "limit list"
  teamsTable :: "team list"
  organizationsTable :: "organization list"
  agentTeamTable :: "(string \<times> string) list"
  tokenPricesTable :: "token_price list"
  failing :: "query \<Rightarrow> bool"
  slot :: "string \<Rightarrow> limit list \<Rightarrow> nat"

definition run_query :: "database \<Rightarrow> query \<Rightarrow> 'a \<Rightarrow> error + 'a" where
  "run_query db q rows = (if failing db q then Inl (RepositoryError q) else Inr rows)"

text \<open>
  Modelled from the spec: \<^verbatim>\<open>AgentTeamModel.getTeamsForAgent\<close> (models/agent-team.ts) is
  not among the sources. Section 3 gives an agent its \<^verbatim>\<open>teamIds[]\<close>; the model reads them
  from the agent-team relation.
\<close>

definition getTeamsForAgent :: "database \<Rightarrow> string \<Rightarrow> error + string list" where
  "getTeamsForAgent db agentId =
     run_query db (GetTeamsForAgent agentId)
       (map snd (filter (\<lambda>(a, t). a = agentId) (agentTeamTable db)))"

text \<open>
  Modelled from the spec: \<^verbatim>\<open>TokenPriceModel.findByModel\<close> (models/token-price.ts) is not
  among the sources. Section 3: a TokenPrice row \<^verbatim>\<open>{model, pricePerMillionInput,
  pricePerMillionOutput}\<close> is looked up by model; no row gives null.
\<close>

definition findByModel :: "database \<Rightarrow> string \<Rightarrow> error + token_price option" where
  "findByModel db m =
     run_query db (FindTokenPrice m) (find (\<lambda>p. price_model p = m) (tokenPricesTable db))"

text \<open>\<^verbatim>\<open>db.select().from(teamsTable).where(inArray(teamsTable.id, agentTeamIds))\<close>\<close>

definition selectTeams :: "database \<Rightarrow> string list \<Rightarrow> error + team list" where
  "selectTeams db agentTeamIds =
     run_query db (SelectTeams agentTeamIds)
       (filter (\<lambda>t. team_id t \<in> set agentTeamIds) (teamsTable db))"

text \<open>
  \<^verbatim>\<open>db.select({entityId}).from(limitsTable).where(entityType = 'organization').limit(1)\<close>
\<close>

definition selectOrganizationLimits :: "database \<Rightarrow> error + string list" where
  "selectOrganizationLimits db =
     run_query db SelectOrganizationLimits
       (take 1 (map entityId (filter (\<lambda>l. entityType l = Organization) (limitsTable db))))"

definition selectOrganization :: "database \<Rightarrow> string \<Rightarrow> error + organization option" where
  "selectOrganization db organizationId =
     run_query db (SelectOrganization organizationId)
       (find (\<lambda>org. organization_id org = organizationId) (organizationsTable db))"

subsection \<open>LimitModel\<close>

definition needsCleanup :: "string \<Rightarrow> int \<Rightarrow> limit \<Rightarrow> bool" where
  "needsCleanup organizationId cutoffTime l =
     (entityType l = Organization \<and> entityId l = organizationId \<and>
      (case lastCleanup l of None \<Rightarrow> True | Some t \<Rightarrow> t < cutoffTime))"

definition findLimitsNeedingCleanup :: "database \<Rightarrow> string \<Rightarrow> int \<Rightarrow> error + limit list" where
  "findLimitsNeedingCleanup db organizationId cutoffTime =
     run_query db (FindLimitsNeedingCleanup organizationId cutoffTime)
       (filter (needsCleanup organizationId cutoffTime) (limitsTable db))"

definition resetRow :: "int \<Rightarrow> limit \<Rightarrow> limit" where
  "resetRow now l =
     l\<lparr>currentUsageTokensIn := 0, currentUsageTokensOut := 0,
       lastCleanup := Some now, updatedAt := now\<rparr>"

text \<open>
  \<^verbatim>\<open>resetLimitUsage(id)\<close>: \<open>now\<close> is the value of its \<^verbatim>\<open>new Date()\<close>. The result is the
  first of the rows the UPDATE returns (null when no row has the id) and the store after
  the UPDATE, the new versions standing together where the storage engine puts them.
\<close>

definition resetLimitUsage :: "int \<Rightarrow> string \<Rightarrow> database \<Rightarrow> error + (limit option \<times> database)" where
  "resetLimitUsage now i db =
     (if failing db (ResetLimitUsage i) then Inl (RepositoryError (ResetLimitUsage i))
      else
        let updated = map (resetRow now) (filter (\<lambda>l. limit_id l = i) (limitsTable db));
            others = filter (\<lambda>l. limit_id l \<noteq> i) (limitsTable db);
            k = slot db i (limitsTable db);
            rows = take k others @ updated @ drop k others
        in Inr (case updated of [] \<Rightarrow> None | r # rest \<Rightarrow> Some r, db\<lparr>limitsTable := rows\<rparr>))"

definition findLimitsForValidation ::
    "database \<Rightarrow> entity_type \<Rightarrow> string \<Rightarrow> string \<Rightarrow> error + limit list" where
  "findLimitsForValidation db et eid lt =
     run_query db (FindLimitsForValidation et eid lt)
       (filter (\<lambda>l. entityType l = et \<and> entityId l = eid \<and> limitType l = lt) (limitsTable db))"

text \<open>The \<^verbatim>\<open>switch (interval)\<close> of \<^verbatim>\<open>cleanupLimitsIfNeeded\<close>, in milliseconds.\<close>

definition intervalMillis :: "string \<Rightarrow> int option" where
  "intervalMillis interval =
     (if interval = ''1h'' then Some (60 * 60 * 1000)
      else if interval = ''12h'' then Some (12 * 60 * 60 * 1000)
      else if interval = ''24h'' then Some (24 * 60 * 60 * 1000)
      else if interval = ''1w'' then Some (7 * 24 * 60 * 60 * 1000)
      else if interval = ''1m'' then Some (30 * 24 * 60 * 60 * 1000)
      else None)"

text \<open>\<^verbatim>\<open>organization?.limitCleanupInterval || "1h"\<close>: null and the empty string are falsy.\<close>

definition cleanupIntervalOf :: "organization option \<Rightarrow> string" where
  "cleanupIntervalOf org =
     (case org of
        None \<Rightarrow> ''1h''
      | Some r \<Rightarrow>
          (case limitCleanupInterval r of
             None \<Rightarrow> ''1h''
           | Some s \<Rightarrow> if s = [] then ''1h'' else s))"

text \<open>
  The \<^verbatim>\<open>for (const limit of limitsToCleanup)\<close> loop: each reset reads the clock for
  itself (\<open>clock k\<close> is the \<open>k\<close>-th reading of the call). A reset that throws leaves the
  loop (the enclosing \<^verbatim>\<open>catch\<close> swallows it), the resets already made stay.
\<close>

fun resetAll :: "(nat \<Rightarrow> int) \<Rightarrow> nat \<Rightarrow> limit list \<Rightarrow> database \<Rightarrow> database" where
  "resetAll clock k [] db = db"
| "resetAll clock k (l # ls) db =
     (case resetLimitUsage (clock k) (limit_id l) db of
        Inl e \<Rightarrow> db
      | Inr (r, db') \<Rightarrow> resetAll clock (Suc k) ls db')"

text \<open>
  \<^verbatim>\<open>cleanupLimitsIfNeeded(organizationId)\<close>: never throws. Its own \<^verbatim>\<open>new Date()\<close>, from
  which the cutoff is computed, is reading 0 of the clock; the resets take the readings
  from 1 on.
\<close>

definition cleanupLimitsIfNeeded :: "(nat \<Rightarrow> int) \<Rightarrow> string \<Rightarrow> database \<Rightarrow> database" where
  "cleanupLimitsIfNeeded clock organizationId db =
     (case selectOrganization db organizationId of
        Inl e \<Rightarrow> db
      | Inr org \<Rightarrow>
          (case intervalMillis (cleanupIntervalOf org) of
             None \<Rightarrow> db
           | Some ms \<Rightarrow>
               (case findLimitsNeedingCleanup db organizationId (clock 0 - ms) of
                  Inl e \<Rightarrow> db
                | Inr limitsToCleanup \<Rightarrow> resetAll clock 1 limitsToCleanup db)))"

subsection \<open>LimitValidationService\<close>

datatype limit_description = Tokens | Cost_dollars

datatype log_level = LogWarn | LogError

text \<open>
  The refusal pair \<^verbatim>\<open>[refusalMessage, contentMessage]\<close> is held as the values the two
  templates interpolate: the entity, the raw token sum, the limit value, the compared
  value and its unit (the remaining amounts are computed from them).
\<close>

record refusal =
  refusal_entityType :: entity_type
  refusal_entityId :: string
  refusal_currentUsage :: int
  refusal_limitValue :: rat
  refusal_comparisonValue :: number
  refusal_limitDescription :: limit_description

text \<open>
  Lines 555-597 of \<^verbatim>\<open>checkEntityLimits\<close>: the value compared with \<^verbatim>\<open>limitValue\<close>, its
  unit, and what is logged at warning level or above. \<^verbatim>\<open>!limit.model\<close> holds for null
  and for the empty string.
\<close>

definition comparison :: "database \<Rightarrow> limit \<Rightarrow> number \<times> limit_description \<times> log_level list" where
  "comparison db l =
     (let currentUsage = currentUsageTokensIn l + currentUsageTokensOut l in
      if limitType l = ''token_cost'' then
        (case model l of
           None \<Rightarrow> (Num (of_int currentUsage), Tokens, [LogWarn])
         | Some m \<Rightarrow>
             if m = [] then (Num (of_int currentUsage), Tokens, [LogWarn])
             else
               (case findByModel db m of
                  Inl e \<Rightarrow> (Num (of_int currentUsage), Tokens, [LogError])
                | Inr None \<Rightarrow> (Num (of_int currentUsage), Tokens, [LogWarn])
                | Inr (Some tokenPrice) \<Rightarrow>
                    (let inputCost =
                           perMillion
                             (multiply (Num (of_int (currentUsageTokensIn l)))
                                (parseFloat (pricePerMillionInput tokenPrice)));
                         outputCost =
                           perMillion
                             (multiply (Num (of_int (currentUsageTokensOut l)))
                                (parseFloat (pricePerMillionOutput tokenPrice)))
                     in (addition inputCost outputCost, Cost_dollars, []))))
      else (Num (of_int currentUsage), Tokens, []))"

text \<open>The body of \<^verbatim>\<open>for (const limit of limits)\<close>: a refusal, or on to the next limit.\<close>

definition checkLimit :: "database \<Rightarrow> entity_type \<Rightarrow> string \<Rightarrow> limit \<Rightarrow> refusal option" where
  "checkLimit db et eid l =
     (case comparison db l of
        (comparisonValue, limitDescription, logged) \<Rightarrow>
          if greaterOrEqual comparisonValue (limitValue l) then
            Some \<lparr>refusal_entityType = et, refusal_entityId = eid,
                  refusal_currentUsage = currentUsageTokensIn l + currentUsageTokensOut l,
                  refusal_limitValue = limitValue l,
                  refusal_comparisonValue = comparisonValue,
                  refusal_limitDescription = limitDescription\<rparr>
          else None)"

fun checkLimits :: "database \<Rightarrow> entity_type \<Rightarrow> string \<Rightarrow> limit list \<Rightarrow> refusal option" where
  "checkLimits db et eid [] = None"
| "checkLimits db et eid (l # ls) =
     (case checkLimit db et eid l of
        Some r \<Rightarrow> Some r
      | None \<Rightarrow> checkLimits db et eid ls)"

text \<open>\<^verbatim>\<open>checkEntityLimits\<close>: the \<^verbatim>\<open>catch\<close> returns null (allow) on any error.\<close>

definition checkEntityLimits :: "database \<Rightarrow> entity_type \<Rightarrow> string \<Rightarrow> refusal option" where
  "checkEntityLimits db et eid =
     (case findLimitsForValidation db et eid ''token_cost'' of
        Inl e \<Rightarrow> None
      | Inr limits \<Rightarrow> if limits = [] then None else checkLimits db et eid limits)"

text \<open>The \<^verbatim>\<open>for (const team of teams)\<close> loop of \<^verbatim>\<open>checkLimitsBeforeRequest\<close>.\<close>

fun checkTeams :: "database \<Rightarrow> team list \<Rightarrow> refusal option" where
  "checkTeams db [] = None"
| "checkTeams db (t # ts) =
     (case checkEntityLimits db Team (team_id t) of
        Some r \<Rightarrow> Some r
      | None \<Rightarrow> checkTeams db ts)"

text \<open>
  Lines 368-388: the organization whose limits are swept, from the first team of the
  agent or, for an agent with no teams, from the first organization limit.
\<close>

definition organizationIdForCleanup :: "database \<Rightarrow> string list \<Rightarrow> error + string option" where
  "organizationIdForCleanup db agentTeamIds =
     (if agentTeamIds \<noteq> [] then
        (case selectTeams db agentTeamIds of
           Inl e \<Rightarrow> Inl e
         | Inr teams \<Rightarrow>
             (case teams of
                [] \<Rightarrow> Inr None
              | t # ts \<Rightarrow>
                  if team_organizationId t \<noteq> [] then Inr (Some (team_organizationId t))
                  else Inr None))
      else
        (case selectOrganizationLimits db of
           Inl e \<Rightarrow> Inl e
         | Inr existingOrgLimits \<Rightarrow>
             (case existingOrgLimits of
                [] \<Rightarrow> Inr None
              | eid # rest \<Rightarrow> Inr (Some eid))))"

text \<open>Lines 412-495: the team and organization checks, after the agent's own.\<close>

definition checkTeamsAndOrganization ::
    "database \<Rightarrow> string list \<Rightarrow> error + refusal option" where
  "checkTeamsAndOrganization db agentTeamIds =
     (if agentTeamIds \<noteq> [] then
        (case selectTeams db agentTeamIds of
           Inl e \<Rightarrow> Inl e
         | Inr teams \<Rightarrow>
             (case checkTeams db teams of
                Some r \<Rightarrow> Inr (Some r)
              | None \<Rightarrow>
                  (case teams of
                     [] \<Rightarrow> Inr None
                   | t # ts \<Rightarrow>
                       if team_organizationId t \<noteq> [] then
                         Inr (checkEntityLimits db Organization (team_organizationId t))
                       else Inr None)))
      else
        (case selectOrganizationLimits db of
           Inl e \<Rightarrow> Inl e
         | Inr existingOrgLimits \<Rightarrow>
             (case existingOrgLimits of
                [] \<Rightarrow> Inr None
              | eid # rest \<Rightarrow> Inr (checkEntityLimits db Organization eid))))"

text \<open>
  Lines 390-396: \<^verbatim>\<open>if (organizationId) await LimitModel.cleanupLimitsIfNeeded(organizationId)\<close>;
  null and the empty string are falsy.
\<close>

definition sweptStore :: "(nat \<Rightarrow> int) \<Rightarrow> string option \<Rightarrow> database \<Rightarrow> database" where
  "sweptStore clock organizationId db =
     (case organizationId of
        None \<Rightarrow> db
      | Some oid \<Rightarrow> if oid \<noteq> [] then cleanupLimitsIfNeeded clock oid db else db)"

text \<open>
  The \<^verbatim>\<open>try\<close> block of \<^verbatim>\<open>checkLimitsBeforeRequest\<close>: \<open>Inl\<close> is a thrown error, and
  the store is returned as the sweep left it.
\<close>

definition checkLimitsBeforeRequest_try ::
    "(nat \<Rightarrow> int) \<Rightarrow> string \<Rightarrow> database \<Rightarrow> (error + refusal option) \<times> database" where
  "checkLimitsBeforeRequest_try clock agentId db =
     (case getTeamsForAgent db agentId of
        Inl e \<Rightarrow> (Inl e, db)
      | Inr agentTeamIds \<Rightarrow>
          (case organizationIdForCleanup db agentTeamIds of
             Inl e \<Rightarrow> (Inl e, db)
           | Inr organizationId \<Rightarrow>
               (let db' = sweptStore clock organizationId db in
                  (case checkEntityLimits db' Agent agentId of
                     Some agentLimitViolation \<Rightarrow> (Inr (Some agentLimitViolation), db')
                   | None \<Rightarrow> (checkTeamsAndOrganization db' agentTeamIds, db')))))"

text \<open>
  \<^verbatim>\<open>checkLimitsBeforeRequest(agentId)\<close>: the \<^verbatim>\<open>catch\<close> logs and returns null, "allow the
  request to proceed". \<open>Inr None\<close> is null, \<open>Inr (Some r)\<close> a refusal pair, \<open>Inl\<close> an
  error thrown to the caller.
\<close>

definition checkLimitsBeforeRequest ::
    "(nat \<Rightarrow> int) \<Rightarrow> string \<Rightarrow> database \<Rightarrow> (error + refusal option) \<times> database" where
  "checkLimitsBeforeRequest clock agentId db =
     (case checkLimitsBeforeRequest_try clock agentId db of
        (Inl e, db') \<Rightarrow> (Inr None, db')
      | (Inr r, db') \<Rightarrow> (Inr r, db'))"

subsection \<open>The limits that govern a request\<close>



text \<open>The refusal of the first limit of the list whose compared value reaches its value.\<close>

definition firstExceeded ::
    "database \<Rightarrow> (entity_type \<times> string \<times> limit) list \<Rightarrow> refusal option" where
  "firstExceeded db candidates =
     (case find (\<lambda>(et, eid, l). greaterOrEqual (fst (comparison db l)) (limitValue l))
             candidates of
        None \<Rightarrow> None
      | Some (et, eid, l) \<Rightarrow>
          Some \<lparr>refusal_entityType = et, refusal_entityId = eid,
                refusal_currentUsage = currentUsageTokensIn l + currentUsageTokensOut l,
                refusal_limitValue = limitValue l,
                refusal_comparisonValue = fst (comparison db l),
                refusal_limitDescription = fst (snd (comparison db l))\<rparr>)"

section \<open>Prompt versioning: platform/backend/src/models/prompt.ts\<close>

text \<open>
  The prompts table (database/schemas/prompt.ts) as the list of its rows in insertion
  order. The store gives a new row its id (\<^verbatim>\<open>defaultRandom()\<close>) and its time stamps
  (\<^verbatim>\<open>defaultNow()\<close>, \<^verbatim>\<open>$onUpdate\<close>): the operations take the generated id and the
  current time as arguments. Only operations that complete are modelled.
\<close>

datatype prompt_type = System | Regular

record prompt =
  prompt_id :: string
  organizationId :: string
  name :: string
  ptype :: prompt_type
  content :: string
  version :: int
  parentPromptId :: "string option"
  isActive :: bool
  createdBy :: string
  createdAt :: int
  prompt_updatedAt :: int

record createPromptInput =
  input_organizationId :: string
  input_name :: string
  input_type :: prompt_type
  input_content :: string
  input_createdBy :: string

record updatePromptInput =
  update_name :: "string option"
  update_content :: "string option"
  update_createdBy :: string

text \<open>\<^verbatim>\<open>PromptModel.create(input)\<close>: the new row and the table after the insert.\<close>

definition PromptModel_create :: "string \<Rightarrow> int \<Rightarrow> createPromptInput \<Rightarrow> prompt list \<Rightarrow> prompt \<times> prompt list" where
  "PromptModel_create newId now input table =
     (let row = \<lparr>prompt_id = newId,
                 organizationId = input_organizationId input,
                 name = input_name input,
                 ptype = input_type input,
                 content = input_content input,
                 version = 1,
                 parentPromptId = None,
                 isActive = True,
                 createdBy = input_createdBy input,
                 createdAt = now,
                 prompt_updatedAt = now\<rparr>
      in (row, table @ [row]))"

text \<open>\<^verbatim>\<open>PromptModel.findById(id)\<close>: the first row with the id, or null.\<close>

definition PromptModel_findById :: "prompt list \<Rightarrow> string \<Rightarrow> prompt option" where
  "PromptModel_findById table i = find (\<lambda>p. prompt_id p = i) table"

text \<open>\<^verbatim>\<open>a || b\<close> on an optional string: undefined and the empty string are falsy.\<close>

definition orElse :: "string option \<Rightarrow> string \<Rightarrow> string" where
  "orElse a b = (case a of None \<Rightarrow> b | Some s \<Rightarrow> if s = [] then b else s)"

text \<open>
  \<^verbatim>\<open>PromptModel.update(id, input)\<close>: null when no row has the id; otherwise the row is
  deactivated and a new version is inserted.
\<close>

definition PromptModel_update :: "string \<Rightarrow> int \<Rightarrow> string \<Rightarrow> updatePromptInput \<Rightarrow> prompt list \<Rightarrow> prompt option \<times> prompt list" where
  "PromptModel_update newId now i input table =
     (case PromptModel_findById table i of
        None \<Rightarrow> (None, table)
      | Some currentPrompt \<Rightarrow>
          (let deactivated =
                 map (\<lambda>p. if prompt_id p = i
                           then p\<lparr>isActive := False, prompt_updatedAt := now\<rparr> else p) table;
               newVersion =
                 \<lparr>prompt_id = newId,
                  organizationId = organizationId currentPrompt,
                  name = orElse (update_name input) (name currentPrompt),
                  ptype = ptype currentPrompt,
                  content = orElse (update_content input) (content currentPrompt),
                  version = version currentPrompt + 1,
                  parentPromptId = Some i,
                  isActive = True,
                  createdBy = update_createdBy input,
                  createdAt = now,
                  prompt_updatedAt = now\<rparr>
           in (Some newVersion, deactivated @ [newVersion])))"

text \<open>A sequence of operations on the table, each with the id and time the store gives it.\<close>

datatype prompt_op =
    Create string int createPromptInput
  | Update string int string updatePromptInput

fun apply_op :: "prompt_op \<Rightarrow> prompt list \<Rightarrow> prompt list" where
  "apply_op (Create newId now input) table = snd (PromptModel_create newId now input table)"
| "apply_op (Update newId now i input) table = snd (PromptModel_update newId now i input table)"

fun run_ops :: "prompt_op list \<Rightarrow> prompt list \<Rightarrow> prompt list" where
  "run_ops [] table = table"
| "run_ops (op # ops) table = run_ops ops (apply_op op table)"

text \<open>
  A prompt updated again and again: each update is applied to the version the previous
  operation returned. An element of the list is the id and time of the new version and
  the input of the update.
\<close>

fun update_chain :: "string \<Rightarrow> (string \<times> int \<times> updatePromptInput) list \<Rightarrow> prompt list \<Rightarrow> prompt list" where
  "update_chain i [] table = table"
| "update_chain i ((newId, now, input) # rest) table =
     (case PromptModel_update newId now i input table of
        (None, table') \<Rightarrow> table'
      | (Some newVersion, table') \<Rightarrow> update_chain (prompt_id newVersion) rest table')"

text \<open>The rows of one \<^verbatim>\<open>(organizationId, name, type)\<close> triple, as \<^verbatim>\<open>findVersions\<close> selects them.\<close>

definition versionsOf :: "string \<Rightarrow> string \<Rightarrow> prompt_type \<Rightarrow> prompt list \<Rightarrow> prompt list" where
  "versionsOf org n t table =
     filter (\<lambda>p. organizationId p = org \<and> name p = n \<and> ptype p = t) table"

section \<open>The Anthropic messages handler\<close>

text \<open>
  The Anthropic proxy routes (\<^verbatim>\<open>injectTools\<close>, \<^verbatim>\<open>handleMessages\<close>) stand in the sources
  after the tests of routes/proxy/utils/trusted-data.test.ts, from line 527 on; line
  numbers below are those of that file.
  \<^verbatim>\<open>handleMessages\<close> is modelled by the sequence of its effects: the calls it makes to
  its collaborators, what it writes to the response, and what it persists. The
  collaborators are parameters of the model, each giving its result or the error it
  throws: \<^verbatim>\<open>AgentModel\<close>, \<^verbatim>\<open>utils.*\<close> and the Anthropic client are not among the sources;
  \<^verbatim>\<open>InteractionModel.create\<close> is (it stands after auth/utils.ts, lines 40-59): it inserts
  the row, which the handler awaits, and starts the update of the usage counters in the
  background, whose errors it logs and swallows. Messages, schemas and other JSON values
  are held by their JSON text.
\<close>

datatype exn = Exn "nat option" string

record tool_use =
  tool_use_id :: string
  tool_use_name :: string
  tool_use_input :: string

datatype content_block = Text string | ToolUse tool_use | OtherBlock string

datatype delta = TextDelta string | InputJsonDelta string | OtherDelta string

datatype stream_event =
    MessageStart string "(nat \<times> nat) option"
  | ContentBlockStart nat content_block
  | ContentBlockDelta nat delta
  | OtherEvent string

record tool_definition =
  tool_name :: string
  tool_type :: "string option"
  tool_description :: "string option"
  tool_input_schema :: string

record assigned_tool =
  assigned_name :: string
  assigned_description :: "string option"
  assigned_parameters :: "string option"

record persisted_tool =
  toolName :: string
  toolParameters :: string
  toolDescription :: "string option"

record messages_request =
  request_model :: string
  request_messages :: "string list"
  request_tools :: "tool_definition list option"
  request_stream :: bool

record messages_headers =
  user_agent :: "string option"
  x_api_key :: string

record messages_response =
  response_id :: string
  response_content :: "content_block list"
  response_model :: string
  response_stop_reason :: string
  response_usage :: "nat \<times> nat"

record interaction =
  interaction_agentId :: string
  interaction_type :: string
  interaction_request :: messages_request
  interaction_response :: messages_response

datatype callback = DualLlmStarted | DualLlmProgress string "string list" string

text \<open>
  What is written to \<^verbatim>\<open>reply.raw\<close>: an upstream event, serialised as it stands when it
  is written, or an event of the handler's own. \<open>TextDeltaEvent\<close> is a
  \<^verbatim>\<open>content_block_delta\<close> at index 0 with a \<^verbatim>\<open>text_delta\<close> of the given text; the two
  dual-LLM events are such text deltas too, their text built from the values they carry.
\<close>

datatype sse =
    Forwarded stream_event
  | TextDeltaEvent string
  | DualLlmStartEvent
  | DualLlmProgressEvent string "string list" string
  | MessageDeltaEndTurn
  | MessageStop

datatype reply_body = ErrorBody string string | ResponseBody messages_response

datatype effect =
    Call_findById string
  | Call_getAgentIdFromRequest "string option"
  | Call_persistTools "persisted_tool list" string
  | Call_getAssignedMCPTools string
  | Call_evaluateIfContextIsTrusted "string list" string string bool
  | Call_messages_stream messages_request
  | Call_messages_create messages_request
  | Call_evaluatePolicies "(string \<times> string) list" string bool
  | Call_executeMcpToolCalls "string list" string
  | Call_InteractionModel_create interaction
  | Header string string
  | Write sse
  | End
  | Status nat
  | Send reply_body

record collaborators =
  findById :: "string \<Rightarrow> exn + bool"
  getAgentIdFromRequest :: "string option \<Rightarrow> exn + string"
  persistTools :: "persisted_tool list \<Rightarrow> string \<Rightarrow> exn + unit"
  getAssignedMCPTools :: "string \<Rightarrow> exn + assigned_tool list"
  toCommonFormat :: "string list \<Rightarrow> string list"
  evaluateIfContextIsTrusted ::
    "string list \<Rightarrow> string \<Rightarrow> string \<Rightarrow> callback list \<times> (exn + (string \<times> bool))"
  applyUpdates :: "string list \<Rightarrow> string \<Rightarrow> string list"
  messages_stream :: "messages_request \<Rightarrow> stream_event list \<times> exn option"
  messages_create :: "messages_request \<Rightarrow> exn + messages_response"
  appendPartialJson :: "string \<Rightarrow> string \<Rightarrow> string"
  parseInput :: "string \<Rightarrow> string"
  evaluatePolicies :: "(string \<times> string) list \<Rightarrow> string \<Rightarrow> bool \<Rightarrow> exn + (string \<times> string) option"
  toolCallsToCommon :: "tool_use list \<Rightarrow> string list"
  executeMcpToolCalls :: "string list \<Rightarrow> string \<Rightarrow> exn + string list"
  toolResultsToMessages :: "string list \<Rightarrow> string list"
  assistantMessage :: "content_block list \<Rightarrow> string"
  InteractionModel_create :: "interaction \<Rightarrow> exn + unit"

text \<open>
  A computation of the handler: the effects so far and its value, or the error thrown
  after those effects.
\<close>

type_synonym 'a run = "effect list \<times> (exn + 'a)"

definition returns :: "'a \<Rightarrow> 'a run" where
  "returns a = ([], Inr a)"

definition call :: "effect \<Rightarrow> exn + 'a \<Rightarrow> 'a run" where
  "call e r = ([e], r)"

definition emit :: "effect list \<Rightarrow> unit run" where
  "emit es = (es, Inr ())"

definition andThen :: "'a run \<Rightarrow> ('a \<Rightarrow> 'b run) \<Rightarrow> 'b run" where
  "andThen m f =
     (case m of
        (es, Inl e) \<Rightarrow> (es, Inl e)
      | (es, Inr a) \<Rightarrow> (case f a of (es', r) \<Rightarrow> (es @ es', r)))"

subsection \<open>injectTools\<close>

text \<open>\<^verbatim>\<open>Map.set\<close>: an existing key keeps its place, a new key goes last.\<close>

fun mapSet :: "(string \<times> 'v) list \<Rightarrow> string \<Rightarrow> 'v \<Rightarrow> (string \<times> 'v) list" where
  "mapSet [] k v = [(k, v)]"
| "mapSet ((k', v') # m) k v = (if k' = k then (k, v) # m else (k', v') # mapSet m k v)"

definition toAnthropicTool :: "assigned_tool \<Rightarrow> tool_definition" where
  "toAnthropicTool tool =
     \<lparr>tool_name = assigned_name tool,
      tool_type = Some ''custom'',
      tool_description =
        (case assigned_description tool of
           None \<Rightarrow> None | Some d \<Rightarrow> if d = [] then None else Some d),
      tool_input_schema =
        (case assigned_parameters tool of None \<Rightarrow> ''{}'' | Some p \<Rightarrow> p)\<rparr>"

definition injectTools ::
    "collaborators \<Rightarrow> tool_definition list option \<Rightarrow> string \<Rightarrow> tool_definition list run" where
  "injectTools c requestTools agentId =
     andThen (call (Call_getAssignedMCPTools agentId) (getAssignedMCPTools c agentId))
       (\<lambda>assignedTools.
          let requestToolMap =
                fold (\<lambda>tool m. mapSet m (tool_name tool) tool)
                  (case requestTools of None \<Rightarrow> [] | Some ts \<Rightarrow> ts) [];
              mergedToolMap =
                fold (\<lambda>tool m. mapSet m (tool_name tool) tool)
                  (map toAnthropicTool assignedTools) requestToolMap
          in returns (map snd mergedToolMap))"

subsection \<open>The streaming branch\<close>

text \<open>
  The state of the \<^verbatim>\<open>for await (const event of messageStream)\<close> loop:
  \<^verbatim>\<open>events\<close>, \<^verbatim>\<open>accumulatedText\<close> and \<^verbatim>\<open>accumulatedToolCalls\<close>.
\<close>

record accumulator =
  events :: "stream_event list"
  accumulatedText :: string
  accumulatedToolCalls :: "tool_use list"

definition isToolUseEvent :: "stream_event \<Rightarrow> bool" where
  "isToolUseEvent event =
     (case event of
        ContentBlockStart i (ToolUse t) \<Rightarrow> True
      | ContentBlockDelta i (InputJsonDelta j) \<Rightarrow> True
      | _ \<Rightarrow> False)"

text \<open>One turn of the loop: what it writes at once, and the new state.\<close>

definition onEvent ::
    "collaborators \<Rightarrow> stream_event \<Rightarrow> accumulator \<Rightarrow> effect list \<times> accumulator" where
  "onEvent c event acc =
     (let acc1 = acc\<lparr>events := events acc @ [event]\<rparr> in
      case event of
        ContentBlockDelta i (TextDelta t) \<Rightarrow>
          ([Write (Forwarded event)], acc1\<lparr>accumulatedText := accumulatedText acc1 @ t\<rparr>)
      | ContentBlockStart i (ToolUse block) \<Rightarrow>
          ([], acc1\<lparr>accumulatedToolCalls := accumulatedToolCalls acc1 @ [block]\<rparr>)
      | ContentBlockDelta i (InputJsonDelta partial_json) \<Rightarrow>
          (case rev (accumulatedToolCalls acc1) of
             [] \<Rightarrow> ([], acc1)
           | lastToolCall # earlier \<Rightarrow>
               ([], acc1\<lparr>accumulatedToolCalls :=
                        rev earlier @
                        [lastToolCall\<lparr>tool_use_input :=
                           appendPartialJson c (tool_use_input lastToolCall) partial_json\<rparr>]\<rparr>))
      | _ \<Rightarrow> ([], acc1))"

fun consume ::
    "collaborators \<Rightarrow> stream_event list \<Rightarrow> accumulator \<Rightarrow> effect list \<times> accumulator" where
  "consume c [] acc = ([], acc)"
| "consume c (event # rest) acc =
     (case onEvent c event acc of
        (written, acc') \<Rightarrow>
          (case consume c rest acc' of (written', acc'') \<Rightarrow> (written @ written', acc'')))"

text \<open>
  \<^verbatim>\<open>accumulatedToolCalls\<close> holds the \<^verbatim>\<open>content_block\<close> objects of the events themselves
  (\<^verbatim>\<open>accumulatedToolCalls.push(event.content_block)\<close>): what the loop and the parse
  assign to their \<^verbatim>\<open>input\<close> shows in the events of \<^verbatim>\<open>events\<close> when they are serialised.
  The k-th \<^verbatim>\<open>tool_use\<close> start event carries the k-th accumulated tool call.
\<close>

fun withAccumulatedInput :: "tool_use list \<Rightarrow> stream_event list \<Rightarrow> stream_event list" where
  "withAccumulatedInput toolCalls [] = []"
| "withAccumulatedInput toolCalls (ContentBlockStart i (ToolUse block) # evs) =
     (case toolCalls of
        [] \<Rightarrow> ContentBlockStart i (ToolUse block) # withAccumulatedInput [] evs
      | toolCall # rest \<Rightarrow>
          ContentBlockStart i (ToolUse toolCall) # withAccumulatedInput rest evs)"
| "withAccumulatedInput toolCalls (event # evs) = event # withAccumulatedInput toolCalls evs"

text \<open>Lines 862-878: the buffered tool-use events, written in the order of \<^verbatim>\<open>events\<close>.\<close>

definition flushToolUseEvents :: "tool_use list \<Rightarrow> stream_event list \<Rightarrow> effect list" where
  "flushToolUseEvents toolCalls evs =
     map (\<lambda>event. Write (Forwarded event))
       (filter isToolUseEvent (withAccumulatedInput toolCalls evs))"

definition messageStartOf :: "stream_event list \<Rightarrow> (string \<times> (nat \<times> nat) option) option" where
  "messageStartOf evs =
     (case find (\<lambda>e. case e of MessageStart i u \<Rightarrow> True | _ \<Rightarrow> False) evs of
        Some (MessageStart i u) \<Rightarrow> Some (i, u)
      | _ \<Rightarrow> None)"

definition streamedResponse ::
    "messages_request \<Rightarrow> stream_event list \<Rightarrow> content_block list \<Rightarrow> messages_response" where
  "streamedResponse body evs responseContent =
     \<lparr>response_id =
        (case messageStartOf evs of
           Some (i, u) \<Rightarrow> if i = [] then ''msg-unknown'' else i
         | None \<Rightarrow> ''msg-unknown''),
      response_content = responseContent,
      response_model = request_model body,
      response_stop_reason = ''end_turn'',
      response_usage =
        (case messageStartOf evs of
           Some (i, Some u) \<Rightarrow> u
         | _ \<Rightarrow> (0, 0))\<rparr>"

text \<open>
  Lines 751-931. The stream gives its events and then ends or throws; an error thrown by
  the stream is thrown after what the loop wrote for the events before it.
\<close>

definition streamingBranch ::
    "collaborators \<Rightarrow> messages_request \<Rightarrow> string \<Rightarrow> string list \<Rightarrow> bool \<Rightarrow> unit run" where
  "streamingBranch c body resolvedAgentId filteredMessages contextIsTrusted =
     (let request = body\<lparr>request_messages := filteredMessages\<rparr> in
      case messages_stream c request of
        (streamed, thrown) \<Rightarrow>
          (case consume c streamed
                  \<lparr>events = [], accumulatedText = [], accumulatedToolCalls = []\<rparr> of
             (written, acc) \<Rightarrow>
               andThen
                 (Call_messages_stream request # written,
                  case thrown of Some e \<Rightarrow> Inl e | None \<Rightarrow> Inr ())
                 (\<lambda>_.
                    let toolCalls =
                          map (\<lambda>toolCall. toolCall\<lparr>tool_use_input :=
                                 parseInput c (tool_use_input toolCall)\<rparr>)
                            (accumulatedToolCalls acc);
                        policyInput =
                          map (\<lambda>toolCall. (tool_use_name toolCall, tool_use_input toolCall))
                            toolCalls
                    in
                    andThen
                      (if toolCalls \<noteq> [] then
                         call (Call_evaluatePolicies policyInput resolvedAgentId contextIsTrusted)
                           (evaluatePolicies c policyInput resolvedAgentId contextIsTrusted)
                       else returns None)
                      (\<lambda>toolInvocationRefusal.
                         andThen
                           (case toolInvocationRefusal of
                              Some (refusalMessage, contentMessage) \<Rightarrow>
                                andThen (emit [Write (TextDeltaEvent contentMessage)])
                                  (\<lambda>_. returns [Text contentMessage])
                            | None \<Rightarrow>
                                if toolCalls \<noteq> [] then
                                  andThen (emit (flushToolUseEvents toolCalls (events acc)))
                                    (\<lambda>_. returns
                                       ((if accumulatedText acc \<noteq> []
                                         then [Text (accumulatedText acc)] else [])
                                        @ map ToolUse toolCalls))
                                else returns [Text (accumulatedText acc)])
                           (\<lambda>responseContent.
                              let stored =
                                    \<lparr>interaction_agentId = resolvedAgentId,
                                     interaction_type = ''anthropic:messages'',
                                     interaction_request = body,
                                     interaction_response =
                                       streamedResponse body (events acc) responseContent\<rparr>
                              in
                              andThen
                                (call (Call_InteractionModel_create stored)
                                   (InteractionModel_create c stored))
                                (\<lambda>_. emit [Write MessageDeltaEndTurn, Write MessageStop, End]))))))"

subsection \<open>The non-streaming branch\<close>

definition toolUsesOf :: "content_block list \<Rightarrow> tool_use list" where
  "toolUsesOf blocks =
     concat (map (\<lambda>b. case b of ToolUse t \<Rightarrow> [t] | _ \<Rightarrow> []) blocks)"

definition persistAndSend ::
    "collaborators \<Rightarrow> messages_request \<Rightarrow> string \<Rightarrow> messages_response \<Rightarrow> unit run" where
  "persistAndSend c body resolvedAgentId response =
     (let stored =
            \<lparr>interaction_agentId = resolvedAgentId,
             interaction_type = ''anthropic:messages'',
             interaction_request = body,
             interaction_response = response\<rparr>
      in andThen (call (Call_InteractionModel_create stored) (InteractionModel_create c stored))
           (\<lambda>_. emit [Send (ResponseBody response)]))"

text \<open>Lines 933-1029.\<close>

definition unaryBranch ::
    "collaborators \<Rightarrow> messages_request \<Rightarrow> string \<Rightarrow> tool_definition list \<Rightarrow> string list \<Rightarrow> bool
      \<Rightarrow> unit run" where
  "unaryBranch c body resolvedAgentId mergedTools filteredMessages contextIsTrusted =
     (let request =
            body\<lparr>request_messages := filteredMessages,
                 request_tools := (if mergedTools \<noteq> [] then Some mergedTools else None),
                 request_stream := False\<rparr>
      in
      andThen (call (Call_messages_create request) (messages_create c request))
        (\<lambda>response.
           let toolCalls = toolUsesOf (response_content response);
               policyInput =
                 map (\<lambda>toolCall. (tool_use_name toolCall, tool_use_input toolCall)) toolCalls
           in
           andThen
             (call (Call_evaluatePolicies policyInput resolvedAgentId contextIsTrusted)
                (evaluatePolicies c policyInput resolvedAgentId contextIsTrusted))
             (\<lambda>toolInvocationRefusal.
                case toolInvocationRefusal of
                  Some (refusalMessage, contentMessage) \<Rightarrow>
                    persistAndSend c body resolvedAgentId
                      (response\<lparr>response_content := [Text contentMessage]\<rparr>)
                | None \<Rightarrow>
                    if toolCalls \<noteq> [] then
                      (let commonToolCalls = toolCallsToCommon c toolCalls in
                       andThen
                         (call (Call_executeMcpToolCalls commonToolCalls resolvedAgentId)
                            (executeMcpToolCalls c commonToolCalls resolvedAgentId))
                         (\<lambda>mcpResults.
                            if mcpResults \<noteq> [] then
                              (let updatedMessages =
                                     filteredMessages
                                     @ [assistantMessage c (response_content response)]
                                     @ toolResultsToMessages c mcpResults;
                                   finalRequest = request\<lparr>request_messages := updatedMessages\<rparr>
                               in
                               andThen
                                 (call (Call_messages_create finalRequest)
                                    (messages_create c finalRequest))
                                 (\<lambda>finalResponse.
                                    persistAndSend c body resolvedAgentId finalResponse))
                            else persistAndSend c body resolvedAgentId response))
                    else persistAndSend c body resolvedAgentId response)))"

subsection \<open>handleMessages\<close>

definition transformTools :: "tool_definition list \<Rightarrow> persisted_tool list" where
  "transformTools ts =
     map (\<lambda>tool. \<lparr>toolName = tool_name tool, toolParameters = tool_input_schema tool,
                  toolDescription = tool_description tool\<rparr>)
       (filter (\<lambda>tool. tool_type tool = None \<or> tool_type tool = Some ''custom'') ts)"

definition callbackEvent :: "callback \<Rightarrow> effect" where
  "callbackEvent cb =
     (case cb of
        DualLlmStarted \<Rightarrow> Write DualLlmStartEvent
      | DualLlmProgress question options answer \<Rightarrow>
          Write (DualLlmProgressEvent question options answer))"

text \<open>The \<^verbatim>\<open>try\<close> block, lines 664-1029.\<close>

definition handleMessages_try ::
    "collaborators \<Rightarrow> messages_request \<Rightarrow> messages_headers \<Rightarrow> string \<Rightarrow> unit run" where
  "handleMessages_try c body headers resolvedAgentId =
     andThen
       (case request_tools body of
          Some ts \<Rightarrow>
            call (Call_persistTools (transformTools ts) resolvedAgentId)
              (persistTools c (transformTools ts) resolvedAgentId)
        | None \<Rightarrow> returns ())
       (\<lambda>_.
          andThen (injectTools c (request_tools body) resolvedAgentId)
            (\<lambda>mergedTools.
               let commonMessages = toCommonFormat c (request_messages body) in
               andThen
                 (emit (if request_stream body
                        then [Header ''Content-Type'' ''text/event-stream'',
                              Header ''Cache-Control'' ''no-cache'',
                              Header ''Connection'' ''keep-alive'']
                        else []))
                 (\<lambda>_.
                    andThen
                      (case evaluateIfContextIsTrusted c commonMessages resolvedAgentId
                              (x_api_key headers) of
                         (callbacks, outcome) \<Rightarrow>
                           (Call_evaluateIfContextIsTrusted commonMessages resolvedAgentId
                              (x_api_key headers) (request_stream body)
                            # (if request_stream body then map callbackEvent callbacks else []),
                            outcome))
                      (\<lambda>(toolResultUpdates, contextIsTrusted).
                         let filteredMessages =
                               applyUpdates c (request_messages body) toolResultUpdates
                         in
                         if request_stream body then
                           streamingBranch c body resolvedAgentId filteredMessages
                             contextIsTrusted
                         else
                           unaryBranch c body resolvedAgentId mergedTools filteredMessages
                             contextIsTrusted))))"

text \<open>
  \<^verbatim>\<open>handleMessages(body, headers, reply, agentId?)\<close>: the effects of one request, and the
  error it throws to the framework if any (the agent look-ups are outside the \<^verbatim>\<open>try\<close>).
  The \<^verbatim>\<open>catch\<close> answers with the status of the error, 500 when it has none.
\<close>

definition handleMessages ::
    "collaborators \<Rightarrow> messages_request \<Rightarrow> messages_headers \<Rightarrow> string option \<Rightarrow> unit run" where
  "handleMessages c body headers agentId =
     andThen
       (case agentId of
          Some i \<Rightarrow>
            if i \<noteq> [] then
              andThen (call (Call_findById i) (findById c i))
                (\<lambda>found. returns (if found then Some i else None))
            else
              andThen
                (call (Call_getAgentIdFromRequest (user_agent headers))
                   (getAgentIdFromRequest c (user_agent headers)))
                (\<lambda>resolved. returns (Some resolved))
        | None \<Rightarrow>
            andThen
              (call (Call_getAgentIdFromRequest (user_agent headers))
                 (getAgentIdFromRequest c (user_agent headers)))
              (\<lambda>resolved. returns (Some resolved)))
       (\<lambda>resolvedAgentId.
          case resolvedAgentId of
            None \<Rightarrow>
              emit [Status 404,
                    Send (ErrorBody
                      (''Agent with ID '' @ (case agentId of Some i \<Rightarrow> i | None \<Rightarrow> [])
                       @ '' not found'') ''not_found'')]
          | Some resolved \<Rightarrow>
              (case handleMessages_try c body headers resolved of
                 (es, Inr u) \<Rightarrow> (es, Inr u)
               | (es, Inl (Exn status message)) \<Rightarrow>
                   (es @ [Status (case status of Some s \<Rightarrow> s | None \<Rightarrow> 500),
                          Send (ErrorBody message ''api_error'')],
                    Inr ())))"

text \<open>
  One request against the whole system: the store of the quota layer and the
  collaborators of the handler.
\<close>

record world =
  store :: database
  services :: collaborators

definition serve ::
    "world \<Rightarrow> messages_request \<Rightarrow> messages_headers \<Rightarrow> string option \<Rightarrow> unit run" where
  "serve w body headers agentId = handleMessages (services w) body headers agentId"

subsection \<open>Observations on the effects of a request\<close>

text \<open>The tool-use events written to the response, in the order they were written.\<close>

definition toolUseWrites :: "effect list \<Rightarrow> stream_event list" where
  "toolUseWrites trace =
     filter isToolUseEvent
       (concat (map (\<lambda>e. case e of Write (Forwarded event) \<Rightarrow> [event] | _ \<Rightarrow> []) trace))"

text \<open>The interactions handed to \<^verbatim>\<open>InteractionModel.create\<close>, in order.\<close>

definition persistedInteractions :: "effect list \<Rightarrow> interaction list" where
  "persistedInteractions trace =
     concat (map (\<lambda>e. case e of Call_InteractionModel_create i \<Rightarrow> [i] | _ \<Rightarrow> []) trace)"

text \<open>The calls to the upstream provider, in order.\<close>

definition upstreamCalls :: "effect list \<Rightarrow> messages_request list" where
  "upstreamCalls trace =
     concat (map (\<lambda>e. case e of
                         Call_messages_stream r \<Rightarrow> [r]
                       | Call_messages_create r \<Rightarrow> [r]
                       | _ \<Rightarrow> []) trace)"

text \<open>
  The effects of a request between the resolution of its agent and the upstream call, when
  none of them throws: the tools of the request are persisted, the assigned tools are
  fetched, the headers of a stream are set, and the trust of the context is evaluated
  (its progress is written to a stream).
\<close>

definition preamble ::
    "collaborators \<Rightarrow> messages_request \<Rightarrow> messages_headers \<Rightarrow> string \<Rightarrow> callback list
      \<Rightarrow> effect list" where
  "preamble c body headers i callbacks =
     (case request_tools body of
        None \<Rightarrow> [] | Some ts \<Rightarrow> [Call_persistTools (transformTools ts) i])
     @ [Call_getAssignedMCPTools i]
     @ (if request_stream body
        then [Header ''Content-Type'' ''text/event-stream'',
              Header ''Cache-Control'' ''no-cache'',
              Header ''Connection'' ''keep-alive'']
        else [])
     @ [Call_evaluateIfContextIsTrusted (toCommonFormat c (request_messages body)) i
          (x_api_key headers) (request_stream body)]
     @ (if request_stream body then map callbackEvent callbacks else [])"

text \<open>An event without the \<^verbatim>\<open>input\<close> of its \<^verbatim>\<open>tool_use\<close> block.\<close>

definition withoutInput :: "stream_event \<Rightarrow> stream_event" where
  "withoutInput event =
     (case event of
        ContentBlockStart i (ToolUse block) \<Rightarrow>
          ContentBlockStart i (ToolUse (block\<lparr>tool_use_input := []\<rparr>))
      | _ \<Rightarrow> event)"

text \<open>A \<^verbatim>\<open>tool_use\<close> block without its \<^verbatim>\<open>input\<close>, and the blocks the stream started.\<close>

definition strip :: "tool_use \<Rightarrow> tool_use" where
  "strip t = t\<lparr>tool_use_input := []\<rparr>"

fun startedBlocks :: "stream_event list \<Rightarrow> tool_use list" where
  "startedBlocks [] = []"
| "startedBlocks (ContentBlockStart i (ToolUse block) # evs) = block # startedBlocks evs"
| "startedBlocks (event # evs) = startedBlocks evs"

text \<open>Every interaction of the trace is persisted with type \<^verbatim>\<open>anthropic:messages\<close>.\<close>

definition onlyMessages :: "effect list \<Rightarrow> bool" where
  "onlyMessages trace =
     (\<forall>i \<in> set (persistedInteractions trace). interaction_type i = ''anthropic:messages'')"

section \<open>Trusted-data policies: routes/proxy/utils/trusted-data.ts\<close>

text \<open>
  \<^verbatim>\<open>evaluatePolicies\<close> and \<^verbatim>\<open>filterOutBlockedData\<close> are exercised by trusted-data.test.ts,
  but trusted-data.ts itself is not among the sources. Both are modelled from section 4.2
  of the specification, over the tables the tests set up: chats, tools, trusted-data
  policies, their assignment to agents, and the persisted interactions of a chat.
\<close>

datatype message =
    SystemMessage string
  | UserMessage string
  | AssistantMessage "string option" "(string \<times> string) list"
  | ToolMessage string string

datatype policy_action = Mark_as_trusted | Block_always

record trusted_data_policy =
  policy_id :: string
  policy_toolId :: string
  attributePath :: string
  operator :: string
  policy_value :: string
  action :: policy_action
  description :: string

record tool =
  tool_id :: string
  tool_agentId :: string
  registered_name :: string

record chat_interaction =
  chatId :: string
  message_content :: message
  trusted :: bool
  blocked :: bool
  reason :: string

record trust_store =
  chats :: "(string \<times> string) list"
  tools :: "tool list"
  policies :: "trusted_data_policy list"
  agentPolicies :: "(string \<times> string) list"
  interactions :: "chat_interaction list"

text \<open>
  Modelled from the spec: section 4.2 step 1, "walking back through previously persisted
  interactions of the same chat to find the assistant message carrying the matching
  \<^verbatim>\<open>tool_call_id\<close>; from that it obtains the tool name".
\<close>

definition carries :: "string \<Rightarrow> chat_interaction \<Rightarrow> bool" where
  "carries callId row =
     (case message_content row of
        AssistantMessage text calls \<Rightarrow> callId \<in> fst ` set calls
      | _ \<Rightarrow> False)"

definition resolveToolName :: "trust_store \<Rightarrow> string \<Rightarrow> string \<Rightarrow> string option" where
  "resolveToolName s chat callId =
     (case find (carries callId) (rev (filter (\<lambda>row. chatId row = chat) (interactions s))) of
        None \<Rightarrow> None
      | Some row \<Rightarrow>
          (case message_content row of
             AssistantMessage text calls \<Rightarrow> map_of calls callId
           | _ \<Rightarrow> None))"

text \<open>
  Modelled from the spec: section 4.2 step 1, "from the agent's tool set it obtains the
  \<^verbatim>\<open>toolId\<close>". The agent is the agent of the chat.
\<close>

definition resolveTool :: "trust_store \<Rightarrow> string \<Rightarrow> string \<Rightarrow> tool option" where
  "resolveTool s chat callId =
     (case resolveToolName s chat callId of
        None \<Rightarrow> None
      | Some calledName \<Rightarrow>
          (case map_of (chats s) chat of
             None \<Rightarrow> None
           | Some agentId \<Rightarrow>
               find (\<lambda>t. tool_agentId t = agentId \<and> registered_name t = calledName) (tools s)))"

text \<open>
  Modelled from the spec: section 4.2 step 3, "all trusted-data policies bound to the
  agent and to this \<^verbatim>\<open>toolId\<close>".
\<close>

definition policiesFor :: "trust_store \<Rightarrow> tool \<Rightarrow> trusted_data_policy list" where
  "policiesFor s t =
     filter (\<lambda>p. policy_toolId p = tool_id t \<and> (tool_agentId t, policy_id p) \<in> set (agentPolicies s))
       (policies s)"

text \<open>
  Modelled from the spec: section 4.2 steps 4 to 6. The attribute evaluator of section
  4.1 (does a policy match the tool result) is the parameter \<open>matches\<close>. The result is
  \<open>(trusted, blocked, reason)\<close>.
\<close>

definition classify ::
    "(trusted_data_policy \<Rightarrow> string \<Rightarrow> bool) \<Rightarrow> trusted_data_policy list \<Rightarrow> string
      \<Rightarrow> bool \<times> bool \<times> string" where
  "classify matches ps toolResult =
     (case find (\<lambda>p. action p = Block_always \<and> matches p toolResult) ps of
        Some p \<Rightarrow> (False, True, description p)
      | None \<Rightarrow>
          (case find (\<lambda>p. action p = Mark_as_trusted \<and> matches p toolResult) ps of
             Some p \<Rightarrow> (True, False, description p)
           | None \<Rightarrow> (False, False, ''content does not match any trust policies'')))"

text \<open>
  Modelled from the spec: section 4.2, what is persisted for one message. "Non-tool
  messages are ignored. Messages with no prior assistant tool_call are ignored".
\<close>

definition persistedFor ::
    "(trusted_data_policy \<Rightarrow> string \<Rightarrow> bool) \<Rightarrow> trust_store \<Rightarrow> string \<Rightarrow> message
      \<Rightarrow> chat_interaction list" where
  "persistedFor matches s chat m =
     (case m of
        ToolMessage callId toolResult \<Rightarrow>
          (case resolveTool s chat callId of
             None \<Rightarrow> []
           | Some t \<Rightarrow>
               (case classify matches (policiesFor s t) toolResult of
                  (tr, bl, why) \<Rightarrow>
                    [\<lparr>chatId = chat, message_content = m, trusted = tr, blocked = bl,
                      reason = why\<rparr>]))
      | _ \<Rightarrow> [])"

text \<open>
  Modelled from the spec: the entry point \<^verbatim>\<open>evaluatePolicies(messages, chatId)\<close> of section
  4.2, which "consumes a sequence of LLM messages" one after the other.
\<close>

fun evaluatePolicies_trustedData ::
    "(trusted_data_policy \<Rightarrow> string \<Rightarrow> bool) \<Rightarrow> message list \<Rightarrow> string \<Rightarrow> trust_store
      \<Rightarrow> trust_store" where
  "evaluatePolicies_trustedData matches [] chat s = s"
| "evaluatePolicies_trustedData matches (m # ms) chat s =
     evaluatePolicies_trustedData matches ms chat
       (s\<lparr>interactions := interactions s @ persistedFor matches s chat m\<rparr>)"

text \<open>
  Modelled from the spec: section 4.2, "\<^verbatim>\<open>filterOutBlockedData(chatId, messages)\<close> returns
  the subset of \<^verbatim>\<open>messages\<close> omitting every \<^verbatim>\<open>tool\<close> message whose prior persisted
  interaction had \<^verbatim>\<open>blocked=true\<close>. Non-tool messages pass through unchanged." An
  interaction belongs to a tool message by its \<^verbatim>\<open>tool_call_id\<close> within the chat.
\<close>

definition blockedCall :: "trust_store \<Rightarrow> string \<Rightarrow> string \<Rightarrow> bool" where
  "blockedCall s chat callId =
     list_ex (\<lambda>row. chatId row = chat \<and> blocked row \<and>
                (case message_content row of
                   ToolMessage i toolResult \<Rightarrow> i = callId
                 | _ \<Rightarrow> False))
       (interactions s)"

definition filterOutBlockedData :: "string \<Rightarrow> message list \<Rightarrow> trust_store \<Rightarrow> message list" where
  "filterOutBlockedData chat messages s =
     filter (\<lambda>m. case m of
                   ToolMessage callId toolResult \<Rightarrow> \<not> blockedCall s chat callId
                 | _ \<Rightarrow> True) messages"

definition isToolMessage :: "message \<Rightarrow> bool" where
  "isToolMessage m = (case m of ToolMessage callId toolResult \<Rightarrow> True | _ \<Rightarrow> False)"

section \<open>Example data\<close>

text \<open>Two placements of an updated row: where the old version stood, and after all rows.\<close>

definition inPlace :: "string \<Rightarrow> limit list \<Rightarrow> nat" where
  "inPlace i rows = length (takeWhile (\<lambda>l. limit_id l \<noteq> i) rows)"

definition atEnd :: "string \<Rightarrow> limit list \<Rightarrow> nat" where
  "atEnd i rows = length rows"

definition exampleLimit ::
    "string \<Rightarrow> entity_type \<Rightarrow> string \<Rightarrow> string option \<Rightarrow> rat \<Rightarrow> int \<Rightarrow> int \<Rightarrow> int option \<Rightarrow> limit" where
  "exampleLimit i et eid m v tin tout lc =
     \<lparr>limit_id = i, entityType = et, entityId = eid, limitType = ''token_cost'',
      model = m, limitValue = v, currentUsageTokensIn = tin, currentUsageTokensOut = tout,
      lastCleanup = lc, updatedAt = 0\<rparr>"

definition exampleStore :: "limit list \<Rightarrow> (query \<Rightarrow> bool) \<Rightarrow> database" where
  "exampleStore ls f =
     \<lparr>limitsTable = ls,
      teamsTable =
        [\<lparr>team_id = ''team-1'', team_organizationId = ''org-1''\<rparr>,
         \<lparr>team_id = ''team-2'', team_organizationId = ''org-2''\<rparr>],
      organizationsTable =
        [\<lparr>organization_id = ''org-1'', limitCleanupInterval = Some ''1h''\<rparr>,
         \<lparr>organization_id = ''org-2'', limitCleanupInterval = Some ''24h''\<rparr>],
      agentTeamTable = [(''agent-1'', ''team-1''), (''agent-3'', ''team-1''), (''agent-3'', ''team-2'')],
      tokenPricesTable =
        [\<lparr>price_model = ''gpt-4'', pricePerMillionInput = 30, pricePerMillionOutput = 60\<rparr>,
         \<lparr>price_model = ''gpt-4o-mini'', pricePerMillionInput = 15 / 100,
           pricePerMillionOutput = 15 / 100\<rparr>],
      failing = f,
      slot = inPlace\<rparr>"

definition threeLimits :: "limit list" where
  "threeLimits =
     [exampleLimit ''L1'' Agent ''agent-1'' None 1000 600 500 None,
      exampleLimit ''L2'' Team ''team-1'' None 1000 900 900 None,
      exampleLimit ''L3'' Organization ''org-1'' None 1000 5000 5000 (Some 4000000)]"

text \<open>The clock of a call whose \<open>k\<close>-th reading is \<open>t + k\<close>.\<close>

definition clockFrom :: "int \<Rightarrow> nat \<Rightarrow> int" where
  "clockFrom t k = t + int k"

text \<open>
  Limits of an organization whose cleanup interval is 24 hours, for a sweep at
  100000000: one cleaned long ago, one never cleaned, one cleaned two hours ago.
\<close>

definition sweepLimits :: "limit list" where
  "sweepLimits =
     [exampleLimit ''L1'' Agent ''agent-1'' None 1000 600 500 None,
      exampleLimit ''L4'' Organization ''org-2'' None 1000 5000 5000 (Some 13000000),
      exampleLimit ''L5'' Organization ''org-2'' None 1000 70 7 None,
      exampleLimit ''L6'' Organization ''org-2'' None 1000 9 9 (Some 92800000),
      exampleLimit ''L3'' Organization ''org-1'' None 1000 5000 5000 None]"

text \<open>
  An agent of two teams whose own limits hold; the second limit of its second team is
  reached, and so is the limit of its organization.
\<close>

definition priorityLimits :: "limit list" where
  "priorityLimits =
     [exampleLimit ''A1'' Agent ''agent-3'' None 1000 100 100 None,
      exampleLimit ''A2'' Agent ''agent-3'' None 5000 100 200 None,
      exampleLimit ''T1'' Team ''team-1'' None 1000 100 100 None,
      exampleLimit ''T2'' Team ''team-2'' None 1000 10 10 None,
      exampleLimit ''T3'' Team ''team-2'' None 1000 900 900 None,
      exampleLimit ''O1'' Organization ''org-1'' None 100 900 900 (Some 4000000)]"

text \<open>
  Two organizations with a limit: the first is due for a reset, the second has reached
  its limit.
\<close>

definition fallbackLimits :: "limit list" where
  "fallbackLimits =
     [exampleLimit ''O1'' Organization ''org-1'' None 1000 5000 5000 None,
      exampleLimit ''O2'' Organization ''org-2'' None 1000 700 700 (Some 4000000)]"
definition greeting :: createPromptInput where
  "greeting = \<lparr>input_organizationId = ''org-1'', input_name = ''greeting'',
     input_type = System, input_content = ''Hello'', input_createdBy = ''user-1''\<rparr>"

definition newContent :: "string \<Rightarrow> updatePromptInput" where
  "newContent c = \<lparr>update_name = None, update_content = Some c, update_createdBy = ''user-1''\<rparr>"

definition exampleEvents :: "stream_event list" where
  "exampleEvents =
     [MessageStart ''msg_1'' (Some (12, 7)),
      ContentBlockDelta 0 (TextDelta ''Let me check.''),
      ContentBlockStart 1
        (ToolUse \<lparr>tool_use_id = ''toolu_1'', tool_use_name = ''get_emails'', tool_use_input = []\<rparr>),
      ContentBlockDelta 1 (InputJsonDelta ''{''),
      ContentBlockDelta 1 (InputJsonDelta ''}''),
      OtherEvent ''content_block_stop'']"

definition exampleServices :: "(string \<times> string) option \<Rightarrow> collaborators" where
  "exampleServices verdict =
     \<lparr>findById = (\<lambda>i. Inr (i = ''agent-1'')),
      getAgentIdFromRequest = (\<lambda>ua. Inr ''agent-1''),
      persistTools = (\<lambda>ts a. Inr ()),
      getAssignedMCPTools = (\<lambda>a. Inr []),
      toCommonFormat = (\<lambda>ms. ms),
      evaluateIfContextIsTrusted = (\<lambda>ms a k. ([], Inr ([], True))),
      applyUpdates = (\<lambda>ms u. ms),
      messages_stream = (\<lambda>r. (exampleEvents, None)),
      messages_create =
        (\<lambda>r. Inr \<lparr>response_id = ''msg_1'', response_content = [Text ''Hello''],
                   response_model = request_model r, response_stop_reason = ''end_turn'',
                   response_usage = (12, 7)\<rparr>),
      appendPartialJson = (\<lambda>a b. a @ b),
      parseInput = (\<lambda>a. a),
      evaluatePolicies = (\<lambda>calls a t. Inr verdict),
      toolCallsToCommon = (\<lambda>ts. map tool_use_id ts),
      executeMcpToolCalls = (\<lambda>cs a. Inr []),
      toolResultsToMessages = (\<lambda>rs. rs),
      assistantMessage = (\<lambda>bs. ''assistant''),
      InteractionModel_create = (\<lambda>i. Inr ())\<rparr>"

definition exampleRequest :: "bool \<Rightarrow> messages_request" where
  "exampleRequest s =
     \<lparr>request_model = ''claude-3-5-sonnet'', request_messages = [''Read my inbox''],
      request_tools = None, request_stream = s\<rparr>"

definition exampleHeaders :: messages_headers where
  "exampleHeaders = \<lparr>user_agent = Some ''curl'', x_api_key = ''sk-test''\<rparr>"


text \<open>A stream with an \<^verbatim>\<open>input_json_delta\<close> and no \<^verbatim>\<open>tool_use\<close> block before it.\<close>

definition orphanEvents :: "stream_event list" where
  "orphanEvents =
     [MessageStart ''msg_2'' (Some (12, 7)),
      ContentBlockDelta 0 (InputJsonDelta ''{}'')]"

definition orphanServices :: collaborators where
  "orphanServices = (exampleServices None)\<lparr>messages_stream := (\<lambda>r. (orphanEvents, None))\<rparr>"
text \<open>The set-up of trusted-data.test.ts: one agent, one chat, the tool \<^verbatim>\<open>get_emails\<close>.\<close>

definition exampleTrustStore ::
    "trusted_data_policy list \<Rightarrow> chat_interaction list \<Rightarrow> trust_store" where
  "exampleTrustStore ps rows =
     \<lparr>chats = [(''chat-1'', ''agent-1'')],
      tools = [\<lparr>tool_id = ''tool-1'', tool_agentId = ''agent-1'', registered_name = ''get_emails''\<rparr>],
      policies = ps,
      agentPolicies = map (\<lambda>p. (''agent-1'', policy_id p)) ps,
      interactions = rows\<rparr>"

definition examplePolicy :: "string \<Rightarrow> string \<Rightarrow> policy_action \<Rightarrow> string \<Rightarrow> trusted_data_policy" where
  "examplePolicy i v a d =
     \<lparr>policy_id = i, policy_toolId = ''tool-1'', attributePath = ''source'',
      operator = ''equal'', policy_value = v, action = a, description = d\<rparr>"

definition assistantCall :: "string \<Rightarrow> chat_interaction" where
  "assistantCall callId =
     \<lparr>chatId = ''chat-1'', message_content = AssistantMessage None [(callId, ''get_emails'')],
      trusted = True, blocked = False, reason = []\<rparr>"

definition toolRow :: "string \<Rightarrow> string \<Rightarrow> bool \<Rightarrow> bool \<Rightarrow> chat_interaction" where
  "toolRow callId toolResult tr bl =
     \<lparr>chatId = ''chat-1'', message_content = ToolMessage callId toolResult,
      trusted = tr, blocked = bl, reason = []\<rparr>"

text \<open>In the examples a policy matches a tool result that equals its value.\<close>

definition equalsValue :: "trusted_data_policy \<Rightarrow> string \<Rightarrow> bool" where
  "equalsValue p toolResult = (toolResult = policy_value p)"


section \<open>Verification: quota enforcement\<close>

lemmas example_defs = exampleLimit_def exampleStore_def threeLimits_def inPlace_def atEnd_def
  clockFrom_def sweepLimits_def priorityLimits_def fallbackLimits_def

lemmas eval_defs = checkLimitsBeforeRequest_def checkLimitsBeforeRequest_try_def
  getTeamsForAgent_def run_query_def checkEntityLimits_def findLimitsForValidation_def
  organizationIdForCleanup_def selectOrganizationLimits_def checkTeamsAndOrganization_def
  checkLimit_def comparison_def selectTeams_def cleanupLimitsIfNeeded_def sweptStore_def
  selectOrganization_def cleanupIntervalOf_def intervalMillis_def findLimitsNeedingCleanup_def
  needsCleanup_def resetLimitUsage_def resetRow_def findByModel_def greaterOrEqual_def

subsection \<open>Evaluation of the powers of two\<close>

lemma pow2_code [code]:
  "pow2 e = (if 0 \<le> e then efficient_funpow (*) 1 2 (nat e)
             else 1 / efficient_funpow (*) 1 2 (nat (- e)))"
  by (simp add: pow2_def power_by_squaring)

subsection \<open>The rounding of the number model\<close>

text \<open>
  \<^term>\<open>floorLog2\<close> is the binary exponent of a positive rational, so \<^term>\<open>binary64\<close> rounds to
  a multiple of the power of two that is 52 places below the leading bit (or of \<open>pow2 (- 1074)\<close>, in
  the subnormal range): the result has a significand of at most 53 bits and lies within half
  a unit in the last place of the argument, and the integers up to \<open>2 ^ 53\<close> in absolute value,
  the range of the usage counters, are represented exactly.
\<close>

lemma pow2_power_int: "pow2 e = power_int 2 e"
  by (simp add: pow2_def power_int_def power_one_over)

lemma pow2_pos [simp]: "0 < pow2 e"
  by (simp add: pow2_power_int)

lemma pow2_nonzero [simp]: "pow2 e \<noteq> 0"
  by (simp add: pow2_power_int)

lemma pow2_nonneg [simp]: "0 \<le> pow2 e"
  by (simp add: pow2_power_int)

lemma pow2_abs [simp]: "\<bar>pow2 e\<bar> = pow2 e"
  by (simp add: pow2_power_int)

lemma pow2_add: "pow2 (a + b) = pow2 a * pow2 b"
  by (simp add: pow2_power_int power_int_add)

lemma pow2_strict_mono: "a < b \<Longrightarrow> pow2 a < pow2 b"
  by (simp add: pow2_power_int power_int_strict_increasing)

lemma pow2_mono: "a \<le> b \<Longrightarrow> pow2 a \<le> pow2 b"
  by (simp add: pow2_power_int power_int_increasing)

lemma pow2_nat: "pow2 (int n) = 2 ^ n"
  by (simp add: pow2_def)

lemma floorLog2_bounds:
  assumes "0 < x"
  shows "pow2 (floorLog2 x) \<le> x \<and> x < pow2 (floorLog2 x + 1)"
proof -
  obtain p q where pq: "quotient_of x = (p, q)" by (cases "quotient_of x")
  have q: "0 < q" using pq by (rule quotient_of_denom_pos)
  have x: "x = of_int p / of_int q" using pq by (rule quotient_of_div)
  have p: "0 < p" using assms q unfolding x by (simp add: zero_less_divide_iff)
  let ?d = "bitlen p - bitlen q"
  from bitlen_bounds [OF p] have p1: "2 ^ nat (bitlen p - 1) \<le> p" and p2: "p < 2 ^ nat (bitlen p)"
    by simp_all
  from bitlen_bounds [OF q] have q1: "2 ^ nat (bitlen q - 1) \<le> q" and q2: "q < 2 ^ nat (bitlen q)"
    by simp_all
  have bp: "1 \<le> bitlen p" using p by (simp add: bitlen_alt_def)
  have bq: "1 \<le> bitlen q" using q by (simp add: bitlen_alt_def)
  have P1: "pow2 (bitlen p - 1) \<le> of_int p"
  proof -
    have "pow2 (bitlen p - 1) = 2 ^ nat (bitlen p - 1)" using bp by (simp add: pow2_def)
    also have "\<dots> = of_int (2 ^ nat (bitlen p - 1))" by simp
    also have "\<dots> \<le> of_int p" using p1 by (simp only: of_int_le_iff)
    finally show ?thesis .
  qed
  have P2: "of_int p < pow2 (bitlen p)"
  proof -
    have "(of_int p :: rat) < of_int (2 ^ nat (bitlen p))" using p2 by (simp only: of_int_less_iff)
    also have "\<dots> = pow2 (bitlen p)" using bp by (simp add: pow2_def)
    finally show ?thesis .
  qed
  have Q1: "pow2 (bitlen q - 1) \<le> of_int q"
  proof -
    have "pow2 (bitlen q - 1) = 2 ^ nat (bitlen q - 1)" using bq by (simp add: pow2_def)
    also have "\<dots> = of_int (2 ^ nat (bitlen q - 1))" by simp
    also have "\<dots> \<le> of_int q" using q1 by (simp only: of_int_le_iff)
    finally show ?thesis .
  qed
  have Q2: "of_int q < pow2 (bitlen q)"
  proof -
    have "(of_int q :: rat) < of_int (2 ^ nat (bitlen q))" using q2 by (simp only: of_int_less_iff)
    also have "\<dots> = pow2 (bitlen q)" using bq by (simp add: pow2_def)
    finally show ?thesis .
  qed
  have upper: "x < pow2 (?d + 1)"
  proof -
    have "of_int p < pow2 (bitlen p)" by (rule P2)
    also have "\<dots> = pow2 (?d + 1) * pow2 (bitlen q - 1)"
      by (simp add: pow2_add [symmetric])
    also have "\<dots> \<le> pow2 (?d + 1) * of_int q"
      using Q1 by (simp add: mult_left_mono)
    finally show ?thesis using q unfolding x by (simp add: divide_less_eq)
  qed
  have lower: "pow2 (?d - 1) < x"
  proof -
    have "pow2 (?d - 1) * of_int q < pow2 (?d - 1) * pow2 (bitlen q)"
      using Q2 by (simp add: mult_strict_left_mono)
    also have "\<dots> = pow2 (bitlen p - 1)" by (simp add: pow2_add [symmetric])
    also have "\<dots> \<le> of_int p" by (rule P1)
    finally show ?thesis using q unfolding x by (simp add: less_divide_eq)
  qed
  show ?thesis
  proof (cases "pow2 ?d \<le> x")
    case True
    then have "floorLog2 x = ?d" by (simp add: floorLog2_def pq Let_def)
    with True upper show ?thesis by simp
  next
    case False
    then have "floorLog2 x = ?d - 1" by (simp add: floorLog2_def pq Let_def)
    with False lower show ?thesis by simp
  qed
qed

lemma floorLog2_unique:
  assumes "pow2 e \<le> x" and "x < pow2 (e + 1)"
  shows "floorLog2 x = e"
proof -
  have pos: "0 < x" using assms(1) pow2_pos [of e] by linarith
  note b = floorLog2_bounds [OF pos]
  have "\<not> floorLog2 x < e"
  proof
    assume "floorLog2 x < e"
    then have "pow2 (floorLog2 x + 1) \<le> pow2 e" by (intro pow2_mono) simp
    with b assms(1) show False by linarith
  qed
  moreover have "\<not> e < floorLog2 x"
  proof
    assume "e < floorLog2 x"
    then have "pow2 (e + 1) \<le> pow2 (floorLog2 x)" by (intro pow2_mono) simp
    with b assms(2) show False by linarith
  qed
  ultimately show ?thesis by simp
qed

lemma roundHalfEven_error: "\<bar>of_int (roundHalfEven m) - m\<bar> \<le> 1 / 2"
proof -
  have "of_int \<lfloor>m\<rfloor> \<le> m" "m < of_int \<lfloor>m\<rfloor> + 1" by linarith+
  then show ?thesis by (auto simp: roundHalfEven_def Let_def)
qed

lemma roundHalfEven_int [simp]: "roundHalfEven (of_int n) = n"
  by (simp add: roundHalfEven_def)

lemma binary64_nearest:
  assumes x: "x \<noteq> 0" and r: "binary64 x = Num r"
  shows "\<exists>n. r = of_int n * pow2 (max (floorLog2 \<bar>x\<bar> - 52) (- 1074))
           \<and> \<bar>n\<bar> \<le> 2 ^ 53
           \<and> \<bar>r - x\<bar> \<le> pow2 (max (floorLog2 \<bar>x\<bar> - 52) (- 1074)) / 2"
proof -
  let ?q = "max (floorLog2 \<bar>x\<bar> - 52) (- 1074)"
  let ?m = "x / pow2 ?q"
  let ?n = "roundHalfEven ?m"
  have r': "r = of_int ?n * pow2 ?q"
    using x r by (simp add: binary64_def Let_def split: if_splits)
  have pos: "0 < \<bar>x\<bar>" using x by simp
  have e: "\<bar>of_int ?n - ?m\<bar> \<le> 1 / 2" by (rule roundHalfEven_error)
  have "\<bar>r - x\<bar> = \<bar>of_int ?n - ?m\<bar> * pow2 ?q"
  proof -
    have "r - x = (of_int ?n - ?m) * pow2 ?q"
      using pow2_pos [of ?q] by (simp add: r' algebra_simps)
    then show ?thesis using pow2_pos [of ?q] by (simp add: abs_mult)
  qed
  also have "\<dots> \<le> (1 / 2) * pow2 ?q"
    using e pow2_pos [of ?q] by (intro mult_right_mono) simp_all
  finally have err: "\<bar>r - x\<bar> \<le> pow2 ?q / 2" by simp
  have "\<bar>x\<bar> < pow2 (floorLog2 \<bar>x\<bar> + 1)" using floorLog2_bounds [OF pos] by simp
  also have "\<dots> = pow2 ((floorLog2 \<bar>x\<bar> - 52) + 53)"
    by (rule arg_cong [where f = pow2]) simp
  also have "\<dots> = pow2 (floorLog2 \<bar>x\<bar> - 52) * pow2 53"
    by (rule pow2_add)
  also have "\<dots> \<le> pow2 ?q * pow2 53"
    by (intro mult_right_mono pow2_mono) simp_all
  finally have "\<bar>x\<bar> / pow2 ?q < pow2 53"
    using pow2_pos [of ?q] by (simp add: divide_less_eq mult.commute)
  then have m: "\<bar>?m\<bar> < 2 ^ 53" using pow2_pos [of ?q] pow2_nat [of 53] by (simp add: abs_divide)
  have "\<bar>rat_of_int ?n\<bar> \<le> \<bar>of_int ?n - ?m\<bar> + \<bar>?m\<bar>" by linarith
  also have "\<dots> < 1 / 2 + 2 ^ 53" using e m by linarith
  finally have "rat_of_int \<bar>?n\<bar> < of_int (2 ^ 53) + 1 / 2" by simp
  then have "rat_of_int \<bar>?n\<bar> < of_int (2 ^ 53 + 1)" by simp
  then have "\<bar>?n\<bar> < 2 ^ 53 + 1" by (simp only: of_int_less_iff)
  then have n: "\<bar>?n\<bar> \<le> 2 ^ 53" by simp
  from r' n err show ?thesis by blast
qed

lemma pow2_minus: "pow2 (- e) = 1 / pow2 e"
  by (simp add: pow2_power_int power_int_minus inverse_eq_divide)

lemma binary64_exact:
  assumes n: "\<bar>n\<bar> \<le> 2 ^ 53"
  shows "binary64 (of_int n) = Num (of_int n)"
proof (cases "n = 0")
  case True
  then show ?thesis by (simp add: binary64_def)
next
  case False
  let ?x = "rat_of_int n"
  let ?e = "floorLog2 \<bar>?x\<bar>"
  have one: "1 \<le> \<bar>?x\<bar>"
  proof -
    have "1 \<le> \<bar>n\<bar>" using False by simp
    then have "rat_of_int 1 \<le> rat_of_int \<bar>n\<bar>" by (simp only: of_int_le_iff)
    then show ?thesis by simp
  qed
  have top: "\<bar>?x\<bar> \<le> pow2 53"
  proof -
    have "rat_of_int \<bar>n\<bar> \<le> rat_of_int (2 ^ 53)" using n by (simp only: of_int_le_iff)
    then show ?thesis using pow2_nat [of 53] by simp
  qed
  have pos: "0 < \<bar>?x\<bar>" using one by linarith
  note b = floorLog2_bounds [OF pos]
  have lo: "0 \<le> ?e"
  proof (rule ccontr)
    assume "\<not> 0 \<le> ?e"
    then have "pow2 (?e + 1) \<le> pow2 0" by (intro pow2_mono) simp
    with b one show False by (simp add: pow2_def)
  qed
  have hi: "?e \<le> 53"
  proof (rule ccontr)
    assume "\<not> ?e \<le> 53"
    then have "pow2 54 \<le> pow2 ?e" by (intro pow2_mono) simp
    moreover have "pow2 53 < pow2 54" by (intro pow2_strict_mono) simp
    ultimately show False using b top by linarith
  qed
  let ?q = "max (?e - 52) (- 1074)"
  have q: "?q = ?e - 52" using lo by simp
  have whole: "\<exists>k. ?x / pow2 (?e - 52) = of_int k"
  proof (cases "?e \<le> 52")
    case True
    have "?x / pow2 (?e - 52) = ?x * pow2 (52 - ?e)"
      using pow2_minus [of "?e - 52"] by simp
    also have "\<dots> = ?x * 2 ^ nat (52 - ?e)" using True by (simp add: pow2_def)
    also have "\<dots> = of_int (n * 2 ^ nat (52 - ?e))" by simp
    finally show ?thesis by blast
  next
    case False
    with hi have e: "?e = 53" by simp
    have "pow2 53 \<le> \<bar>?x\<bar>" using b e by simp
    with top have "\<bar>?x\<bar> = pow2 53" by simp
    then have "rat_of_int \<bar>n\<bar> = rat_of_int (2 ^ 53)" using pow2_nat [of 53] by simp
    then have "\<bar>n\<bar> = 2 ^ 53" by (simp only: of_int_eq_iff)
    then have "n = 2 * 2 ^ 52 \<or> n = 2 * (- (2 ^ 52))" by auto
    then have "?x / pow2 (?e - 52) = of_int (2 ^ 52) \<or> ?x / pow2 (?e - 52) = of_int (- (2 ^ 52))"
      unfolding e by (auto simp: pow2_def)
    then show ?thesis by blast
  qed
  then obtain k where k: "?x / pow2 (?e - 52) = of_int k" by blast
  have r: "of_int (roundHalfEven (?x / pow2 ?q)) * pow2 ?q = ?x"
    unfolding q k roundHalfEven_int using k pow2_pos [of "?e - 52"]
    by (simp add: field_simps)
  have x0: "?x \<noteq> 0" using False by simp
  have small: "\<not> 1024 \<le> ?e" using hi by simp
  show ?thesis
    unfolding binary64_def Let_def r using x0 small by simp
qed

subsection \<open>Resets\<close>

lemma resetRow_fields [simp]:
  "limit_id (resetRow now l) = limit_id l"
  "entityType (resetRow now l) = entityType l"
  "entityId (resetRow now l) = entityId l"
  "limitType (resetRow now l) = limitType l"
  "model (resetRow now l) = model l"
  "limitValue (resetRow now l) = limitValue l"
  "currentUsageTokensIn (resetRow now l) = 0"
  "currentUsageTokensOut (resetRow now l) = 0"
  "lastCleanup (resetRow now l) = Some now"
  "updatedAt (resetRow now l) = now"
  by (simp_all add: resetRow_def)

lemma resetRow_twice [simp]: "resetRow later (resetRow earlier l) = resetRow later l"
  by (simp add: resetRow_def)

text \<open>The rows of a table in which the rows with id \<open>i\<close> have been reset, in any order.\<close>

lemma mset_partition_reset:
  "mset (map (resetRow now) (filter (\<lambda>l. limit_id l = i) rows))
     + mset (filter (\<lambda>l. limit_id l \<noteq> i) rows)
   = image_mset (\<lambda>l. if limit_id l = i then resetRow now l else l) (mset rows)"
  by (induction rows) simp_all

lemma mset_placed:
  "mset (take k others @ updated @ drop k others) = mset updated + mset others"
proof -
  have "mset (take k others) + mset (drop k others) = mset others"
    by (metis append_take_drop_id mset_append)
  then have "mset others = mset (take k others) + mset (drop k others)" by simp
  then show ?thesis by (simp add: ac_simps)
qed

lemma resetLimitUsage_rows:
  assumes "\<not> failing db (ResetLimitUsage i)"
  shows "\<exists>r rows. resetLimitUsage now i db = Inr (r, db\<lparr>limitsTable := rows\<rparr>)
           \<and> mset rows
               = image_mset (\<lambda>l. if limit_id l = i then resetRow now l else l)
                   (mset (limitsTable db))"
proof -
  let ?updated = "map (resetRow now) (filter (\<lambda>l. limit_id l = i) (limitsTable db))"
  let ?others = "filter (\<lambda>l. limit_id l \<noteq> i) (limitsTable db)"
  let ?k = "slot db i (limitsTable db)"
  have "resetLimitUsage now i db
      = Inr (case ?updated of [] \<Rightarrow> None | r # rest \<Rightarrow> Some r,
             db\<lparr>limitsTable := take ?k ?others @ ?updated @ drop ?k ?others\<rparr>)"
    using assms by (simp add: resetLimitUsage_def Let_def)
  moreover have "mset (take ?k ?others @ ?updated @ drop ?k ?others)
      = image_mset (\<lambda>l. if limit_id l = i then resetRow now l else l) (mset (limitsTable db))"
    unfolding mset_placed by (rule mset_partition_reset)
  ultimately show ?thesis by blast
qed





subsection \<open>The reset loop\<close>


lemma distinct_row_alone:
  assumes d: "distinct (map limit_id rows)" and e: "e \<in> set rows"
  shows "\<exists>M. mset rows = add_mset e M \<and> (\<forall>l \<in># M. limit_id l \<noteq> limit_id e)"
proof -
  from e obtain xs ys where rows: "rows = xs @ e # ys" by (auto simp: in_set_conv_decomp)
  have "\<forall>l \<in> set (xs @ ys). limit_id l \<noteq> limit_id e"
    using d unfolding rows by (force simp: image_iff)
  then have "\<forall>l \<in># mset (xs @ ys). limit_id l \<noteq> limit_id e" by simp
  moreover have "mset rows = add_mset e (mset (xs @ ys))" by (simp add: rows)
  ultimately show ?thesis by blast
qed

lemma image_reset_alone:
  assumes "\<forall>l \<in># M. limit_id l \<noteq> i"
  shows "image_mset (\<lambda>l. if limit_id l = i then resetRow now l else l) M = M"
  using assms by (induction M) simp_all

lemma filter_ids_alone:
  assumes "\<forall>l \<in># M. limit_id l \<noteq> i"
  shows "filter_mset (\<lambda>l. limit_id l \<notin> insert i S) M = filter_mset (\<lambda>l. limit_id l \<notin> S) M"
  using assms by (induction M) simp_all

text \<open>
  When no reset throws and ids are unique, the loop leaves the rows it was not given as
  they were and resets each row it was given, with the reading of the clock of its turn.
\<close>

lemma resetAll_complete:
  assumes "distinct (map limit_id (limitsTable db))"
      and "set ls \<subseteq> set (limitsTable db)"
      and "distinct (map limit_id ls)"
      and "\<forall>q. \<not> failing db q"
  shows "mset (limitsTable (resetAll clock k ls db))
       = mset (map (\<lambda>(j, l). resetRow (clock j) l) (enumerate k ls))
         + filter_mset (\<lambda>l. limit_id l \<notin> limit_id ` set ls) (mset (limitsTable db))"
  using assms
proof (induction ls arbitrary: k db)
  case Nil
  show ?case by simp
next
  case (Cons e ls)
  let ?i = "limit_id e"
  let ?f = "\<lambda>l. if limit_id l = ?i then resetRow (clock k) l else l"
  from Cons.prems have nf: "\<not> failing db (ResetLimitUsage ?i)" by simp
  from resetLimitUsage_rows [OF nf, of "clock k"] obtain r rows1
    where step: "resetLimitUsage (clock k) ?i db = Inr (r, db\<lparr>limitsTable := rows1\<rparr>)"
      and rows1: "mset rows1 = image_mset ?f (mset (limitsTable db))"
    by blast
  let ?db1 = "db\<lparr>limitsTable := rows1\<rparr>"
  from Cons.prems have e: "e \<in> set (limitsTable db)" by simp
  from distinct_row_alone [OF Cons.prems(1) e] obtain M
    where M: "mset (limitsTable db) = add_mset e M"
      and alone: "\<forall>l \<in># M. limit_id l \<noteq> ?i"
    by blast
  have rows1': "mset rows1 = add_mset (resetRow (clock k) e) M"
    unfolding rows1 M by (simp add: image_reset_alone [OF alone])
  have ids: "mset (map limit_id rows1) = mset (map limit_id (limitsTable db))"
  proof -
    have "mset (map limit_id rows1) = image_mset limit_id (mset rows1)" by simp
    also have "\<dots> = image_mset limit_id (mset (limitsTable db))"
      unfolding rows1' M by simp
    finally show ?thesis by simp
  qed
  have d1: "distinct (map limit_id (limitsTable ?db1))"
    using Cons.prems(1) mset_eq_imp_distinct_iff [OF ids] by simp
  have notin: "?i \<notin> limit_id ` set ls" using Cons.prems(3) by auto
  have sub1: "set ls \<subseteq> set (limitsTable ?db1)"
  proof
    fix l assume l: "l \<in> set ls"
    with Cons.prems(2) have "l \<in># mset (limitsTable db)" by auto
    moreover from l notin have "l \<noteq> e" by auto
    ultimately have "l \<in># M" unfolding M by simp
    then have "l \<in># mset rows1" unfolding rows1' by simp
    then show "l \<in> set (limitsTable ?db1)" by simp
  qed
  have d2: "distinct (map limit_id ls)" using Cons.prems(3) by simp
  have nq1: "\<forall>q. \<not> failing ?db1 q" using Cons.prems(4) by simp
  have "mset (limitsTable (resetAll clock k (e # ls) db))
      = mset (limitsTable (resetAll clock (Suc k) ls ?db1))"
    using step by simp
  also have "\<dots> = mset (map (\<lambda>(j, l). resetRow (clock j) l) (enumerate (Suc k) ls))
         + filter_mset (\<lambda>l. limit_id l \<notin> limit_id ` set ls) (mset (limitsTable ?db1))"
    by (rule Cons.IH [OF d1 sub1 d2 nq1])
  also have "filter_mset (\<lambda>l. limit_id l \<notin> limit_id ` set ls) (mset (limitsTable ?db1))
      = add_mset (resetRow (clock k) e) (filter_mset (\<lambda>l. limit_id l \<notin> limit_id ` set ls) M)"
    using notin by (simp add: rows1')
  also have "filter_mset (\<lambda>l. limit_id l \<notin> limit_id ` set ls) M
      = filter_mset (\<lambda>l. limit_id l \<notin> limit_id ` set (e # ls)) (mset (limitsTable db))"
    unfolding M using filter_ids_alone [OF alone, of "limit_id ` set ls"] by simp
  finally show ?case by simp
qed


subsection \<open>The cleanup sweep\<close>



lemma filter_ids_eligible:
  assumes d: "distinct (map limit_id rows)"
  shows "filter_mset (\<lambda>l. limit_id l \<notin> limit_id ` set (filter P rows)) (mset rows)
       = mset (filter (\<lambda>l. \<not> P l) rows)"
proof -
  have inj: "inj_on limit_id (set rows)" using d by (simp add: distinct_map)
  have "(limit_id l \<notin> limit_id ` set (filter P rows)) = (\<not> P l)" if "l \<in> set rows" for l
    using inj that by (auto simp: inj_on_def)
  then have "filter (\<lambda>l. limit_id l \<notin> limit_id ` set (filter P rows)) rows
      = filter (\<lambda>l. \<not> P l) rows"
    by (intro filter_cong) simp_all
  then show ?thesis by (simp flip: mset_filter)
qed

lemma sweep_exact:
  assumes d: "distinct (map limit_id (limitsTable db))"
      and nq: "\<forall>q. \<not> failing db q"
      and iv: "intervalMillis (cleanupIntervalOf
                 (find (\<lambda>org. organization_id org = oid) (organizationsTable db))) = Some ms"
  shows "mset (limitsTable (cleanupLimitsIfNeeded clock oid db))
       = mset (map (\<lambda>(j, l). resetRow (clock j) l)
                (enumerate 1 (filter (needsCleanup oid (clock 0 - ms)) (limitsTable db))))
         + mset (filter (\<lambda>l. \<not> needsCleanup oid (clock 0 - ms) l) (limitsTable db))"
proof -
  let ?ls = "filter (needsCleanup oid (clock 0 - ms)) (limitsTable db)"
  have run: "cleanupLimitsIfNeeded clock oid db = resetAll clock 1 ?ls db"
    using nq iv
    by (simp add: cleanupLimitsIfNeeded_def selectOrganization_def run_query_def
        findLimitsNeedingCleanup_def)
  have sub: "set ?ls \<subseteq> set (limitsTable db)" by auto
  have dl: "distinct (map limit_id ?ls)" using d by (rule distinct_map_filter)
  show ?thesis
    unfolding run resetAll_complete [OF d sub dl nq] filter_ids_eligible [OF d] ..
qed

lemma sweep_unknown_interval:
  assumes "intervalMillis (cleanupIntervalOf
             (find (\<lambda>org. organization_id org = oid) (organizationsTable db))) = None"
  shows "cleanupLimitsIfNeeded clock oid db = db"
  using assms
  by (simp add: cleanupLimitsIfNeeded_def selectOrganization_def run_query_def)

lemma intervalMillis_values:
  "intervalMillis ''1h'' = Some 3600000"
  "intervalMillis ''12h'' = Some 43200000"
  "intervalMillis ''24h'' = Some 86400000"
  "intervalMillis ''1w'' = Some 604800000"
  "intervalMillis ''1m'' = Some 2592000000"
  by (simp_all add: intervalMillis_def)

lemma intervalMillis_unknown:
  assumes "interval \<notin> {''1h'', ''12h'', ''24h'', ''1w'', ''1m''}"
  shows "intervalMillis interval = None"
  using assms by (simp add: intervalMillis_def)

lemma configured_interval:
  assumes "((case org of None \<Rightarrow> None | Some r \<Rightarrow> limitCleanupInterval r), ms)
             \<in> {(None, 3600000), (Some [], 3600000), (Some ''1h'', 3600000),
                (Some ''12h'', 43200000), (Some ''24h'', 86400000),
                (Some ''1w'', 604800000), (Some ''1m'', 2592000000)}"
  shows "intervalMillis (cleanupIntervalOf org) = Some ms"
proof -
  let ?iv = "case org of None \<Rightarrow> None | Some r \<Rightarrow> limitCleanupInterval r"
  have c: "cleanupIntervalOf org = (case ?iv of None \<Rightarrow> ''1h'' | Some s \<Rightarrow> if s = [] then ''1h'' else s)"
    by (simp add: cleanupIntervalOf_def split: option.splits)
  from assms consider
      "?iv = None" "ms = 3600000" | "?iv = Some []" "ms = 3600000"
    | "?iv = Some ''1h''" "ms = 3600000" | "?iv = Some ''12h''" "ms = 43200000"
    | "?iv = Some ''24h''" "ms = 86400000" | "?iv = Some ''1w''" "ms = 604800000"
    | "?iv = Some ''1m''" "ms = 2592000000"
    by (elim insertE emptyE) (simp_all only: prod.inject)
  then show ?thesis
  proof cases
    case 1 then show ?thesis unfolding c by (simp add: intervalMillis_values)
  next
    case 2 then show ?thesis unfolding c by (simp add: intervalMillis_values)
  next
    case 3 then show ?thesis unfolding c by (simp add: intervalMillis_values)
  next
    case 4 then show ?thesis unfolding c by (simp add: intervalMillis_values)
  next
    case 5 then show ?thesis unfolding c by (simp add: intervalMillis_values)
  next
    case 6 then show ?thesis unfolding c by (simp add: intervalMillis_values)
  next
    case 7 then show ?thesis unfolding c by (simp add: intervalMillis_values)
  qed
qed

lemma unknown_interval:
  assumes "(case org of None \<Rightarrow> None | Some r \<Rightarrow> limitCleanupInterval r) = Some interval"
      and "interval \<notin> {[], ''1h'', ''12h'', ''24h'', ''1w'', ''1m''}"
  shows "intervalMillis (cleanupIntervalOf org) = None"
proof -
  from assms(1) obtain r where org: "org = Some r" and r: "limitCleanupInterval r = Some interval"
    by (cases org) simp_all
  from assms(2) have ne: "interval \<noteq> []" by simp
  have "cleanupIntervalOf org = interval" by (simp add: cleanupIntervalOf_def org r ne)
  moreover have "intervalMillis interval = None"
    by (rule intervalMillis_unknown) (use assms(2) in simp)
  ultimately show ?thesis by simp
qed

subsection \<open>The checks as a search of the governing limits\<close>

lemma firstExceeded_Nil [simp]: "firstExceeded db [] = None"
  by (simp add: firstExceeded_def)















subsection \<open>Priority of the scopes\<close>



subsection \<open>The value compared with the limit\<close>

text \<open>
  Claim C6, as stated, fails. The check refuses when the compared value equals
  \<^verbatim>\<open>limitValue\<close>, which does not exceed it: a limit of 1000 tokens with usage (600, 400)
  and no model is refused. And the cost is computed in binary64 arithmetic, not exactly:
  at 0.15 dollars per million tokens, the usage (19729968, 270032) costs 3 dollars, and
  the value compared is 2.9999999999999996 (a request under a limit of 3 dollars is
  allowed).
\<close>

theorem checkLimit_exceeds_counterexample:
  "checkLimit (exampleStore [] (\<lambda>q. False)) Agent ''agent-1''
       (exampleLimit ''L1'' Agent ''agent-1'' None 1000 600 400 None)
     = Some \<lparr>refusal_entityType = Agent, refusal_entityId = ''agent-1'',
              refusal_currentUsage = 1000, refusal_limitValue = 1000,
              refusal_comparisonValue = Num 1000, refusal_limitDescription = Tokens\<rparr>
   \<and> \<not> (of_int (currentUsageTokensIn (exampleLimit ''L1'' Agent ''agent-1'' None 1000 600 400 None)
                + currentUsageTokensOut (exampleLimit ''L1'' Agent ''agent-1'' None 1000 600 400 None))
          > limitValue (exampleLimit ''L1'' Agent ''agent-1'' None 1000 600 400 None))
   \<and> comparison (exampleStore [] (\<lambda>q. False))
       (exampleLimit ''L2'' Agent ''agent-1'' (Some ''gpt-4o-mini'') 3 19729968 270032 None)
     = (Num (6755399441055743 / 2251799813685248), Cost_dollars, [])
   \<and> (19729968 * (15 / 100) / 1000000 + 270032 * (15 / 100) / 1000000 :: rat) = 3
   \<and> checkLimit (exampleStore [] (\<lambda>q. False)) Agent ''agent-1''
       (exampleLimit ''L2'' Agent ''agent-1'' (Some ''gpt-4o-mini'') 3 19729968 270032 None)
     = None"
  by code_simp

text \<open>
  Claim C6, amended. For a \<^verbatim>\<open>token_cost\<close> limit: when \<^verbatim>\<open>limit.model\<close> is unset (null or
  empty) the compared value is \<^verbatim>\<open>currentUsageTokensIn + currentUsageTokensOut\<close>, in tokens;
  when it is set and a TokenPrice row is found the compared value, in dollars, is
  \<^verbatim>\<open>(tokensIn * parseFloat(pricePerMillionInput)) / 1000000 + (tokensOut *
  parseFloat(pricePerMillionOutput)) / 1000000\<close> computed in binary64 arithmetic, each
  operation rounded to the nearest number; it is the exact cost when no operation rounds.
  In both cases the check of this limit returns a refusal pair exactly when the compared
  value is greater than or equal to \<^verbatim>\<open>limitValue\<close>, and no refusal otherwise.
\<close>

theorem checkLimit_threshold:
  assumes "limitType l = ''token_cost''"
  shows "(model l = None \<or> model l = Some [] \<longrightarrow>
            fst (comparison db l) = Num (of_int (currentUsageTokensIn l + currentUsageTokensOut l))
          \<and> fst (snd (comparison db l)) = Tokens)
       \<and> (\<forall>m tp. model l = Some m \<and> m \<noteq> [] \<and> findByModel db m = Inr (Some tp) \<longrightarrow>
            fst (comparison db l) =
              addition
                (perMillion (multiply (Num (of_int (currentUsageTokensIn l)))
                               (binary64 (pricePerMillionInput tp))))
                (perMillion (multiply (Num (of_int (currentUsageTokensOut l)))
                               (binary64 (pricePerMillionOutput tp))))
          \<and> fst (snd (comparison db l)) = Cost_dollars
          \<and> (binary64 (pricePerMillionInput tp) = Num (pricePerMillionInput tp)
             \<and> binary64 (pricePerMillionOutput tp) = Num (pricePerMillionOutput tp)
             \<and> binary64 (of_int (currentUsageTokensIn l) * pricePerMillionInput tp)
                 = Num (of_int (currentUsageTokensIn l) * pricePerMillionInput tp)
             \<and> binary64 (of_int (currentUsageTokensOut l) * pricePerMillionOutput tp)
                 = Num (of_int (currentUsageTokensOut l) * pricePerMillionOutput tp)
             \<and> binary64 (of_int (currentUsageTokensIn l) * pricePerMillionInput tp / 1000000)
                 = Num (of_int (currentUsageTokensIn l) * pricePerMillionInput tp / 1000000)
             \<and> binary64 (of_int (currentUsageTokensOut l) * pricePerMillionOutput tp / 1000000)
                 = Num (of_int (currentUsageTokensOut l) * pricePerMillionOutput tp / 1000000)
             \<and> binary64 (of_int (currentUsageTokensIn l) * pricePerMillionInput tp / 1000000
                         + of_int (currentUsageTokensOut l) * pricePerMillionOutput tp / 1000000)
                 = Num (of_int (currentUsageTokensIn l) * pricePerMillionInput tp / 1000000
                         + of_int (currentUsageTokensOut l) * pricePerMillionOutput tp / 1000000)
             \<longrightarrow> fst (comparison db l)
                   = Num (of_int (currentUsageTokensIn l) * pricePerMillionInput tp / 1000000
                          + of_int (currentUsageTokensOut l) * pricePerMillionOutput tp / 1000000)))
       \<and> checkLimit db et eid l =
            (if greaterOrEqual (fst (comparison db l)) (limitValue l)
             then Some \<lparr>refusal_entityType = et, refusal_entityId = eid,
                  refusal_currentUsage = currentUsageTokensIn l + currentUsageTokensOut l,
                  refusal_limitValue = limitValue l,
                  refusal_comparisonValue = fst (comparison db l),
                  refusal_limitDescription = fst (snd (comparison db l))\<rparr>
             else None)
       \<and> (\<forall>v. fst (comparison db l) = Num v \<longrightarrow>
            (checkLimit db et eid l \<noteq> None) = (limitValue l \<le> v))"
proof (intro conjI allI impI)
  assume "model l = None \<or> model l = Some []"
  then show "fst (comparison db l) = Num (of_int (currentUsageTokensIn l + currentUsageTokensOut l))"
    and "fst (snd (comparison db l)) = Tokens"
    using assms by (auto simp: comparison_def Let_def)
next
  fix m tp
  assume h: "model l = Some m \<and> m \<noteq> [] \<and> findByModel db m = Inr (Some tp)"
  then show priced: "fst (comparison db l) =
              addition
                (perMillion (multiply (Num (of_int (currentUsageTokensIn l)))
                               (binary64 (pricePerMillionInput tp))))
                (perMillion (multiply (Num (of_int (currentUsageTokensOut l)))
                               (binary64 (pricePerMillionOutput tp))))"
    and "fst (snd (comparison db l)) = Cost_dollars"
    using assms by (simp_all add: comparison_def Let_def parseFloat_def)
  assume e: "binary64 (pricePerMillionInput tp) = Num (pricePerMillionInput tp)
             \<and> binary64 (pricePerMillionOutput tp) = Num (pricePerMillionOutput tp)
             \<and> binary64 (of_int (currentUsageTokensIn l) * pricePerMillionInput tp)
                 = Num (of_int (currentUsageTokensIn l) * pricePerMillionInput tp)
             \<and> binary64 (of_int (currentUsageTokensOut l) * pricePerMillionOutput tp)
                 = Num (of_int (currentUsageTokensOut l) * pricePerMillionOutput tp)
             \<and> binary64 (of_int (currentUsageTokensIn l) * pricePerMillionInput tp / 1000000)
                 = Num (of_int (currentUsageTokensIn l) * pricePerMillionInput tp / 1000000)
             \<and> binary64 (of_int (currentUsageTokensOut l) * pricePerMillionOutput tp / 1000000)
                 = Num (of_int (currentUsageTokensOut l) * pricePerMillionOutput tp / 1000000)
             \<and> binary64 (of_int (currentUsageTokensIn l) * pricePerMillionInput tp / 1000000
                         + of_int (currentUsageTokensOut l) * pricePerMillionOutput tp / 1000000)
                 = Num (of_int (currentUsageTokensIn l) * pricePerMillionInput tp / 1000000
                         + of_int (currentUsageTokensOut l) * pricePerMillionOutput tp / 1000000)"
  show "fst (comparison db l)
                   = Num (of_int (currentUsageTokensIn l) * pricePerMillionInput tp / 1000000
                          + of_int (currentUsageTokensOut l) * pricePerMillionOutput tp / 1000000)"
    unfolding priced using e by (simp add: multiply_def perMillion_def addition_def)
next
  show "checkLimit db et eid l =
            (if greaterOrEqual (fst (comparison db l)) (limitValue l)
             then Some \<lparr>refusal_entityType = et, refusal_entityId = eid,
                  refusal_currentUsage = currentUsageTokensIn l + currentUsageTokensOut l,
                  refusal_limitValue = limitValue l,
                  refusal_comparisonValue = fst (comparison db l),
                  refusal_limitDescription = fst (snd (comparison db l))\<rparr>
             else None)"
    by (cases "comparison db l") (simp add: checkLimit_def)
next
  fix v
  assume "fst (comparison db l) = Num v"
  then show "(checkLimit db et eid l \<noteq> None) = (limitValue l \<le> v)"
    by (cases "comparison db l") (simp add: checkLimit_def greaterOrEqual_def)
qed

theorem checkLimit_threshold_witness:
  "checkLimit (exampleStore [] (\<lambda>q. False)) Agent ''agent-1''
       (exampleLimit ''L2'' Agent ''agent-1'' (Some ''gpt-4'') 50 1000000 500000 None)
     = Some \<lparr>refusal_entityType = Agent, refusal_entityId = ''agent-1'',
              refusal_currentUsage = 1500000, refusal_limitValue = 50,
              refusal_comparisonValue = Num 60, refusal_limitDescription = Cost_dollars\<rparr>
   \<and> checkLimit (exampleStore [] (\<lambda>q. False)) Agent ''agent-1''
       (exampleLimit ''L1'' Agent ''agent-1'' None 1000 600 300 None) = None
   \<and> checkLimit (exampleStore [] (\<lambda>q. False)) Agent ''agent-1''
       (exampleLimit ''L3'' Agent ''agent-1'' (Some ''gpt-4o-mini'') 3 20000000 0 None)
     = Some \<lparr>refusal_entityType = Agent, refusal_entityId = ''agent-1'',
              refusal_currentUsage = 20000000, refusal_limitValue = 3,
              refusal_comparisonValue = Num 3, refusal_limitDescription = Cost_dollars\<rparr>"
proof -
  let ?db = "exampleStore [] (\<lambda>q. False)"
  let ?l2 = "exampleLimit ''L2'' Agent ''agent-1'' (Some ''gpt-4'') 50 1000000 500000 None"
  let ?l1 = "exampleLimit ''L1'' Agent ''agent-1'' None 1000 600 300 None"
  let ?l3 = "exampleLimit ''L3'' Agent ''agent-1'' (Some ''gpt-4o-mini'') 3 20000000 0 None"
  let ?gpt4 = "\<lparr>price_model = ''gpt-4'', pricePerMillionInput = 30, pricePerMillionOutput = 60\<rparr>"
  let ?mini = "\<lparr>price_model = ''gpt-4o-mini'', pricePerMillionInput = 15 / 100,
                pricePerMillionOutput = 15 / 100\<rparr>"
  have p: "findByModel ?db ''gpt-4'' = Inr (Some ?gpt4)"
    and q: "findByModel ?db ''gpt-4o-mini'' = Inr (Some ?mini)"
    by (simp_all add: findByModel_def run_query_def example_defs)
  have t: "limitType ?l2 = ''token_cost''" "limitType ?l1 = ''token_cost''"
      "limitType ?l3 = ''token_cost''"
    by (simp_all add: example_defs)
  have exact: "binary64 30 = Num 30" "binary64 60 = Num 60" "binary64 30000000 = Num 30000000"
    by code_simp+
  note i2 = checkLimit_threshold [OF t(1), of ?db Agent "''agent-1''"]
  have m2: "model ?l2 = Some ''gpt-4'' \<and> ''gpt-4'' \<noteq> [] \<and> findByModel ?db ''gpt-4'' = Inr (Some ?gpt4)"
    using p by (simp add: example_defs)
  note priced2 = mp [OF spec [OF spec [OF conjunct1 [OF conjunct2 [OF i2]]]] m2]
  have "fst (comparison ?db ?l2)
      = Num (of_int (currentUsageTokensIn ?l2) * pricePerMillionInput ?gpt4 / 1000000
             + of_int (currentUsageTokensOut ?l2) * pricePerMillionOutput ?gpt4 / 1000000)"
    by (rule mp [OF conjunct2 [OF conjunct2 [OF priced2]]]) (simp add: example_defs exact)
  then have v2: "fst (comparison ?db ?l2) = Num 60"
    by (simp add: example_defs)
  from i2 p have d2: "fst (snd (comparison ?db ?l2)) = Cost_dollars"
    by (simp add: example_defs)
  from i2 v2 d2 have a: "checkLimit ?db Agent ''agent-1'' ?l2
        = Some \<lparr>refusal_entityType = Agent, refusal_entityId = ''agent-1'',
              refusal_currentUsage = 1500000, refusal_limitValue = 50,
              refusal_comparisonValue = Num 60, refusal_limitDescription = Cost_dollars\<rparr>"
    by (simp add: example_defs greaterOrEqual_def)
  note i1 = checkLimit_threshold [OF t(2), of ?db Agent "''agent-1''"]
  from i1 have v1: "fst (comparison ?db ?l1) = Num 900"
    by (simp add: example_defs)
  from i1 v1 have b: "checkLimit ?db Agent ''agent-1'' ?l1 = None"
    by (simp add: example_defs greaterOrEqual_def)
  have rounded: "addition
                (perMillion (multiply (Num 20000000) (binary64 (15 / 100))))
                (perMillion (multiply (Num 0) (binary64 (15 / 100)))) = Num 3"
    by code_simp
  note i3 = checkLimit_threshold [OF t(3), of ?db Agent "''agent-1''"]
  from i3 q rounded have v3: "fst (comparison ?db ?l3) = Num 3"
    by (simp add: example_defs)
  from i3 q have d3: "fst (snd (comparison ?db ?l3)) = Cost_dollars"
    by (simp add: example_defs)
  from i3 v3 d3 have c: "checkLimit ?db Agent ''agent-1'' ?l3
     = Some \<lparr>refusal_entityType = Agent, refusal_entityId = ''agent-1'',
              refusal_currentUsage = 20000000, refusal_limitValue = 3,
              refusal_comparisonValue = Num 3, refusal_limitDescription = Cost_dollars\<rparr>"
    by (simp add: example_defs greaterOrEqual_def)
  from a b c show ?thesis by simp
qed

subsection \<open>Repository failures during the pre-check\<close>




subsection \<open>Reset of the usage counters and the cleanup sweep\<close>

text \<open>
  Claim C8. \<^verbatim>\<open>resetLimitUsage(id)\<close> sets both usage counters of the limit to 0 and
  \<^verbatim>\<open>lastCleanup\<close> (and \<^verbatim>\<open>updatedAt\<close>) to the current time, leaving every other row and
  field as it was; applied a second time, at \<open>later\<close>, it leaves the rows a single reset at
  \<open>later\<close> leaves, so the counters stay zero and only the time stamps move. A limit is
  found by \<^verbatim>\<open>findLimitsNeedingCleanup\<close> exactly when it belongs to the organization and its
  \<^verbatim>\<open>lastCleanup\<close> is null or before the cutoff. The sweep reads the interval configured for
  the organization (one hour when the organization is not found or has none): for an
  interval of \<open>ms\<close> milliseconds, with \<open>clock 0\<close> the time the sweep reads for its cutoff,
  it resets exactly the limits of the organization whose \<^verbatim>\<open>lastCleanup\<close> is null or before
  \<open>clock 0 - ms\<close>, each with the time read at its own reset, and leaves the other rows as
  they were; for any other interval it changes nothing. The rows are compared as
  multisets, the order of the table after an UPDATE being the store's. The sweep is stated
  for a data layer that does not throw and unique limit ids.
\<close>

theorem resetLimitUsage_idempotent:
  "(\<not> failing db (ResetLimitUsage i) \<longrightarrow>
      (\<exists>r1 db1 r2 db2.
          resetLimitUsage earlier i db = Inr (r1, db1)
        \<and> mset (limitsTable db1) =
            image_mset (\<lambda>l. if limit_id l = i
                       then l\<lparr>currentUsageTokensIn := 0, currentUsageTokensOut := 0,
                              lastCleanup := Some earlier, updatedAt := earlier\<rparr>
                       else l) (mset (limitsTable db))
        \<and> resetLimitUsage later i db1 = Inr (r2, db2)
        \<and> mset (limitsTable db2) =
            image_mset (\<lambda>l. if limit_id l = i
                       then l\<lparr>currentUsageTokensIn := 0, currentUsageTokensOut := 0,
                              lastCleanup := Some later, updatedAt := later\<rparr>
                       else l) (mset (limitsTable db))))
   \<and> (\<not> failing db (FindLimitsNeedingCleanup oid cutoff) \<longrightarrow>
        findLimitsNeedingCleanup db oid cutoff =
           Inr (filter (\<lambda>l. entityType l = Organization \<and> entityId l = oid \<and>
                  (lastCleanup l = None \<or> (\<exists>t. lastCleanup l = Some t \<and> t < cutoff)))
                 (limitsTable db)))
   \<and> (\<forall>ms. distinct (map limit_id (limitsTable db)) \<and> (\<forall>q. \<not> failing db q)
         \<and> ((case find (\<lambda>org. organization_id org = oid) (organizationsTable db) of
                None \<Rightarrow> None | Some org \<Rightarrow> limitCleanupInterval org), ms)
             \<in> {(None, 3600000), (Some [], 3600000), (Some ''1h'', 3600000),
                (Some ''12h'', 43200000), (Some ''24h'', 86400000),
                (Some ''1w'', 604800000), (Some ''1m'', 2592000000)}
         \<longrightarrow> mset (limitsTable (cleanupLimitsIfNeeded clock oid db))
             = mset (map (\<lambda>(j, l). l\<lparr>currentUsageTokensIn := 0, currentUsageTokensOut := 0,
                                     lastCleanup := Some (clock j), updatedAt := clock j\<rparr>)
                      (enumerate 1
                        (filter (\<lambda>l. entityType l = Organization \<and> entityId l = oid \<and>
                            (lastCleanup l = None \<or>
                             (\<exists>t. lastCleanup l = Some t \<and> t < clock 0 - ms)))
                          (limitsTable db))))
               + mset (filter (\<lambda>l. \<not> (entityType l = Organization \<and> entityId l = oid \<and>
                            (lastCleanup l = None \<or>
                             (\<exists>t. lastCleanup l = Some t \<and> t < clock 0 - ms))))
                        (limitsTable db)))
   \<and> (\<forall>interval.
         (case find (\<lambda>org. organization_id org = oid) (organizationsTable db) of
                None \<Rightarrow> None | Some org \<Rightarrow> limitCleanupInterval org) = Some interval
         \<and> interval \<notin> {[], ''1h'', ''12h'', ''24h'', ''1w'', ''1m''}
         \<longrightarrow> cleanupLimitsIfNeeded clock oid db = db)"
proof (intro conjI allI impI)
  let ?f = "\<lambda>now l. if limit_id l = i then resetRow now l else l"
  assume nf: "\<not> failing db (ResetLimitUsage i)"
  from resetLimitUsage_rows [OF nf, of earlier] obtain r1 rows1
    where one: "resetLimitUsage earlier i db = Inr (r1, db\<lparr>limitsTable := rows1\<rparr>)"
      and rows1: "mset rows1 = image_mset (?f earlier) (mset (limitsTable db))"
    by blast
  let ?db1 = "db\<lparr>limitsTable := rows1\<rparr>"
  have nf1: "\<not> failing ?db1 (ResetLimitUsage i)" using nf by simp
  from resetLimitUsage_rows [OF nf1, of later] obtain r2 rows2
    where two: "resetLimitUsage later i ?db1 = Inr (r2, ?db1\<lparr>limitsTable := rows2\<rparr>)"
      and rows2: "mset rows2 = image_mset (?f later) (mset (limitsTable ?db1))"
    by blast
  have comp: "(\<lambda>l. ?f later (?f earlier l)) = ?f later" by (rule ext) simp
  have "mset rows2 = image_mset (\<lambda>l. ?f later (?f earlier l)) (mset (limitsTable db))"
    unfolding rows2 by (simp add: rows1 multiset.map_comp o_def del: if_split)
  then have rows2': "mset rows2 = image_mset (?f later) (mset (limitsTable db))"
    unfolding comp .
  have a: "mset (limitsTable ?db1) =
            image_mset (\<lambda>l. if limit_id l = i
                       then l\<lparr>currentUsageTokensIn := 0, currentUsageTokensOut := 0,
                              lastCleanup := Some earlier, updatedAt := earlier\<rparr>
                       else l) (mset (limitsTable db))"
    using rows1 unfolding resetRow_def by simp
  have b: "mset (limitsTable (?db1\<lparr>limitsTable := rows2\<rparr>)) =
            image_mset (\<lambda>l. if limit_id l = i
                       then l\<lparr>currentUsageTokensIn := 0, currentUsageTokensOut := 0,
                              lastCleanup := Some later, updatedAt := later\<rparr>
                       else l) (mset (limitsTable db))"
    using rows2' unfolding resetRow_def by simp
  from one a two b
  show "\<exists>r1 db1 r2 db2.
          resetLimitUsage earlier i db = Inr (r1, db1)
        \<and> mset (limitsTable db1) =
            image_mset (\<lambda>l. if limit_id l = i
                       then l\<lparr>currentUsageTokensIn := 0, currentUsageTokensOut := 0,
                              lastCleanup := Some earlier, updatedAt := earlier\<rparr>
                       else l) (mset (limitsTable db))
        \<and> resetLimitUsage later i db1 = Inr (r2, db2)
        \<and> mset (limitsTable db2) =
            image_mset (\<lambda>l. if limit_id l = i
                       then l\<lparr>currentUsageTokensIn := 0, currentUsageTokensOut := 0,
                              lastCleanup := Some later, updatedAt := later\<rparr>
                       else l) (mset (limitsTable db))"
    by blast
next
  have nc: "needsCleanup oid c = (\<lambda>l. entityType l = Organization \<and> entityId l = oid \<and>
                  (lastCleanup l = None \<or> (\<exists>t. lastCleanup l = Some t \<and> t < c)))" for c
  proof (rule ext)
    fix l show "needsCleanup oid c l = (entityType l = Organization \<and> entityId l = oid \<and>
                  (lastCleanup l = None \<or> (\<exists>t. lastCleanup l = Some t \<and> t < c)))"
      by (cases "lastCleanup l") (simp_all add: needsCleanup_def)
  qed
  {
    assume "\<not> failing db (FindLimitsNeedingCleanup oid cutoff)"
    then show "findLimitsNeedingCleanup db oid cutoff =
           Inr (filter (\<lambda>l. entityType l = Organization \<and> entityId l = oid \<and>
                  (lastCleanup l = None \<or> (\<exists>t. lastCleanup l = Some t \<and> t < cutoff)))
                 (limitsTable db))"
      by (simp add: findLimitsNeedingCleanup_def run_query_def nc)
  }
  {
    fix ms :: int
    assume h: "distinct (map limit_id (limitsTable db)) \<and> (\<forall>q. \<not> failing db q)
         \<and> ((case find (\<lambda>org. organization_id org = oid) (organizationsTable db) of
                None \<Rightarrow> None | Some org \<Rightarrow> limitCleanupInterval org), ms)
             \<in> {(None, 3600000), (Some [], 3600000), (Some ''1h'', 3600000),
                (Some ''12h'', 43200000), (Some ''24h'', 86400000),
                (Some ''1w'', 604800000), (Some ''1m'', 2592000000)}"
    note d = conjunct1 [OF h] and nq = conjunct1 [OF conjunct2 [OF h]]
    from conjunct2 [OF conjunct2 [OF h]] have "((case find (\<lambda>org. organization_id org = oid) (organizationsTable db) of
                None \<Rightarrow> None | Some org \<Rightarrow> limitCleanupInterval org), ms)
             \<in> {(None, 3600000), (Some [], 3600000), (Some ''1h'', 3600000),
                (Some ''12h'', 43200000), (Some ''24h'', 86400000),
                (Some ''1w'', 604800000), (Some ''1m'', 2592000000)}"
      .
    then have iv: "intervalMillis (cleanupIntervalOf
                 (find (\<lambda>org. organization_id org = oid) (organizationsTable db))) = Some ms"
      by (rule configured_interval)
    have rr: "(\<lambda>(j, l). resetRow (clock j) l)
        = (\<lambda>(j, l). l\<lparr>currentUsageTokensIn := 0, currentUsageTokensOut := 0,
                                     lastCleanup := Some (clock j), updatedAt := clock j\<rparr>)"
      by (simp add: resetRow_def fun_eq_iff)
    show "mset (limitsTable (cleanupLimitsIfNeeded clock oid db))
             = mset (map (\<lambda>(j, l). l\<lparr>currentUsageTokensIn := 0, currentUsageTokensOut := 0,
                                     lastCleanup := Some (clock j), updatedAt := clock j\<rparr>)
                      (enumerate 1
                        (filter (\<lambda>l. entityType l = Organization \<and> entityId l = oid \<and>
                            (lastCleanup l = None \<or>
                             (\<exists>t. lastCleanup l = Some t \<and> t < clock 0 - ms)))
                          (limitsTable db))))
               + mset (filter (\<lambda>l. \<not> (entityType l = Organization \<and> entityId l = oid \<and>
                            (lastCleanup l = None \<or>
                             (\<exists>t. lastCleanup l = Some t \<and> t < clock 0 - ms))))
                        (limitsTable db))"
      using sweep_exact [OF d nq iv, of clock] unfolding nc rr .
  }
  {
    fix interval
    assume h: "(case find (\<lambda>org. organization_id org = oid) (organizationsTable db) of
                None \<Rightarrow> None | Some org \<Rightarrow> limitCleanupInterval org) = Some interval
         \<and> interval \<notin> {[], ''1h'', ''12h'', ''24h'', ''1w'', ''1m''}"
    note conjunct1 [OF h] conjunct2 [OF h]
    then have "intervalMillis (cleanupIntervalOf
             (find (\<lambda>org. organization_id org = oid) (organizationsTable db))) = None"
      by (rule unknown_interval)
    then show "cleanupLimitsIfNeeded clock oid db = db" by (rule sweep_unknown_interval)
  }
qed

theorem resetLimitUsage_idempotent_witness:
  "mset (limitsTable (cleanupLimitsIfNeeded (clockFrom 100000000) ''org-2''
            (exampleStore sweepLimits (\<lambda>q. False))))
     = mset [(exampleLimit ''L4'' Organization ''org-2'' None 1000 0 0 (Some 100000001))
               \<lparr>updatedAt := 100000001\<rparr>,
             (exampleLimit ''L5'' Organization ''org-2'' None 1000 0 0 (Some 100000002))
               \<lparr>updatedAt := 100000002\<rparr>,
             exampleLimit ''L1'' Agent ''agent-1'' None 1000 600 500 None,
             exampleLimit ''L6'' Organization ''org-2'' None 1000 9 9 (Some 92800000),
             exampleLimit ''L3'' Organization ''org-1'' None 1000 5000 5000 None]
   \<and> limitsTable (cleanupLimitsIfNeeded (clockFrom 100000000) ''org-2''
            ((exampleStore sweepLimits (\<lambda>q. False))\<lparr>slot := atEnd\<rparr>))
     = [exampleLimit ''L1'' Agent ''agent-1'' None 1000 600 500 None,
        exampleLimit ''L6'' Organization ''org-2'' None 1000 9 9 (Some 92800000),
        exampleLimit ''L3'' Organization ''org-1'' None 1000 5000 5000 None,
        (exampleLimit ''L4'' Organization ''org-2'' None 1000 0 0 (Some 100000001))
          \<lparr>updatedAt := 100000001\<rparr>,
        (exampleLimit ''L5'' Organization ''org-2'' None 1000 0 0 (Some 100000002))
          \<lparr>updatedAt := 100000002\<rparr>]
   \<and> (\<exists>r1 db1 r2 db2.
         resetLimitUsage 7 ''L1'' (exampleStore threeLimits (\<lambda>q. False)) = Inr (r1, db1)
       \<and> mset (limitsTable db1)
           = mset [(exampleLimit ''L1'' Agent ''agent-1'' None 1000 0 0 (Some 7))\<lparr>updatedAt := 7\<rparr>,
                   exampleLimit ''L2'' Team ''team-1'' None 1000 900 900 None,
                   exampleLimit ''L3'' Organization ''org-1'' None 1000 5000 5000 (Some 4000000)]
       \<and> resetLimitUsage 8 ''L1'' db1 = Inr (r2, db2)
       \<and> mset (limitsTable db2)
           = mset [(exampleLimit ''L1'' Agent ''agent-1'' None 1000 0 0 (Some 8))\<lparr>updatedAt := 8\<rparr>,
                   exampleLimit ''L2'' Team ''team-1'' None 1000 900 900 None,
                   exampleLimit ''L3'' Organization ''org-1'' None 1000 5000 5000 (Some 4000000)])"
proof -
  let ?db = "exampleStore sweepLimits (\<lambda>q. False)"
  let ?db3 = "exampleStore threeLimits (\<lambda>q. False)"
  note sweep = resetLimitUsage_idempotent
                 [where db = ?db and oid = "''org-2''" and clock = "clockFrom 100000000"
                    and i = "''L1''" and cutoff = 0 and earlier = 7 and later = 8]
  have d: "distinct (map limit_id (limitsTable ?db))" by (simp add: example_defs)
  have nq: "\<forall>q. \<not> failing ?db q" by (simp add: example_defs)
  have iv: "((case find (\<lambda>org. organization_id org = ''org-2'') (organizationsTable ?db) of
                None \<Rightarrow> None | Some org \<Rightarrow> limitCleanupInterval org), 86400000)
             \<in> {(None, 3600000), (Some [], 3600000), (Some ''1h'', 3600000),
                (Some ''12h'', 43200000), (Some ''24h'', 86400000),
                (Some ''1w'', 604800000), (Some ''1m'', 2592000000)}"
    by (simp add: example_defs)
  from sweep d nq iv
  have "mset (limitsTable (cleanupLimitsIfNeeded (clockFrom 100000000) ''org-2'' ?db))
             = mset (map (\<lambda>(j, l). l\<lparr>currentUsageTokensIn := 0, currentUsageTokensOut := 0,
                                     lastCleanup := Some (clockFrom 100000000 j),
                                     updatedAt := clockFrom 100000000 j\<rparr>)
                      (enumerate 1
                        (filter (\<lambda>l. entityType l = Organization \<and> entityId l = ''org-2'' \<and>
                            (lastCleanup l = None \<or>
                             (\<exists>t. lastCleanup l = Some t \<and> t < clockFrom 100000000 0 - 86400000)))
                          (limitsTable ?db))))
               + mset (filter (\<lambda>l. \<not> (entityType l = Organization \<and> entityId l = ''org-2'' \<and>
                            (lastCleanup l = None \<or>
                             (\<exists>t. lastCleanup l = Some t \<and> t < clockFrom 100000000 0 - 86400000))))
                        (limitsTable ?db))"
    by blast
  then have 1: "mset (limitsTable (cleanupLimitsIfNeeded (clockFrom 100000000) ''org-2'' ?db))
     = mset [(exampleLimit ''L4'' Organization ''org-2'' None 1000 0 0 (Some 100000001))
               \<lparr>updatedAt := 100000001\<rparr>,
             (exampleLimit ''L5'' Organization ''org-2'' None 1000 0 0 (Some 100000002))
               \<lparr>updatedAt := 100000002\<rparr>,
             exampleLimit ''L1'' Agent ''agent-1'' None 1000 600 500 None,
             exampleLimit ''L6'' Organization ''org-2'' None 1000 9 9 (Some 92800000),
             exampleLimit ''L3'' Organization ''org-1'' None 1000 5000 5000 None]"
    by (simp add: example_defs)
  have 2: "limitsTable (cleanupLimitsIfNeeded (clockFrom 100000000) ''org-2''
            (?db\<lparr>slot := atEnd\<rparr>))
     = [exampleLimit ''L1'' Agent ''agent-1'' None 1000 600 500 None,
        exampleLimit ''L6'' Organization ''org-2'' None 1000 9 9 (Some 92800000),
        exampleLimit ''L3'' Organization ''org-1'' None 1000 5000 5000 None,
        (exampleLimit ''L4'' Organization ''org-2'' None 1000 0 0 (Some 100000001))
          \<lparr>updatedAt := 100000001\<rparr>,
        (exampleLimit ''L5'' Organization ''org-2'' None 1000 0 0 (Some 100000002))
          \<lparr>updatedAt := 100000002\<rparr>]"
    by (simp add: eval_defs example_defs Let_def)
  note twice = resetLimitUsage_idempotent
                 [where db = ?db3 and oid = "''org-1''" and clock = "clockFrom 0"
                    and i = "''L1''" and cutoff = 0 and earlier = 7 and later = 8]
  have nf: "\<not> failing ?db3 (ResetLimitUsage ''L1'')" by (simp add: example_defs)
  from twice nf obtain r1 db1 r2 db2
    where a: "resetLimitUsage 7 ''L1'' ?db3 = Inr (r1, db1)"
      and b: "mset (limitsTable db1) =
            image_mset (\<lambda>l. if limit_id l = ''L1''
                       then l\<lparr>currentUsageTokensIn := 0, currentUsageTokensOut := 0,
                              lastCleanup := Some 7, updatedAt := 7\<rparr>
                       else l) (mset (limitsTable ?db3))"
      and c: "resetLimitUsage 8 ''L1'' db1 = Inr (r2, db2)"
      and e: "mset (limitsTable db2) =
            image_mset (\<lambda>l. if limit_id l = ''L1''
                       then l\<lparr>currentUsageTokensIn := 0, currentUsageTokensOut := 0,
                              lastCleanup := Some 8, updatedAt := 8\<rparr>
                       else l) (mset (limitsTable ?db3))"
    by blast
  from b have b': "mset (limitsTable db1)
           = mset [(exampleLimit ''L1'' Agent ''agent-1'' None 1000 0 0 (Some 7))\<lparr>updatedAt := 7\<rparr>,
                   exampleLimit ''L2'' Team ''team-1'' None 1000 900 900 None,
                   exampleLimit ''L3'' Organization ''org-1'' None 1000 5000 5000 (Some 4000000)]"
    by (simp add: example_defs)
  from e have e': "mset (limitsTable db2)
           = mset [(exampleLimit ''L1'' Agent ''agent-1'' None 1000 0 0 (Some 8))\<lparr>updatedAt := 8\<rparr>,
                   exampleLimit ''L2'' Team ''team-1'' None 1000 900 900 None,
                   exampleLimit ''L3'' Organization ''org-1'' None 1000 5000 5000 (Some 4000000)]"
    by (simp add: example_defs)
  from a b' c e' have 3: "\<exists>r1 db1 r2 db2.
         resetLimitUsage 7 ''L1'' ?db3 = Inr (r1, db1)
       \<and> mset (limitsTable db1)
           = mset [(exampleLimit ''L1'' Agent ''agent-1'' None 1000 0 0 (Some 7))\<lparr>updatedAt := 7\<rparr>,
                   exampleLimit ''L2'' Team ''team-1'' None 1000 900 900 None,
                   exampleLimit ''L3'' Organization ''org-1'' None 1000 5000 5000 (Some 4000000)]
       \<and> resetLimitUsage 8 ''L1'' db1 = Inr (r2, db2)
       \<and> mset (limitsTable db2)
           = mset [(exampleLimit ''L1'' Agent ''agent-1'' None 1000 0 0 (Some 8))\<lparr>updatedAt := 8\<rparr>,
                   exampleLimit ''L2'' Team ''team-1'' None 1000 900 900 None,
                   exampleLimit ''L3'' Organization ''org-1'' None 1000 5000 5000 (Some 4000000)]"
    by blast
  from 1 2 3 show ?thesis by (intro conjI)
qed

subsection \<open>Limits whose model has no price\<close>

text \<open>
  Claim C10, as stated, fails in one clause: when the price look-up throws, the fall-back
  is logged at error level (\<^verbatim>\<open>logger.error\<close>), not as a warning.
\<close>

theorem comparison_log_counterexample:
  "comparison (exampleStore [] (\<lambda>q. q = FindTokenPrice ''gpt-4''))
       (exampleLimit ''L1'' Agent ''agent-1'' (Some ''gpt-4'') 50 600 500 None)
     = (Num 1100, Tokens, [LogError])"
  by (simp add: comparison_def findByModel_def run_query_def example_defs)

text \<open>
  Claim C10, amended. If a \<^verbatim>\<open>token_cost\<close> limit has \<^verbatim>\<open>limit.model\<close> set but no TokenPrice
  row exists for that model, or the price look-up throws, the pre-check neither fails nor
  skips the limit: the compared value is the raw token sum
  \<^verbatim>\<open>currentUsageTokensIn + currentUsageTokensOut\<close>, in unit "tokens", and the limit is
  refused exactly when that sum is at least \<^verbatim>\<open>limitValue\<close>. A missing row is logged as a
  warning, a throwing look-up as an error.
\<close>

theorem comparison_fallback:
  assumes "limitType l = ''token_cost''" and "model l = Some m" and "m \<noteq> []"
  shows "(findByModel db m = Inr None \<longrightarrow>
            comparison db l =
              (Num (of_int (currentUsageTokensIn l + currentUsageTokensOut l)), Tokens, [LogWarn]))
       \<and> (\<forall>e. findByModel db m = Inl e \<longrightarrow>
            comparison db l =
              (Num (of_int (currentUsageTokensIn l + currentUsageTokensOut l)), Tokens, [LogError]))
       \<and> (findByModel db m = Inr None \<or> (\<exists>e. findByModel db m = Inl e) \<longrightarrow>
            checkLimit db et eid l =
              (if of_int (currentUsageTokensIn l + currentUsageTokensOut l) \<ge> limitValue l
               then Some \<lparr>refusal_entityType = et, refusal_entityId = eid,
                  refusal_currentUsage = currentUsageTokensIn l + currentUsageTokensOut l,
                  refusal_limitValue = limitValue l,
                  refusal_comparisonValue =
                    Num (of_int (currentUsageTokensIn l + currentUsageTokensOut l)),
                  refusal_limitDescription = Tokens\<rparr>
               else None))"
  using assms by (auto simp: checkLimit_def comparison_def Let_def greaterOrEqual_def)

theorem comparison_fallback_witness:
  "comparison (exampleStore [] (\<lambda>q. False))
       (exampleLimit ''L1'' Agent ''agent-1'' (Some ''claude-3'') 50 600 500 None)
     = (Num 1100, Tokens, [LogWarn])
   \<and> checkLimit (exampleStore [] (\<lambda>q. q = FindTokenPrice ''gpt-4'')) Agent ''agent-1''
       (exampleLimit ''L1'' Agent ''agent-1'' (Some ''gpt-4'') 50 600 500 None)
     = Some \<lparr>refusal_entityType = Agent, refusal_entityId = ''agent-1'',
              refusal_currentUsage = 1100, refusal_limitValue = 50,
              refusal_comparisonValue = Num 1100, refusal_limitDescription = Tokens\<rparr>"
proof -
  let ?l1 = "exampleLimit ''L1'' Agent ''agent-1'' (Some ''claude-3'') 50 600 500 None"
  let ?l2 = "exampleLimit ''L1'' Agent ''agent-1'' (Some ''gpt-4'') 50 600 500 None"
  have a: "findByModel (exampleStore [] (\<lambda>q. False)) ''claude-3'' = Inr None"
    by (simp add: findByModel_def run_query_def example_defs)
  have b: "findByModel (exampleStore [] (\<lambda>q. q = FindTokenPrice ''gpt-4'')) ''gpt-4''
      = Inl (RepositoryError (FindTokenPrice ''gpt-4''))"
    by (simp add: findByModel_def run_query_def example_defs)
  have t: "limitType ?l1 = ''token_cost''" "model ?l1 = Some ''claude-3''"
          "limitType ?l2 = ''token_cost''" "model ?l2 = Some ''gpt-4''"
    by (simp_all add: example_defs)
  from comparison_fallback [OF t(1) t(2), of "exampleStore [] (\<lambda>q. False)" Agent "''agent-1''"]
       comparison_fallback [OF t(3) t(4),
         of "exampleStore [] (\<lambda>q. q = FindTokenPrice ''gpt-4'')" Agent "''agent-1''"]
       a b
  show ?thesis by (simp add: example_defs)
qed
section \<open>Verification: prompt versioning\<close>

lemma find_distinct:
  "distinct (map f xs) \<Longrightarrow> x \<in> set xs \<Longrightarrow> find (\<lambda>p. f p = f x) xs = Some x"
  by (induction xs) (auto simp: image_iff)

lemma versionsOf_append [simp]:
  "versionsOf org n t (xs @ ys) = versionsOf org n t xs @ versionsOf org n t ys"
  by (simp add: versionsOf_def)

lemma versionsOf_subset: "set (versionsOf org n t T) \<subseteq> set T"
  by (auto simp: versionsOf_def)

lemma versionsOf_deactivate:
  assumes d: "distinct (map prompt_id T)"
      and v: "versionsOf org n t T = rows @ [cur]"
  shows "versionsOf org n t
           (map (\<lambda>p. if prompt_id p = prompt_id cur
                     then p\<lparr>isActive := False, prompt_updatedAt := now\<rparr> else p) T)
         = rows @ [cur\<lparr>isActive := False, prompt_updatedAt := now\<rparr>]"
proof -
  let ?f = "\<lambda>p. if prompt_id p = prompt_id cur
                     then p\<lparr>isActive := False, prompt_updatedAt := now\<rparr> else p"
  have "versionsOf org n t (map ?f T) = map ?f (versionsOf org n t T)"
    unfolding versionsOf_def filter_map o_def
    by (rule arg_cong [where f = "map ?f"], rule filter_cong) auto
  also have "\<dots> = map ?f rows @ [?f cur]" by (simp add: v)
  also have "map ?f rows = rows"
  proof -
    have dv: "distinct (map prompt_id (versionsOf org n t T))"
      using d unfolding versionsOf_def by (rule distinct_map_filter)
    then have "prompt_id cur \<notin> prompt_id ` set rows" by (simp add: v)
    then have "\<And>r. r \<in> set rows \<Longrightarrow> ?f r = r" by (auto simp: image_iff)
    then show ?thesis by (simp add: map_idI)
  qed
  finally show ?thesis by simp
qed

lemma update_chain_versions:
  assumes "distinct (map prompt_id T)"
      and "distinct (map fst ups)"
      and "fst ` set ups \<inter> prompt_id ` set T = {}"
      and "\<forall>u \<in> set ups. orElse (update_name (snd (snd u))) n = n"
      and "versionsOf org n t T = rows @ [cur]"
      and "isActive cur"
  shows "map prompt_id (versionsOf org n t (update_chain (prompt_id cur) ups T))
           = map prompt_id rows @ prompt_id cur # map fst ups
       \<and> map version (versionsOf org n t (update_chain (prompt_id cur) ups T))
           = map version rows @ map (\<lambda>k. version cur + int k) [0..<Suc (length ups)]
       \<and> map parentPromptId (versionsOf org n t (update_chain (prompt_id cur) ups T))
           = map parentPromptId rows @ parentPromptId cur
               # map Some (butlast (prompt_id cur # map fst ups))
       \<and> map isActive (versionsOf org n t (update_chain (prompt_id cur) ups T))
           = map isActive rows @ replicate (length ups) False @ [True]"
  using assms
proof (induction ups arbitrary: T rows cur)
  case Nil
  then show ?case by simp
next
  case (Cons u rest)
  obtain newId now inp where u: "u = (newId, now, inp)" by (cases u)
  let ?cur' = "cur\<lparr>isActive := False, prompt_updatedAt := now\<rparr>"
  let ?T1 = "map (\<lambda>p. if prompt_id p = prompt_id cur
                     then p\<lparr>isActive := False, prompt_updatedAt := now\<rparr> else p) T"
  let ?new = "\<lparr>prompt_id = newId, organizationId = organizationId cur,
                  name = orElse (update_name inp) (name cur), ptype = ptype cur,
                  content = orElse (update_content inp) (content cur),
                  version = version cur + 1, parentPromptId = Some (prompt_id cur),
                  isActive = True, createdBy = update_createdBy inp,
                  createdAt = now, prompt_updatedAt = now\<rparr>"
  have curT: "cur \<in> set T"
    using versionsOf_subset [of org n t T] Cons.prems(5) by auto
  have curtr: "organizationId cur = org \<and> name cur = n \<and> ptype cur = t"
  proof -
    have "cur \<in> set (versionsOf org n t T)" by (simp add: Cons.prems(5))
    then show ?thesis by (simp add: versionsOf_def)
  qed
  have fnd: "PromptModel_findById T (prompt_id cur) = Some cur"
    unfolding PromptModel_findById_def using Cons.prems(1) curT by (rule find_distinct)
  have upd: "PromptModel_update newId now (prompt_id cur) inp T = (Some ?new, ?T1 @ [?new])"
    by (simp add: PromptModel_update_def fnd Let_def)
  have keep: "orElse (update_name inp) n = n" using Cons.prems(4) by (simp add: u)
  have newtr: "versionsOf org n t [?new] = [?new]"
    using curtr keep by (simp add: versionsOf_def)
  have v': "versionsOf org n t (?T1 @ [?new]) = (rows @ [?cur']) @ [?new]"
    using versionsOf_deactivate [OF Cons.prems(1) Cons.prems(5), of now] newtr by simp
  have fresh: "newId \<notin> prompt_id ` set T" using Cons.prems(3) by (auto simp: u)
  have ids1: "map prompt_id ?T1 = map prompt_id T" by (induction T) auto
  have d': "distinct (map prompt_id (?T1 @ [?new]))"
  proof -
    have e: "map prompt_id (?T1 @ [?new]) = map prompt_id T @ [newId]"
      unfolding map_append ids1 by simp
    show ?thesis unfolding e using Cons.prems(1) fresh by simp
  qed
  have f': "distinct (map fst rest)" using Cons.prems(2) by simp
  have i': "fst ` set rest \<inter> prompt_id ` set (?T1 @ [?new]) = {}"
  proof -
    have e: "map prompt_id (?T1 @ [?new]) = map prompt_id T @ [newId]"
      unfolding map_append ids1 by simp
    have "prompt_id ` set (?T1 @ [?new]) = set (map prompt_id (?T1 @ [?new]))"
      by (simp only: set_map)
    also have "\<dots> = insert newId (prompt_id ` set T)" unfolding e by simp
    finally have "prompt_id ` set (?T1 @ [?new]) = insert newId (prompt_id ` set T)" .
    moreover have "newId \<notin> fst ` set rest" using Cons.prems(2) by (auto simp: u)
    moreover have "fst ` set rest \<inter> prompt_id ` set T = {}" using Cons.prems(3) by auto
    ultimately show ?thesis by auto
  qed
  have k': "\<forall>u \<in> set rest. orElse (update_name (snd (snd u))) n = n" using Cons.prems(4) by simp
  have act: "isActive ?new" by simp
  note IH = Cons.IH [OF d' f' i' k' v' act]
  have chain: "update_chain (prompt_id cur) (u # rest) T = update_chain newId rest (?T1 @ [?new])"
    by (simp add: u upd)
  have idnew: "prompt_id ?new = newId" by simp
  from IH show ?case
    unfolding chain idnew
    by (simp add: u map_upt_Suc del: upt_Suc)
qed

text \<open>
  Claim C9, as stated, fails: \<^verbatim>\<open>create\<close> does not look for an existing row of the
  triple, and \<^verbatim>\<open>update\<close> accepts the id of a superseded version. Two creates of the same
  \<^verbatim>\<open>(organizationId, name, type)\<close> leave two active rows; a second update of version 1
  leaves two active rows, both of version 2.
\<close>

theorem prompt_active_counterexample:
  "map (\<lambda>p. (prompt_id p, version p, parentPromptId p, isActive p))
     (versionsOf ''org-1'' ''greeting'' System
        (run_ops [Create ''p1'' 1 greeting, Create ''p2'' 2 greeting] []))
     = [(''p1'', 1, None, True), (''p2'', 1, None, True)]
   \<and> map (\<lambda>p. (prompt_id p, version p, parentPromptId p, isActive p))
     (versionsOf ''org-1'' ''greeting'' System
        (run_ops [Create ''p1'' 1 greeting,
                  Update ''p2'' 2 ''p1'' (newContent ''Hi''),
                  Update ''p3'' 3 ''p1'' (newContent ''Hey'')] []))
     = [(''p1'', 1, None, False), (''p2'', 2, Some ''p1'', True), (''p3'', 2, Some ''p1'', True)]"
  by (simp add: PromptModel_create_def PromptModel_update_def PromptModel_findById_def
      orElse_def versionsOf_def greeting_def newContent_def Let_def)

text \<open>
  Claim C9, amended. \<^verbatim>\<open>PromptModel.update\<close> on the id of an existing row deactivates that
  row and inserts a new active row with version equal to the old version plus 1 and
  \<^verbatim>\<open>parentPromptId\<close> equal to the old row's id. When a prompt is created under a triple
  that has no row yet and is then updated K times, each update applied to the version
  the previous operation returned and keeping the name (ids fresh and unique), the rows
  of the triple are, in insertion order, the K+1 versions: their versions are 1..K+1,
  the first has no parent and each later one has the id of the version before it as
  \<^verbatim>\<open>parentPromptId\<close>, and exactly one row, the last, is active.
\<close>

theorem prompt_version_chain:
  assumes ids: "distinct (newId # map fst ups)"
      and fresh: "set (newId # map fst ups) \<inter> prompt_id ` set table = {}"
      and unique: "distinct (map prompt_id table)"
      and none: "versionsOf (input_organizationId input) (input_name input) (input_type input)
                   table = []"
      and keep: "\<forall>u \<in> set ups. orElse (update_name (snd (snd u))) (input_name input)
                   = input_name input"
      and rows: "rows = versionsOf (input_organizationId input) (input_name input)
                   (input_type input)
                   (update_chain newId ups (snd (PromptModel_create newId now input table)))"
  shows "(\<forall>i cur newId' now' input' table'.
            PromptModel_findById table' i = Some cur \<and> newId' \<noteq> i \<longrightarrow>
              (\<exists>new table''.
                 PromptModel_update newId' now' i input' table' = (Some new, table'')
               \<and> new \<in> set table''
               \<and> version new = version cur + 1 \<and> parentPromptId new = Some i \<and> isActive new
               \<and> (\<forall>p \<in> set table''. prompt_id p = i \<longrightarrow> \<not> isActive p)))
       \<and> map prompt_id rows = newId # map fst ups
       \<and> map version rows = map (\<lambda>k. 1 + int k) [0..<Suc (length ups)]
       \<and> map parentPromptId rows = None # map Some (butlast (newId # map fst ups))
       \<and> map isActive rows = replicate (length ups) False @ [True]
       \<and> length (filter isActive rows) = 1"
proof -
  let ?org = "input_organizationId input" and ?n = "input_name input" and ?t = "input_type input"
  let ?row = "\<lparr>prompt_id = newId, organizationId = ?org, name = ?n, ptype = ?t,
               content = input_content input, version = 1, parentPromptId = None,
               isActive = True, createdBy = input_createdBy input, createdAt = now,
               prompt_updatedAt = now\<rparr>"
  have c: "snd (PromptModel_create newId now input table) = table @ [?row]"
    by (simp add: PromptModel_create_def Let_def)
  have nid: "newId \<notin> prompt_id ` set table" and nups: "newId \<notin> fst ` set ups"
    and ups: "fst ` set ups \<inter> prompt_id ` set table = {}"
    using ids fresh by auto
  have d: "distinct (map prompt_id (table @ [?row]))" using unique nid by simp
  have f: "distinct (map fst ups)" using ids by simp
  have i: "fst ` set ups \<inter> prompt_id ` set (table @ [?row]) = {}" using nups ups by simp
  have v: "versionsOf ?org ?n ?t (table @ [?row]) = [] @ [?row]"
    using none by (simp add: versionsOf_def)
  have a: "isActive ?row" by simp
  have idr: "prompt_id ?row = newId" by simp
  note chain = update_chain_versions [OF d f i keep v a, unfolded idr, folded c, folded rows]
  have p1: "map prompt_id rows = newId # map fst ups"
    using chain by simp
  have p2: "map version rows = map (\<lambda>k. 1 + int k) [0..<Suc (length ups)]"
    using chain by simp
  have p3: "map parentPromptId rows = None # map Some (butlast (newId # map fst ups))"
    using chain by simp
  have p4: "map isActive rows = replicate (length ups) False @ [True]"
    using chain by simp
  have one: "length (filter isActive rows) = 1"
  proof -
    have "length (filter isActive rows) = length (filter (\<lambda>b. b) (map isActive rows))"
      by (simp add: filter_map comp_def)
    also have "\<dots> = 1" unfolding p4 by simp
    finally show ?thesis .
  qed
  have step: "\<forall>i cur newId' now' input' table'.
            PromptModel_findById table' i = Some cur \<and> newId' \<noteq> i \<longrightarrow>
              (\<exists>new table''.
                 PromptModel_update newId' now' i input' table' = (Some new, table'')
               \<and> new \<in> set table''
               \<and> version new = version cur + 1 \<and> parentPromptId new = Some i \<and> isActive new
               \<and> (\<forall>p \<in> set table''. prompt_id p = i \<longrightarrow> \<not> isActive p))"
  proof (intro allI impI)
    fix i cur newId' now' table' and input' :: updatePromptInput
    assume h: "PromptModel_findById table' i = Some cur \<and> newId' \<noteq> i"
    let ?T1 = "map (\<lambda>p. if prompt_id p = i
                     then p\<lparr>isActive := False, prompt_updatedAt := now'\<rparr> else p) table'"
    let ?new = "\<lparr>prompt_id = newId', organizationId = organizationId cur,
                  name = orElse (update_name input') (name cur), ptype = ptype cur,
                  content = orElse (update_content input') (content cur),
                  version = version cur + 1, parentPromptId = Some i,
                  isActive = True, createdBy = update_createdBy input',
                  createdAt = now', prompt_updatedAt = now'\<rparr>"
    have u: "PromptModel_update newId' now' i input' table' = (Some ?new, ?T1 @ [?new])"
      using h by (simp add: PromptModel_update_def Let_def)
    have off: "\<forall>p \<in> set (?T1 @ [?new]). prompt_id p = i \<longrightarrow> \<not> isActive p"
    proof (intro ballI impI)
      fix p assume p: "p \<in> set (?T1 @ [?new])" and pid: "prompt_id p = i"
      from p have "p \<in> set ?T1 \<or> p = ?new"
        by (simp only: set_append Un_iff list.set insert_iff empty_iff simp_thms)
      then show "\<not> isActive p"
      proof
        assume "p \<in> set ?T1"
        then obtain q where "p = (if prompt_id q = i
                     then q\<lparr>isActive := False, prompt_updatedAt := now'\<rparr> else q)"
          unfolding set_map by (rule imageE)
        with pid show ?thesis by (cases "prompt_id q = i") simp_all
      next
        assume "p = ?new"
        with pid h show ?thesis by simp
      qed
    qed
    have "?new \<in> set (?T1 @ [?new]) \<and> version ?new = version cur + 1
        \<and> parentPromptId ?new = Some i \<and> isActive ?new" by simp
    with u off show "\<exists>new table''.
                 PromptModel_update newId' now' i input' table' = (Some new, table'')
               \<and> new \<in> set table''
               \<and> version new = version cur + 1 \<and> parentPromptId new = Some i \<and> isActive new
               \<and> (\<forall>p \<in> set table''. prompt_id p = i \<longrightarrow> \<not> isActive p)"
      by blast
  qed
  show ?thesis using step p1 p2 p3 p4 one by (intro conjI)
qed

theorem prompt_version_chain_witness:
  "map (\<lambda>p. (prompt_id p, version p, parentPromptId p, isActive p))
     (versionsOf ''org-1'' ''greeting'' System
        (update_chain ''p1'' [(''p2'', 2, newContent ''Hi''), (''p3'', 3, newContent ''Hey'')]
           (snd (PromptModel_create ''p1'' 1 greeting []))))
     = [(''p1'', 1, None, False), (''p2'', 2, Some ''p1'', False), (''p3'', 3, Some ''p2'', True)]"
proof -
  let ?ups = "[(''p2'', 2, newContent ''Hi''), (''p3'', 3, newContent ''Hey'')]"
  let ?rows = "versionsOf ''org-1'' ''greeting'' System
        (update_chain ''p1'' ?ups (snd (PromptModel_create ''p1'' 1 greeting [])))"
  have r: "?rows = versionsOf (input_organizationId greeting) (input_name greeting)
                   (input_type greeting)
                   (update_chain ''p1'' ?ups (snd (PromptModel_create ''p1'' 1 greeting [])))"
    by (simp add: greeting_def)
  have "map prompt_id ?rows = [''p1'', ''p2'', ''p3'']
      \<and> map version ?rows = [1, 2, 3]
      \<and> map parentPromptId ?rows = [None, Some ''p1'', Some ''p2'']
      \<and> map isActive ?rows = [False, False, True]"
    using prompt_version_chain [of "''p1''" ?ups "[]" greeting ?rows 1, OF _ _ _ _ _ r]
    by (simp add: versionsOf_def orElse_def newContent_def upt_rec numeral_2_eq_2)
  then have "length ?rows = 3
      \<and> map prompt_id ?rows = [''p1'', ''p2'', ''p3'']
      \<and> map version ?rows = [1, 2, 3]
      \<and> map parentPromptId ?rows = [None, Some ''p1'', Some ''p2'']
      \<and> map isActive ?rows = [False, False, True]"
    by (metis length_map length_Cons list.size(3) numeral_3_eq_3)
  then show ?thesis
    by (auto simp: length_Suc_conv numeral_3_eq_3)
qed

section \<open>Verification: the Anthropic messages handler\<close>

lemma toolUseWrites_simps [simp]:
  "toolUseWrites [] = []"
  "toolUseWrites (xs @ ys) = toolUseWrites xs @ toolUseWrites ys"
  "toolUseWrites (Write (Forwarded event) # xs) =
     (if isToolUseEvent event then event # toolUseWrites xs else toolUseWrites xs)"
  "toolUseWrites (Write (TextDeltaEvent t) # xs) = toolUseWrites xs"
  "toolUseWrites (Write MessageDeltaEndTurn # xs) = toolUseWrites xs"
  "toolUseWrites (Write MessageStop # xs) = toolUseWrites xs"
  "toolUseWrites (End # xs) = toolUseWrites xs"
  "toolUseWrites (Call_messages_stream r # xs) = toolUseWrites xs"
  "toolUseWrites (Call_evaluatePolicies p a b # xs) = toolUseWrites xs"
  "toolUseWrites (Call_InteractionModel_create i # xs) = toolUseWrites xs"
  by (simp_all add: toolUseWrites_def)

lemma toolUseWrites_flush [simp]:
  "toolUseWrites (flushToolUseEvents toolCalls evs)
     = filter isToolUseEvent (withAccumulatedInput toolCalls evs)"
  by (simp add: flushToolUseEvents_def toolUseWrites_def comp_def concat_map_singleton)

lemma onEvent_facts:
  assumes "onEvent c event acc = (written, acc')"
  shows "events acc' = events acc @ [event]"
    and "toolUseWrites written = []"
    and "map strip (accumulatedToolCalls acc')
           = map strip (accumulatedToolCalls acc) @ map strip (startedBlocks [event])"
proof -
  show "events acc' = events acc @ [event]"
    using assms
    by (auto simp: onEvent_def Let_def
        split: stream_event.splits delta.splits content_block.splits list.splits)
  show "toolUseWrites written = []"
    using assms
    by (auto simp: onEvent_def Let_def isToolUseEvent_def
        split: stream_event.splits delta.splits content_block.splits list.splits)
  have last: "map strip (rev earlier @ [l\<lparr>tool_use_input := x\<rparr>]) = map strip xs"
    if "rev xs = l # earlier" for xs earlier l x
  proof -
    from that have "xs = rev earlier @ [l]" by (metis rev.simps(2) rev_rev_ident)
    then show ?thesis by (simp add: strip_def)
  qed
  show "map strip (accumulatedToolCalls acc')
           = map strip (accumulatedToolCalls acc) @ map strip (startedBlocks [event])"
    using assms
    by (auto simp: onEvent_def Let_def last strip_def
        split: stream_event.splits delta.splits content_block.splits list.splits)
qed

lemma startedBlocks_Cons: "startedBlocks (e # evs) = startedBlocks [e] @ startedBlocks evs"
  by (cases "(e # evs)" rule: startedBlocks.cases) auto

lemma consume_facts:
  "consume c evs acc = (written, acc') \<Longrightarrow>
     events acc' = events acc @ evs \<and> toolUseWrites written = [] \<and>
     map strip (accumulatedToolCalls acc')
       = map strip (accumulatedToolCalls acc) @ map strip (startedBlocks evs)"
proof (induction evs arbitrary: acc written acc')
  case Nil
  then show ?case by simp
next
  case (Cons e evs)
  obtain w1 acc1 where one: "onEvent c e acc = (w1, acc1)" by (cases "onEvent c e acc")
  obtain w2 acc2 where rest: "consume c evs acc1 = (w2, acc2)" by (cases "consume c evs acc1")
  from Cons.prems one rest have eq: "written = w1 @ w2" "acc' = acc2" by auto
  note f1 = onEvent_facts [OF one]
  note f2 = Cons.IH [OF rest]
  show ?case
    unfolding eq using f1 f2
    by (simp add: startedBlocks_Cons [of e evs])
qed

lemma onEvent_no_policy_call:
  assumes "onEvent c event acc = (written, acc')"
  shows "Call_evaluatePolicies calls a b \<notin> set written"
  using assms
  by (auto simp: onEvent_def Let_def
      split: stream_event.splits delta.splits content_block.splits list.splits)

lemma consume_no_policy_call:
  "consume c evs acc = (written, acc') \<Longrightarrow> Call_evaluatePolicies calls a b \<notin> set written"
proof (induction evs arbitrary: acc written acc')
  case Nil
  then show ?case by simp
next
  case (Cons e evs)
  obtain w1 acc1 where one: "onEvent c e acc = (w1, acc1)" by (cases "onEvent c e acc")
  obtain w2 acc2 where rest: "consume c evs acc1 = (w2, acc2)" by (cases "consume c evs acc1")
  from Cons.prems one rest have eq: "written = w1 @ w2" by auto
  show ?case
    unfolding eq using onEvent_no_policy_call [OF one] Cons.IH [OF rest] by simp
qed

lemma withAccumulatedInput_same:
  "map strip toolCalls = map strip (startedBlocks evs) \<Longrightarrow>
     map withoutInput (filter isToolUseEvent (withAccumulatedInput toolCalls evs))
       = map withoutInput (filter isToolUseEvent evs)"
proof (induction toolCalls evs rule: withAccumulatedInput.induct)
  case (1 toolCalls)
  then show ?case by simp
next
  case (2 toolCalls i block evs)
  then show ?case
    by (cases toolCalls) (auto simp: withoutInput_def strip_def isToolUseEvent_def)
qed (auto simp: withoutInput_def isToolUseEvent_def)

lemma fst_andThen:
  "fst (andThen m f) = fst m @ (case snd m of Inl e \<Rightarrow> [] | Inr a \<Rightarrow> fst (f a))"
  by (cases m) (auto simp: andThen_def split: sum.splits prod.splits)

lemma andThen_Inr: "andThen (es, Inr a) f = (es @ fst (f a), snd (f a))"
  by (simp add: andThen_def split: prod.splits)

lemma andThen_Inl: "andThen (es, Inl e) f = (es, Inl e)"
  by (simp add: andThen_def)

lemma onlyMessages_Nil [simp]: "onlyMessages []"
  by (simp add: onlyMessages_def persistedInteractions_def)

lemma onlyMessages_append [simp]:
  "onlyMessages (xs @ ys) = (onlyMessages xs \<and> onlyMessages ys)"
  by (auto simp: onlyMessages_def persistedInteractions_def)

lemma onlyMessages_Cons:
  "onlyMessages (e # xs) =
     ((case e of Call_InteractionModel_create i \<Rightarrow> interaction_type i = ''anthropic:messages''
       | _ \<Rightarrow> True) \<and> onlyMessages xs)"
  by (auto simp: onlyMessages_def persistedInteractions_def split: effect.splits)

lemma onlyMessages_andThen:
  "onlyMessages (fst m) \<Longrightarrow> (\<And>a. onlyMessages (fst (f a))) \<Longrightarrow> onlyMessages (fst (andThen m f))"
  by (simp add: fst_andThen split: sum.splits)

lemma onlyMessages_call:
  "(case e of Call_InteractionModel_create i \<Rightarrow> interaction_type i = ''anthropic:messages''
       | _ \<Rightarrow> True) \<Longrightarrow> onlyMessages (fst (call e r))"
  by (simp add: call_def onlyMessages_Cons)

lemma onlyMessages_returns [simp]: "onlyMessages (fst (returns a))"
  by (simp add: returns_def)

lemma onlyMessages_map_Write [simp]: "onlyMessages (map (\<lambda>x. Write (g x)) xs)"
  by (induction xs) (simp_all add: onlyMessages_Cons)

lemma onlyMessages_flush [simp]: "onlyMessages (flushToolUseEvents tcs evs)"
  by (simp add: flushToolUseEvents_def)

lemma onlyMessages_persistAndSend: "onlyMessages (fst (persistAndSend c body a r))"
  by (simp add: persistAndSend_def Let_def fst_andThen call_def emit_def onlyMessages_Cons
      split: sum.splits)

lemma onlyMessages_consume:
  "consume c evs acc = (written, acc') \<Longrightarrow> onlyMessages written"
proof (induction evs arbitrary: acc written acc')
  case Nil
  then show ?case by simp
next
  case (Cons e evs)
  obtain w1 acc1 where one: "onEvent c e acc = (w1, acc1)" by (cases "onEvent c e acc")
  obtain w2 acc2 where rest: "consume c evs acc1 = (w2, acc2)" by (cases "consume c evs acc1")
  from Cons.prems one rest have eq: "written = w1 @ w2" by auto
  have "onlyMessages w1"
    using one
    by (auto simp: onEvent_def Let_def onlyMessages_Cons
        split: stream_event.splits delta.splits content_block.splits list.splits)
  with Cons.IH [OF rest] show ?case by (simp add: eq)
qed

lemma onlyMessages_streamingBranch:
  "onlyMessages (fst (streamingBranch c body a fm t))"
proof -
  let ?acc0 = "\<lparr>events = [], accumulatedText = [], accumulatedToolCalls = []\<rparr>"
  obtain streamed thrown where s: "messages_stream c (body\<lparr>request_messages := fm\<rparr>) = (streamed, thrown)"
    by (cases "messages_stream c (body\<lparr>request_messages := fm\<rparr>)")
  obtain written acc where cons: "consume c streamed ?acc0 = (written, acc)"
    by (cases "consume c streamed ?acc0")
  note w = onlyMessages_consume [OF cons]
  show ?thesis
    unfolding streamingBranch_def Let_def s cons prod.case
    by (intro onlyMessages_andThen onlyMessages_call)
       (simp_all add: w onlyMessages_Cons emit_def call_def fst_andThen
          split: option.splits prod.splits sum.splits)
qed

lemma onlyMessages_unaryBranch:
  "onlyMessages (fst (unaryBranch c body a mt fm t))"
  unfolding unaryBranch_def Let_def
  by (intro onlyMessages_andThen onlyMessages_call)
     (simp_all add: onlyMessages_persistAndSend onlyMessages_Cons call_def fst_andThen
        split: option.splits prod.splits sum.splits)

lemma onlyMessages_injectTools: "onlyMessages (fst (injectTools c ts a))"
  by (simp add: injectTools_def Let_def fst_andThen call_def onlyMessages_Cons split: sum.splits)

lemma onlyMessages_callbacks [simp]: "onlyMessages (map callbackEvent cbs)"
  by (induction cbs) (simp_all add: onlyMessages_Cons callbackEvent_def split: callback.splits)

lemma onlyMessages_try: "onlyMessages (fst (handleMessages_try c body headers a))"
  unfolding handleMessages_try_def Let_def
  by (intro onlyMessages_andThen)
     (auto simp: onlyMessages_Cons call_def emit_def onlyMessages_injectTools callbackEvent_def
        onlyMessages_streamingBranch onlyMessages_unaryBranch comp_def
        split: option.splits prod.splits callback.splits)

lemma onlyMessages_handleMessages: "onlyMessages (fst (handleMessages c body headers agentId))"
proof -
  have t: "onlyMessages (fst (case handleMessages_try c body headers a of
                 (es, Inr u) \<Rightarrow> (es, Inr u)
               | (es, Inl (Exn status message)) \<Rightarrow>
                   (es @ [Status (case status of Some s \<Rightarrow> s | None \<Rightarrow> 500),
                          Send (ErrorBody message ''api_error'')],
                    Inr ())))" for a
  proof (cases "handleMessages_try c body headers a")
    case (Pair es r)
    with onlyMessages_try [of c body headers a] have es: "onlyMessages es" by simp
    show ?thesis
    proof (cases r)
      case (Inl e)
      then show ?thesis using Pair es by (cases e) (simp add: onlyMessages_Cons)
    next
      case (Inr u)
      then show ?thesis using Pair es by simp
    qed
  qed
  have k: "onlyMessages (fst (case r of
            None \<Rightarrow>
              emit [Status 404,
                    Send (ErrorBody
                      (''Agent with ID '' @ (case agentId of Some i \<Rightarrow> i | None \<Rightarrow> [])
                       @ '' not found'') ''not_found'')]
          | Some resolved \<Rightarrow>
              (case handleMessages_try c body headers resolved of
                 (es, Inr u) \<Rightarrow> (es, Inr u)
               | (es, Inl (Exn status message)) \<Rightarrow>
                   (es @ [Status (case status of Some s \<Rightarrow> s | None \<Rightarrow> 500),
                          Send (ErrorBody message ''api_error'')],
                    Inr ()))))" for r
    by (cases r) (simp_all only: option.case t, simp add: emit_def onlyMessages_Cons)
  show ?thesis
    unfolding handleMessages_def
    by (intro onlyMessages_andThen k)
       (simp add: onlyMessages_Cons call_def fst_andThen split: option.splits sum.splits)
qed

lemma upstreamCalls_append [simp]:
  "upstreamCalls (xs @ ys) = upstreamCalls xs @ upstreamCalls ys"
  by (simp add: upstreamCalls_def)

lemma upstreamCalls_Cons:
  "upstreamCalls (e # xs) =
     (case e of Call_messages_stream r \<Rightarrow> [r] | Call_messages_create r \<Rightarrow> [r] | _ \<Rightarrow> [])
     @ upstreamCalls xs"
  by (simp add: upstreamCalls_def)

lemma upstreamCalls_Nil [simp]: "upstreamCalls [] = []"
  by (simp add: upstreamCalls_def)

lemma upstreamCalls_callbacks [simp]: "upstreamCalls (map callbackEvent cbs) = []"
  by (induction cbs) (simp_all add: upstreamCalls_Cons callbackEvent_def split: callback.splits)

lemma streamingBranch_first:
  "\<exists>rest. fst (streamingBranch c body a fm t)
            = Call_messages_stream (body\<lparr>request_messages := fm\<rparr>) # rest"
  by (simp add: streamingBranch_def Let_def fst_andThen split: prod.splits)

lemma unaryBranch_first:
  "\<exists>r rest. fst (unaryBranch c body a mt fm t) = Call_messages_create r # rest
            \<and> request_messages r = fm"
  by (simp add: unaryBranch_def Let_def fst_andThen call_def)

lemma try_reaches_upstream:
  assumes pt: "\<forall>ts. request_tools body = Some ts \<longrightarrow> persistTools c (transformTools ts) i = Inr ()"
      and at: "getAssignedMCPTools c i = Inr assigned"
      and ev: "evaluateIfContextIsTrusted c (toCommonFormat c (request_messages body)) i
                 (x_api_key headers) = (callbacks, Inr (updates, isTrusted))"
  shows "\<exists>r rest.
           fst (handleMessages_try c body headers i)
             = preamble c body headers i callbacks
               @ (if request_stream body then Call_messages_stream r else Call_messages_create r)
               # rest
         \<and> request_messages r = applyUpdates c (request_messages body) updates"
proof -
  let ?fm = "applyUpdates c (request_messages body) updates"
  obtain mt where inj: "injectTools c (request_tools body) i = ([Call_getAssignedMCPTools i], Inr mt)"
    by (simp add: injectTools_def Let_def andThen_def call_def returns_def at)
  let ?branch = "if request_stream body then streamingBranch c body i ?fm isTrusted
                 else unaryBranch c body i mt ?fm isTrusted"
  have first: "\<exists>r rest. fst ?branch
                 = (if request_stream body then Call_messages_stream r else Call_messages_create r)
                   # rest
               \<and> request_messages r = ?fm"
  proof (cases "request_stream body")
    case True
    from streamingBranch_first [of c body i ?fm isTrusted] obtain rest
      where "fst (streamingBranch c body i ?fm isTrusted)
            = Call_messages_stream (body\<lparr>request_messages := ?fm\<rparr>) # rest" ..
    then have "fst ?branch = Call_messages_stream (body\<lparr>request_messages := ?fm\<rparr>) # rest
        \<and> request_messages (body\<lparr>request_messages := ?fm\<rparr>) = ?fm"
      using True by simp
    then show ?thesis using True by (intro exI [of _ "body\<lparr>request_messages := ?fm\<rparr>"]) auto
  next
    case False
    from unaryBranch_first [of c body i mt ?fm isTrusted] obtain r rest
      where "fst (unaryBranch c body i mt ?fm isTrusted) = Call_messages_create r # rest"
        and "request_messages r = ?fm" by blast
    then show ?thesis using False by auto
  qed
  have tr: "fst (handleMessages_try c body headers i) = preamble c body headers i callbacks @ fst ?branch"
  proof (cases "request_tools body")
    case None
    show ?thesis
      by (simp add: handleMessages_try_def preamble_def None inj [unfolded None] ev Let_def
          andThen_def returns_def emit_def split: prod.splits)
  next
    case (Some ts)
    with pt have p: "persistTools c (transformTools ts) i = Inr ()" by simp
    show ?thesis
      by (simp add: handleMessages_try_def preamble_def Some p inj [unfolded Some] ev Let_def
          andThen_def returns_def emit_def call_def split: prod.splits)
  qed
  from first obtain r rest
    where b: "fst ?branch
                 = (if request_stream body then Call_messages_stream r else Call_messages_create r)
                   # rest"
      and r: "request_messages r = ?fm" by blast
  have "fst (handleMessages_try c body headers i)
      = preamble c body headers i callbacks
        @ (if request_stream body then Call_messages_stream r else Call_messages_create r) # rest"
    unfolding tr b ..
  with r show ?thesis by blast
qed

text \<open>The two ways the agent of a request is resolved.\<close>

lemma handler_reaches_upstream:
  assumes ag: "(agentId = Some i \<and> i \<noteq> [] \<and> findById c i = Inr True)
             \<or> ((agentId = None \<or> agentId = Some [])
                 \<and> getAgentIdFromRequest c (user_agent headers) = Inr i)"
      and pt: "\<forall>ts. request_tools body = Some ts \<longrightarrow> persistTools c (transformTools ts) i = Inr ()"
      and at: "getAssignedMCPTools c i = Inr assigned"
      and ev: "evaluateIfContextIsTrusted c (toCommonFormat c (request_messages body)) i
                 (x_api_key headers) = (callbacks, Inr (updates, isTrusted))"
  shows "\<exists>r rest.
           fst (handleMessages c body headers agentId)
             = (if agentId = Some i \<and> i \<noteq> [] then Call_findById i
                else Call_getAgentIdFromRequest (user_agent headers))
               # preamble c body headers i callbacks
               @ (if request_stream body then Call_messages_stream r else Call_messages_create r)
               # rest
         \<and> request_messages r = applyUpdates c (request_messages body) updates"
proof -
  let ?first = "if agentId = Some i \<and> i \<noteq> [] then Call_findById i
                else Call_getAgentIdFromRequest (user_agent headers)"
  from try_reaches_upstream [OF pt at ev] obtain r rest
    where up: "fst (handleMessages_try c body headers i)
                 = preamble c body headers i callbacks
                   @ (if request_stream body then Call_messages_stream r
                      else Call_messages_create r) # rest"
      and r: "request_messages r = applyUpdates c (request_messages body) updates" by blast
  obtain es res where t: "handleMessages_try c body headers i = (es, res)"
    by (cases "handleMessages_try c body headers i")
  have "\<exists>post. fst (handleMessages c body headers agentId) = ?first # es @ post"
    using ag
  proof
    assume a: "agentId = Some i \<and> i \<noteq> [] \<and> findById c i = Inr True"
    show ?thesis
    proof (cases res)
      case (Inl e)
      obtain status message where e: "e = Exn status message" by (cases e)
      show ?thesis
        by (rule exI [of _ "[Status (case status of Some s \<Rightarrow> s | None \<Rightarrow> 500),
                            Send (ErrorBody message ''api_error'')]"])
           (simp add: handleMessages_def a andThen_def call_def returns_def t Inl e)
    next
      case (Inr u)
      show ?thesis
        by (rule exI [of _ "[]"])
           (simp add: handleMessages_def a andThen_def call_def returns_def t Inr)
    qed
  next
    assume a: "(agentId = None \<or> agentId = Some [])
                 \<and> getAgentIdFromRequest c (user_agent headers) = Inr i"
    then have f: "?first = Call_getAgentIdFromRequest (user_agent headers)" by auto
    from a have g: "getAgentIdFromRequest c (user_agent headers) = Inr i" by simp
    from a have "agentId = None \<or> agentId = Some []" by simp
    then show ?thesis
    proof
      assume n: "agentId = None"
      show ?thesis
      proof (cases res)
        case (Inl e)
        obtain status message where e: "e = Exn status message" by (cases e)
        show ?thesis
          unfolding f
          by (rule exI [of _ "[Status (case status of Some s \<Rightarrow> s | None \<Rightarrow> 500),
                              Send (ErrorBody message ''api_error'')]"])
             (simp add: handleMessages_def n g andThen_def call_def returns_def t Inl e)
      next
        case (Inr u)
        show ?thesis
          unfolding f
          by (rule exI [of _ "[]"])
             (simp add: handleMessages_def n g andThen_def call_def returns_def t Inr)
      qed
    next
      assume n: "agentId = Some []"
      show ?thesis
      proof (cases res)
        case (Inl e)
        obtain status message where e: "e = Exn status message" by (cases e)
        show ?thesis
          unfolding f
          by (rule exI [of _ "[Status (case status of Some s \<Rightarrow> s | None \<Rightarrow> 500),
                              Send (ErrorBody message ''api_error'')]"])
             (simp add: handleMessages_def n g andThen_def call_def returns_def t Inl e)
      next
        case (Inr u)
        show ?thesis
          unfolding f
          by (rule exI [of _ "[]"])
             (simp add: handleMessages_def n g andThen_def call_def returns_def t Inr)
      qed
    qed
  qed
  then obtain post
    where whole: "fst (handleMessages c body headers agentId) = ?first # es @ post" ..
  have es: "es = preamble c body headers i callbacks
                   @ (if request_stream body then Call_messages_stream r
                      else Call_messages_create r) # rest"
    using up t by simp
  have "fst (handleMessages c body headers agentId)
      = ?first # preamble c body headers i callbacks
          @ (if request_stream body then Call_messages_stream r else Call_messages_create r)
          # (rest @ post)"
    unfolding whole es by simp
  with r show ?thesis by blast
qed
subsection \<open>Refusal or flush after the stream\<close>

text \<open>
  Claim C3, as stated, fails in its second half. The evaluator is called only when the
  stream started a \<^verbatim>\<open>tool_use\<close> block. A stream whose only tool-use event is an
  \<^verbatim>\<open>input_json_delta\<close> with no block before it ends with no refusal, and the buffered
  event is not written: the handler calls the upstream stream, persists the interaction
  and closes the response.
\<close>

theorem streaming_orphan_counterexample:
  "filter isToolUseEvent orphanEvents = [ContentBlockDelta 0 (InputJsonDelta ''{}'')]
   \<and> fst (streamingBranch orphanServices (exampleRequest True) ''agent-1'' [''Read my inbox'']
            True)
     = [Call_messages_stream (exampleRequest True),
        Call_InteractionModel_create
          \<lparr>interaction_agentId = ''agent-1'',
           interaction_type = ''anthropic:messages'',
           interaction_request = exampleRequest True,
           interaction_response =
             \<lparr>response_id = ''msg_2'', response_content = [Text []],
              response_model = ''claude-3-5-sonnet'',
              response_stop_reason = ''end_turn'', response_usage = (12, 7)\<rparr>\<rparr>,
        Write MessageDeltaEndTurn, Write MessageStop, End]
   \<and> toolUseWrites
        (fst (streamingBranch orphanServices (exampleRequest True) ''agent-1''
               [''Read my inbox''] True)) = []"
proof -
  have run: "fst (streamingBranch orphanServices (exampleRequest True) ''agent-1''
               [''Read my inbox''] True)
     = [Call_messages_stream (exampleRequest True),
        Call_InteractionModel_create
          \<lparr>interaction_agentId = ''agent-1'',
           interaction_type = ''anthropic:messages'',
           interaction_request = exampleRequest True,
           interaction_response =
             \<lparr>response_id = ''msg_2'', response_content = [Text []],
              response_model = ''claude-3-5-sonnet'',
              response_stop_reason = ''end_turn'', response_usage = (12, 7)\<rparr>\<rparr>,
        Write MessageDeltaEndTurn, Write MessageStop, End]"
    by (simp add: streamingBranch_def andThen_def call_def emit_def returns_def Let_def
        onEvent_def streamedResponse_def messageStartOf_def
        orphanServices_def orphanEvents_def exampleServices_def exampleRequest_def)
  have ev: "filter isToolUseEvent orphanEvents = [ContentBlockDelta 0 (InputJsonDelta ''{}'')]"
    by (simp add: orphanEvents_def isToolUseEvent_def)
  show ?thesis unfolding run using ev by (simp add: toolUseWrites_def)
qed

text \<open>
  Claim C3, amended. In the streaming branch, when the upstream stream has completed:
  \<^item> if the stream started at least one \<^verbatim>\<open>tool_use\<close> block, the tool-invocation evaluator
    is called on the accumulated tool calls. If it returns a refusal pair, the handler
    writes the user refusal as a text delta and writes no \<^verbatim>\<open>tool_use\<close>
    \<^verbatim>\<open>content_block_start\<close> and no \<^verbatim>\<open>input_json_delta\<close> event. If it returns null, the
    tool-use events written are exactly the tool-use events received, in the order
    received, a start event being serialised with the input accumulated for its block. If
    it throws, no tool-use event is written.
  \<^item> if the stream started no \<^verbatim>\<open>tool_use\<close> block, the evaluator is not called and no
    tool-use event is written.
\<close>

theorem streaming_refusal_or_flush:
  assumes s: "messages_stream c (body\<lparr>request_messages := filteredMessages\<rparr>) = (streamed, None)"
      and t: "toolCalls =
                map (\<lambda>toolCall. toolCall\<lparr>tool_use_input := parseInput c (tool_use_input toolCall)\<rparr>)
                  (accumulatedToolCalls
                     (snd (consume c streamed
                            \<lparr>events = [], accumulatedText = [], accumulatedToolCalls = []\<rparr>)))"
      and p: "policyInput = map (\<lambda>toolCall. (tool_use_name toolCall, tool_use_input toolCall)) toolCalls"
      and tr: "trace = fst (streamingBranch c body agentId filteredMessages contextIsTrusted)"
  shows "(toolCalls = []) = (startedBlocks streamed = [])
       \<and> (toolCalls \<noteq> [] \<longrightarrow>
            Call_evaluatePolicies policyInput agentId contextIsTrusted \<in> set trace
          \<and> (\<forall>refusalMessage contentMessage.
                evaluatePolicies c policyInput agentId contextIsTrusted
                  = Inr (Some (refusalMessage, contentMessage)) \<longrightarrow>
                Write (TextDeltaEvent contentMessage) \<in> set trace \<and> toolUseWrites trace = [])
          \<and> (evaluatePolicies c policyInput agentId contextIsTrusted = Inr None \<longrightarrow>
                toolUseWrites trace = filter isToolUseEvent (withAccumulatedInput toolCalls streamed)
              \<and> map withoutInput (toolUseWrites trace)
                  = map withoutInput (filter isToolUseEvent streamed))
          \<and> (\<forall>e. evaluatePolicies c policyInput agentId contextIsTrusted = Inl e \<longrightarrow>
                toolUseWrites trace = []))
       \<and> (toolCalls = [] \<longrightarrow>
            toolUseWrites trace = []
          \<and> (\<forall>calls a b. Call_evaluatePolicies calls a b \<notin> set trace))"
proof -
  let ?acc0 = "\<lparr>events = [], accumulatedText = [], accumulatedToolCalls = []\<rparr>"
  obtain written acc where cons: "consume c streamed ?acc0 = (written, acc)"
    by (cases "consume c streamed ?acc0")
  from consume_facts [OF cons]
  have ev: "events acc = streamed" and nw: "toolUseWrites written = []"
    and calls: "map strip (accumulatedToolCalls acc) = map strip (startedBlocks streamed)"
    by simp_all
  from consume_no_policy_call [OF cons]
  have np: "\<And>calls a b. Call_evaluatePolicies calls a b \<notin> set written" .
  have tc: "toolCalls =
      map (\<lambda>toolCall. toolCall\<lparr>tool_use_input := parseInput c (tool_use_input toolCall)\<rparr>)
        (accumulatedToolCalls acc)"
    using t cons by simp
  have st: "map strip toolCalls = map strip (startedBlocks streamed)"
    unfolding tc calls [symmetric] by (simp add: strip_def)
  have empty: "(toolCalls = []) = (startedBlocks streamed = [])"
  proof -
    have "(toolCalls = []) = (map strip toolCalls = [])" by simp
    also have "\<dots> = (map strip (startedBlocks streamed) = [])" unfolding st ..
    finally show ?thesis by simp
  qed
  have none: "(toolCalls = []) = (accumulatedToolCalls acc = [])" using tc by simp
  have pin: "map ((\<lambda>toolCall. (tool_use_name toolCall, tool_use_input toolCall)) \<circ>
                   (\<lambda>toolCall. toolCall\<lparr>tool_use_input := parseInput c (tool_use_input toolCall)\<rparr>))
               (accumulatedToolCalls acc) = policyInput"
    unfolding p tc by simp
  have called: "Call_evaluatePolicies policyInput agentId contextIsTrusted \<in> set trace"
    if ne: "toolCalls \<noteq> []"
  proof -
    from ne none have ne': "accumulatedToolCalls acc \<noteq> []" by simp
    show ?thesis
      unfolding tr
      by (simp add: streamingBranch_def Let_def s cons ne' pin fst_andThen call_def)
  qed
  have refused: "Write (TextDeltaEvent cm) \<in> set trace \<and> toolUseWrites trace = []"
    if ne: "toolCalls \<noteq> []"
      and "evaluatePolicies c policyInput agentId contextIsTrusted = Inr (Some (rm, cm))" for rm cm
  proof -
    from ne none have ne': "accumulatedToolCalls acc \<noteq> []" by simp
    show ?thesis
      unfolding tr
      by (simp add: streamingBranch_def Let_def s cons ne' pin that(2) nw
          andThen_def call_def emit_def returns_def split: sum.splits)
  qed
  have allowed: "toolUseWrites trace = filter isToolUseEvent (withAccumulatedInput toolCalls streamed)"
    if ne: "toolCalls \<noteq> []"
      and "evaluatePolicies c policyInput agentId contextIsTrusted = Inr None"
  proof -
    from ne none have ne': "accumulatedToolCalls acc \<noteq> []" by simp
    show ?thesis
      unfolding tr
      by (simp add: streamingBranch_def Let_def s cons ne' pin that(2) nw ev tc
          andThen_def call_def emit_def returns_def split: sum.splits)
  qed
  have thrown: "toolUseWrites trace = []"
    if ne: "toolCalls \<noteq> []"
      and "evaluatePolicies c policyInput agentId contextIsTrusted = Inl e" for e
  proof -
    from ne none have ne': "accumulatedToolCalls acc \<noteq> []" by simp
    show ?thesis
      unfolding tr
      by (simp add: streamingBranch_def Let_def s cons ne' pin that(2) nw
          andThen_def call_def emit_def returns_def split: sum.splits)
  qed
  have orphan: "toolUseWrites trace = [] \<and> (\<forall>calls a b. Call_evaluatePolicies calls a b \<notin> set trace)"
    if e: "toolCalls = []"
  proof -
    from e none have e': "accumulatedToolCalls acc = []" by simp
    show ?thesis
      unfolding tr using np
      by (simp add: streamingBranch_def Let_def s cons e' nw
          andThen_def call_def emit_def returns_def split: sum.splits)
  qed
  show ?thesis
    using empty called refused allowed thrown orphan withAccumulatedInput_same [OF st]
    by (intro conjI impI allI) simp_all
qed

theorem streaming_refusal_or_flush_witness:
  "toolUseWrites (fst (streamingBranch (exampleServices (Some (''audit'', ''I cannot do that'')))
       (exampleRequest True) ''agent-1'' [''Read my inbox''] True)) = []
   \<and> Write (TextDeltaEvent ''I cannot do that'')
       \<in> set (fst (streamingBranch (exampleServices (Some (''audit'', ''I cannot do that'')))
                 (exampleRequest True) ''agent-1'' [''Read my inbox''] True))
   \<and> toolUseWrites (fst (streamingBranch (exampleServices None)
       (exampleRequest True) ''agent-1'' [''Read my inbox''] True))
     = [ContentBlockStart 1
          (ToolUse \<lparr>tool_use_id = ''toolu_1'', tool_use_name = ''get_emails'',
                    tool_use_input = ''{}''\<rparr>),
        ContentBlockDelta 1 (InputJsonDelta ''{''),
        ContentBlockDelta 1 (InputJsonDelta ''}'')]"
proof -
  let ?deny = "exampleServices (Some (''audit'', ''I cannot do that''))"
  let ?allow = "exampleServices None"
  let ?body = "exampleRequest True"
  let ?calls = "[\<lparr>tool_use_id = ''toolu_1'', tool_use_name = ''get_emails'',
                  tool_use_input = ''{}''\<rparr>]"
  have s: "messages_stream (exampleServices v) (?body\<lparr>request_messages := [''Read my inbox'']\<rparr>)
             = (exampleEvents, None)" for v
    by (simp add: exampleServices_def)
  have t: "?calls =
      map (\<lambda>toolCall. toolCall\<lparr>tool_use_input :=
               parseInput (exampleServices v) (tool_use_input toolCall)\<rparr>)
        (accumulatedToolCalls
           (snd (consume (exampleServices v) exampleEvents
                  \<lparr>events = [], accumulatedText = [], accumulatedToolCalls = []\<rparr>)))" for v
    by (simp add: exampleServices_def exampleEvents_def onEvent_def Let_def)
  have ne: "?calls \<noteq> []" by simp
  have d: "evaluatePolicies ?deny
             (map (\<lambda>toolCall. (tool_use_name toolCall, tool_use_input toolCall)) ?calls)
             ''agent-1'' True = Inr (Some (''audit'', ''I cannot do that''))"
    and a: "evaluatePolicies ?allow
             (map (\<lambda>toolCall. (tool_use_name toolCall, tool_use_input toolCall)) ?calls)
             ''agent-1'' True = Inr None"
    by (simp_all add: exampleServices_def)
  from streaming_refusal_or_flush
         [OF s t refl refl, where agentId = "''agent-1''" and contextIsTrusted = True] d
  have 1: "Write (TextDeltaEvent ''I cannot do that'')
             \<in> set (fst (streamingBranch ?deny ?body ''agent-1'' [''Read my inbox''] True))
         \<and> toolUseWrites (fst (streamingBranch ?deny ?body ''agent-1'' [''Read my inbox''] True)) = []"
    using ne by blast
  from streaming_refusal_or_flush
         [OF s t refl refl, where agentId = "''agent-1''" and contextIsTrusted = True] a
  have 2: "toolUseWrites (fst (streamingBranch ?allow ?body ''agent-1'' [''Read my inbox''] True))
         = filter isToolUseEvent (withAccumulatedInput ?calls exampleEvents)"
    using ne by blast
  have 3: "filter isToolUseEvent (withAccumulatedInput ?calls exampleEvents)
     = [ContentBlockStart 1
          (ToolUse \<lparr>tool_use_id = ''toolu_1'', tool_use_name = ''get_emails'',
                    tool_use_input = ''{}''\<rparr>),
        ContentBlockDelta 1 (InputJsonDelta ''{''),
        ContentBlockDelta 1 (InputJsonDelta ''}'')]"
    by (simp add: exampleEvents_def isToolUseEvent_def)
  from 1 2 3 show ?thesis by simp
qed

subsection \<open>No quota pre-check in the handler\<close>

text \<open>
  Claim C4, as stated, fails: \<^verbatim>\<open>handleMessages\<close> makes no quota pre-check. With an
  agent-level limit of 1000 tokens and usage (600, 500), where
  \<^verbatim>\<open>checkLimitsBeforeRequest\<close> returns a refusal pair, the request is still forwarded to
  the upstream provider and the interaction is persisted as \<^verbatim>\<open>anthropic:messages\<close>.
\<close>

theorem handler_forwards_counterexample:
  "fst (checkLimitsBeforeRequest (clockFrom 0) ''agent-1''
          (store \<lparr>store = exampleStore
                     [exampleLimit ''L1'' Agent ''agent-1'' None 1000 600 500 None] (\<lambda>q. False),
                  services = exampleServices None\<rparr>))
     = Inr (Some \<lparr>refusal_entityType = Agent, refusal_entityId = ''agent-1'',
              refusal_currentUsage = 1100, refusal_limitValue = 1000,
              refusal_comparisonValue = Num 1100, refusal_limitDescription = Tokens\<rparr>)
   \<and> upstreamCalls (fst (serve
          \<lparr>store = exampleStore
                     [exampleLimit ''L1'' Agent ''agent-1'' None 1000 600 500 None] (\<lambda>q. False),
           services = exampleServices None\<rparr>
          (exampleRequest True) exampleHeaders (Some ''agent-1'')))
     = [exampleRequest True]
   \<and> map interaction_type (persistedInteractions (fst (serve
          \<lparr>store = exampleStore
                     [exampleLimit ''L1'' Agent ''agent-1'' None 1000 600 500 None] (\<lambda>q. False),
           services = exampleServices None\<rparr>
          (exampleRequest True) exampleHeaders (Some ''agent-1''))))
     = [''anthropic:messages'']"
proof -
  have 1: "fst (checkLimitsBeforeRequest (clockFrom 0) ''agent-1''
          (exampleStore [exampleLimit ''L1'' Agent ''agent-1'' None 1000 600 500 None] (\<lambda>q. False)))
     = Inr (Some \<lparr>refusal_entityType = Agent, refusal_entityId = ''agent-1'',
              refusal_currentUsage = 1100, refusal_limitValue = 1000,
              refusal_comparisonValue = Num 1100, refusal_limitDescription = Tokens\<rparr>)"
    by (simp add: eval_defs example_defs)
  have 2: "fst (handleMessages (exampleServices None) (exampleRequest True) exampleHeaders
                 (Some ''agent-1''))
     = [Call_findById ''agent-1'', Call_getAssignedMCPTools ''agent-1'',
        Header ''Content-Type'' ''text/event-stream'',
        Header ''Cache-Control'' ''no-cache'',
        Header ''Connection'' ''keep-alive'',
        Call_evaluateIfContextIsTrusted [''Read my inbox''] ''agent-1'' ''sk-test'' True,
        Call_messages_stream (exampleRequest True),
        Write (Forwarded (ContentBlockDelta 0 (TextDelta ''Let me check.''))),
        Call_evaluatePolicies [(''get_emails'', ''{}'')] ''agent-1'' True,
        Write (Forwarded (ContentBlockStart 1
          (ToolUse \<lparr>tool_use_id = ''toolu_1'', tool_use_name = ''get_emails'',
                    tool_use_input = ''{}''\<rparr>))),
        Write (Forwarded (ContentBlockDelta 1 (InputJsonDelta ''{''))),
        Write (Forwarded (ContentBlockDelta 1 (InputJsonDelta ''}''))),
        Call_InteractionModel_create
          \<lparr>interaction_agentId = ''agent-1'',
           interaction_type = ''anthropic:messages'',
           interaction_request = exampleRequest True,
           interaction_response =
             \<lparr>response_id = ''msg_1'',
              response_content =
                [Text ''Let me check.'',
                 ToolUse \<lparr>tool_use_id = ''toolu_1'', tool_use_name = ''get_emails'',
                          tool_use_input = ''{}''\<rparr>],
              response_model = ''claude-3-5-sonnet'',
              response_stop_reason = ''end_turn'', response_usage = (12, 7)\<rparr>\<rparr>,
        Write MessageDeltaEndTurn, Write MessageStop, End]"
    by (simp add: handleMessages_def handleMessages_try_def streamingBranch_def injectTools_def
        andThen_def call_def emit_def returns_def Let_def onEvent_def flushToolUseEvents_def
        isToolUseEvent_def streamedResponse_def messageStartOf_def
        exampleServices_def exampleRequest_def exampleHeaders_def exampleEvents_def)
  show ?thesis
    unfolding serve_def world.simps 1 2
    by (simp add: upstreamCalls_def persistedInteractions_def)
qed

text \<open>
  Claim C4, amended. \<^verbatim>\<open>handleMessages\<close> makes no quota pre-check. Whenever the agent of
  the request resolves (the agent of the URL is found or, with no agent in the URL, the
  default agent is obtained from the user-agent header) and the persistence of the
  request's tools, the look-up of the assigned tools and the evaluation of the context
  succeed, the effects of the request begin with the resolution of the agent and those
  three calls (with the headers and the progress events of a stream between them) and go
  on with the call of the upstream provider, on the messages the trust evaluation left;
  nothing else precedes that call, whatever the store of limits holds. Every interaction
  the handler persists has type \<^verbatim>\<open>anthropic:messages\<close>, never \<^verbatim>\<open>anthropic:refusal\<close>.
\<close>

theorem handler_has_no_quota_check:
  "(\<forall>i \<in> set (persistedInteractions (fst (serve w body headers agentId))).
         interaction_type i = ''anthropic:messages'')
   \<and> (\<forall>i assigned callbacks updates isTrusted.
         ((agentId = Some i \<and> i \<noteq> [] \<and> findById (services w) i = Inr True)
          \<or> ((agentId = None \<or> agentId = Some [])
              \<and> getAgentIdFromRequest (services w) (user_agent headers) = Inr i))
         \<and> (\<forall>ts. request_tools body = Some ts \<longrightarrow>
               persistTools (services w) (transformTools ts) i = Inr ())
         \<and> getAssignedMCPTools (services w) i = Inr assigned
         \<and> evaluateIfContextIsTrusted (services w)
              (toCommonFormat (services w) (request_messages body)) i (x_api_key headers)
             = (callbacks, Inr (updates, isTrusted))
         \<longrightarrow> (\<exists>r rest.
                fst (serve w body headers agentId)
                  = [if agentId = Some i \<and> i \<noteq> [] then Call_findById i
                     else Call_getAgentIdFromRequest (user_agent headers)]
                    @ (case request_tools body of
                         None \<Rightarrow> [] | Some ts \<Rightarrow> [Call_persistTools (transformTools ts) i])
                    @ [Call_getAssignedMCPTools i]
                    @ (if request_stream body
                       then [Header ''Content-Type'' ''text/event-stream'',
                             Header ''Cache-Control'' ''no-cache'',
                             Header ''Connection'' ''keep-alive'']
                       else [])
                    @ [Call_evaluateIfContextIsTrusted
                         (toCommonFormat (services w) (request_messages body)) i
                         (x_api_key headers) (request_stream body)]
                    @ (if request_stream body then map callbackEvent callbacks else [])
                    @ [if request_stream body then Call_messages_stream r
                       else Call_messages_create r]
                    @ rest
                \<and> request_messages r
                    = applyUpdates (services w) (request_messages body) updates))"
proof (intro conjI allI impI)
  show "\<forall>i \<in> set (persistedInteractions (fst (serve w body headers agentId))).
         interaction_type i = ''anthropic:messages''"
    using onlyMessages_handleMessages [of "services w" body headers agentId]
    by (simp add: serve_def onlyMessages_def)
next
  fix i assigned callbacks updates isTrusted
  assume h: "((agentId = Some i \<and> i \<noteq> [] \<and> findById (services w) i = Inr True)
          \<or> ((agentId = None \<or> agentId = Some [])
              \<and> getAgentIdFromRequest (services w) (user_agent headers) = Inr i))
         \<and> (\<forall>ts. request_tools body = Some ts \<longrightarrow>
               persistTools (services w) (transformTools ts) i = Inr ())
         \<and> getAssignedMCPTools (services w) i = Inr assigned
         \<and> evaluateIfContextIsTrusted (services w)
              (toCommonFormat (services w) (request_messages body)) i (x_api_key headers)
             = (callbacks, Inr (updates, isTrusted))"
  note a1 = conjunct1 [OF h]
  note a4 = conjunct1 [OF conjunct2 [OF h]]
  note a5 = conjunct1 [OF conjunct2 [OF conjunct2 [OF h]]]
  note a6 = conjunct2 [OF conjunct2 [OF conjunct2 [OF h]]]
  from handler_reaches_upstream [OF a1 a4 a5 a6] obtain r rest
    where tr: "fst (handleMessages (services w) body headers agentId)
             = (if agentId = Some i \<and> i \<noteq> [] then Call_findById i
                else Call_getAgentIdFromRequest (user_agent headers))
               # preamble (services w) body headers i callbacks
               @ (if request_stream body then Call_messages_stream r else Call_messages_create r)
               # rest"
      and r: "request_messages r = applyUpdates (services w) (request_messages body) updates"
    by blast
  have "fst (serve w body headers agentId)
                  = [if agentId = Some i \<and> i \<noteq> [] then Call_findById i
                     else Call_getAgentIdFromRequest (user_agent headers)]
                    @ (case request_tools body of
                         None \<Rightarrow> [] | Some ts \<Rightarrow> [Call_persistTools (transformTools ts) i])
                    @ [Call_getAssignedMCPTools i]
                    @ (if request_stream body
                       then [Header ''Content-Type'' ''text/event-stream'',
                             Header ''Cache-Control'' ''no-cache'',
                             Header ''Connection'' ''keep-alive'']
                       else [])
                    @ [Call_evaluateIfContextIsTrusted
                         (toCommonFormat (services w) (request_messages body)) i
                         (x_api_key headers) (request_stream body)]
                    @ (if request_stream body then map callbackEvent callbacks else [])
                    @ [if request_stream body then Call_messages_stream r
                       else Call_messages_create r]
                    @ rest"
    unfolding serve_def tr preamble_def by simp
  with r show "\<exists>r rest.
                fst (serve w body headers agentId)
                  = [if agentId = Some i \<and> i \<noteq> [] then Call_findById i
                     else Call_getAgentIdFromRequest (user_agent headers)]
                    @ (case request_tools body of
                         None \<Rightarrow> [] | Some ts \<Rightarrow> [Call_persistTools (transformTools ts) i])
                    @ [Call_getAssignedMCPTools i]
                    @ (if request_stream body
                       then [Header ''Content-Type'' ''text/event-stream'',
                             Header ''Cache-Control'' ''no-cache'',
                             Header ''Connection'' ''keep-alive'']
                       else [])
                    @ [Call_evaluateIfContextIsTrusted
                         (toCommonFormat (services w) (request_messages body)) i
                         (x_api_key headers) (request_stream body)]
                    @ (if request_stream body then map callbackEvent callbacks else [])
                    @ [if request_stream body then Call_messages_stream r
                       else Call_messages_create r]
                    @ rest
                \<and> request_messages r
                    = applyUpdates (services w) (request_messages body) updates"
    by blast
qed

theorem handler_has_no_quota_check_witness:
  "(\<exists>r rest. fst (serve
        \<lparr>store = exampleStore threeLimits (\<lambda>q. False), services = exampleServices None\<rparr>
        (exampleRequest False) exampleHeaders (Some ''agent-1''))
      = [Call_findById ''agent-1'', Call_getAssignedMCPTools ''agent-1'',
         Call_evaluateIfContextIsTrusted [''Read my inbox''] ''agent-1'' ''sk-test'' False,
         Call_messages_create r] @ rest
      \<and> request_messages r = [''Read my inbox''])
   \<and> (\<exists>r rest. fst (serve
        \<lparr>store = exampleStore threeLimits (\<lambda>q. False), services = exampleServices None\<rparr>
        (exampleRequest True) exampleHeaders None)
      = [Call_getAgentIdFromRequest (Some ''curl''), Call_getAssignedMCPTools ''agent-1'',
         Header ''Content-Type'' ''text/event-stream'',
         Header ''Cache-Control'' ''no-cache'',
         Header ''Connection'' ''keep-alive'',
         Call_evaluateIfContextIsTrusted [''Read my inbox''] ''agent-1'' ''sk-test'' True,
         Call_messages_stream r] @ rest
      \<and> request_messages r = [''Read my inbox''])
   \<and> list_all (\<lambda>i. interaction_type i = ''anthropic:messages'')
        (persistedInteractions (fst (serve
          \<lparr>store = exampleStore threeLimits (\<lambda>q. False), services = exampleServices None\<rparr>
          (exampleRequest False) exampleHeaders (Some ''agent-1''))))"
proof -
  let ?w = "\<lparr>store = exampleStore threeLimits (\<lambda>q. False), services = exampleServices None\<rparr>"
  have h: "((Some ''agent-1'' = Some ''agent-1'' \<and> ''agent-1'' \<noteq> []
              \<and> findById (services ?w) ''agent-1'' = Inr True)
          \<or> ((Some ''agent-1'' = None \<or> Some ''agent-1'' = Some [])
              \<and> getAgentIdFromRequest (services ?w) (user_agent exampleHeaders) = Inr ''agent-1''))
         \<and> (\<forall>ts. request_tools (exampleRequest False) = Some ts \<longrightarrow>
               persistTools (services ?w) (transformTools ts) ''agent-1'' = Inr ())
         \<and> getAssignedMCPTools (services ?w) ''agent-1'' = Inr []
         \<and> evaluateIfContextIsTrusted (services ?w)
              (toCommonFormat (services ?w) (request_messages (exampleRequest False)))
              ''agent-1'' (x_api_key exampleHeaders)
             = ([], Inr ([], True))"
    by (simp add: exampleServices_def exampleRequest_def)
  have g: "(((None :: string option) = Some ''agent-1'' \<and> ''agent-1'' \<noteq> []
              \<and> findById (services ?w) ''agent-1'' = Inr True)
          \<or> (((None :: string option) = None \<or> (None :: string option) = Some [])
              \<and> getAgentIdFromRequest (services ?w) (user_agent exampleHeaders) = Inr ''agent-1''))
         \<and> (\<forall>ts. request_tools (exampleRequest True) = Some ts \<longrightarrow>
               persistTools (services ?w) (transformTools ts) ''agent-1'' = Inr ())
         \<and> getAssignedMCPTools (services ?w) ''agent-1'' = Inr []
         \<and> evaluateIfContextIsTrusted (services ?w)
              (toCommonFormat (services ?w) (request_messages (exampleRequest True)))
              ''agent-1'' (x_api_key exampleHeaders)
             = ([], Inr ([], True))"
    by (simp add: exampleServices_def exampleRequest_def)
  note inst = handler_has_no_quota_check
               [where w = ?w and body = "exampleRequest False"
                  and headers = exampleHeaders and agentId = "Some ''agent-1''"]
  note inst2 = handler_has_no_quota_check
               [where w = ?w and body = "exampleRequest True"
                  and headers = exampleHeaders and agentId = None]
  from mp [OF spec [OF spec [OF spec [OF spec [OF spec [OF conjunct2 [OF inst]]]]]] h]
  obtain r rest where
    "fst (serve ?w (exampleRequest False) exampleHeaders (Some ''agent-1''))
       = [Call_findById ''agent-1'', Call_getAssignedMCPTools ''agent-1'',
         Call_evaluateIfContextIsTrusted [''Read my inbox''] ''agent-1'' ''sk-test'' False,
         Call_messages_create r] @ rest"
    and "request_messages r = [''Read my inbox'']"
    by (auto simp: exampleServices_def exampleRequest_def exampleHeaders_def)
  then have 1: "\<exists>r rest. fst (serve ?w (exampleRequest False) exampleHeaders (Some ''agent-1''))
      = [Call_findById ''agent-1'', Call_getAssignedMCPTools ''agent-1'',
         Call_evaluateIfContextIsTrusted [''Read my inbox''] ''agent-1'' ''sk-test'' False,
         Call_messages_create r] @ rest
      \<and> request_messages r = [''Read my inbox'']"
    by blast
  from mp [OF spec [OF spec [OF spec [OF spec [OF spec [OF conjunct2 [OF inst2]]]]]] g]
  obtain r rest where
    "fst (serve ?w (exampleRequest True) exampleHeaders None)
      = [Call_getAgentIdFromRequest (Some ''curl''), Call_getAssignedMCPTools ''agent-1'',
         Header ''Content-Type'' ''text/event-stream'',
         Header ''Cache-Control'' ''no-cache'',
         Header ''Connection'' ''keep-alive'',
         Call_evaluateIfContextIsTrusted [''Read my inbox''] ''agent-1'' ''sk-test'' True,
         Call_messages_stream r] @ rest"
    and "request_messages r = [''Read my inbox'']"
    by (auto simp: exampleServices_def exampleRequest_def exampleHeaders_def)
  then have 2: "\<exists>r rest. fst (serve ?w (exampleRequest True) exampleHeaders None)
      = [Call_getAgentIdFromRequest (Some ''curl''), Call_getAssignedMCPTools ''agent-1'',
         Header ''Content-Type'' ''text/event-stream'',
         Header ''Cache-Control'' ''no-cache'',
         Header ''Connection'' ''keep-alive'',
         Call_evaluateIfContextIsTrusted [''Read my inbox''] ''agent-1'' ''sk-test'' True,
         Call_messages_stream r] @ rest
      \<and> request_messages r = [''Read my inbox'']"
    by blast
  from conjunct1 [OF inst] have 3: "list_all (\<lambda>i. interaction_type i = ''anthropic:messages'')
        (persistedInteractions (fst (serve ?w (exampleRequest False) exampleHeaders
           (Some ''agent-1''))))"
    by (simp add: list_all_iff)
  from 1 2 3 show ?thesis by (intro conjI)
qed
section \<open>Verification: trusted-data policies\<close>

lemmas trust_defs = exampleTrustStore_def examplePolicy_def assistantCall_def toolRow_def
  equalsValue_def

lemmas trust_eval = persistedFor_def resolveTool_def resolveToolName_def carries_def
  policiesFor_def classify_def

lemma find_append_skip:
  "\<forall>x \<in> set xs. \<not> P x \<Longrightarrow> find P (xs @ ys) = find P ys"
  by (induction xs) simp_all

lemma persistedFor_tool_rows:
  "row \<in> set (persistedFor matches s chat m) \<Longrightarrow> isToolMessage (message_content row)"
  by (auto simp: persistedFor_def isToolMessage_def split: message.splits option.splits prod.splits)

lemma not_carries_tool: "isToolMessage (message_content row) \<Longrightarrow> \<not> carries callId row"
  by (auto simp: carries_def isToolMessage_def split: message.splits)

lemma resolveTool_extended:
  assumes "\<forall>row \<in> set rows. isToolMessage (message_content row)"
  shows "resolveTool (s\<lparr>interactions := interactions s @ rows\<rparr>) chat callId
       = resolveTool s chat callId"
proof -
  have "\<forall>row \<in> set (rev (filter (\<lambda>row. chatId row = chat) rows)). \<not> carries callId row"
    using assms by (auto dest: not_carries_tool)
  then have "find (carries callId)
          (rev (filter (\<lambda>row. chatId row = chat) rows)
           @ rev (filter (\<lambda>row. chatId row = chat) (interactions s)))
      = find (carries callId) (rev (filter (\<lambda>row. chatId row = chat) (interactions s)))"
    by (rule find_append_skip)
  then have "resolveToolName (s\<lparr>interactions := interactions s @ rows\<rparr>) chat callId
      = resolveToolName s chat callId"
    by (simp add: resolveToolName_def)
  then show ?thesis by (simp add: resolveTool_def split: option.splits)
qed

lemma persistedFor_extended:
  assumes "\<forall>row \<in> set rows. isToolMessage (message_content row)"
  shows "persistedFor matches (s\<lparr>interactions := interactions s @ rows\<rparr>) chat m
       = persistedFor matches s chat m"
  unfolding persistedFor_def resolveTool_extended [OF assms]
  by (simp add: policiesFor_def split: message.splits option.splits prod.splits)

lemma evaluatePolicies_rows:
  "interactions (evaluatePolicies_trustedData matches ms chat s)
     = interactions s @ concat (map (persistedFor matches s chat) ms)"
proof (induction ms arbitrary: s)
  case Nil
  show ?case by simp
next
  case (Cons m ms)
  let ?rows = "persistedFor matches s chat m"
  let ?s1 = "s\<lparr>interactions := interactions s @ ?rows\<rparr>"
  have t: "\<forall>row \<in> set ?rows. isToolMessage (message_content row)"
    by (auto dest: persistedFor_tool_rows)
  have same: "persistedFor matches ?s1 chat = persistedFor matches s chat"
    by (rule ext) (rule persistedFor_extended [OF t])
  show ?case
    by (simp add: Cons.IH [of ?s1] same)
qed

text \<open>
  Claim C1 (on the model of section 4.2). \<^verbatim>\<open>evaluatePolicies(messages, chatId)\<close> appends to
  the persisted interactions, in message order, what each message gives: nothing for a
  message whose role is not \<^verbatim>\<open>tool\<close>, and for a tool message whose tool call resolves exactly
  one row for that message, whose \<open>(trusted, blocked)\<close> is \<open>(false, true)\<close> with the
  description of a matching \<^verbatim>\<open>block_always\<close> policy as reason if one of the policies bound
  to the agent and the tool matches the content; otherwise \<open>(true, false)\<close> with the
  description of a matching \<^verbatim>\<open>mark_as_trusted\<close> policy; otherwise \<open>(false, false)\<close> with
  reason "content does not match any trust policies".
\<close>

theorem evaluatePolicies_one_row_each:
  "interactions (evaluatePolicies_trustedData matches ms chat s)
     = interactions s @ concat (map (persistedFor matches s chat) ms)
   \<and> (\<not> isToolMessage m \<longrightarrow> persistedFor matches s chat m = [])
   \<and> (\<forall>callId toolResult t.
         m = ToolMessage callId toolResult \<and> resolveTool s chat callId = Some t \<longrightarrow>
         (\<exists>row. persistedFor matches s chat m = [row]
            \<and> chatId row = chat \<and> message_content row = m
            \<and> (trusted row, blocked row) \<in> {(True, False), (False, True), (False, False)}
            \<and> ((\<exists>p \<in> set (policiesFor s t). action p = Block_always \<and> matches p toolResult) \<longrightarrow>
                  \<not> trusted row \<and> blocked row
                  \<and> (\<exists>p \<in> set (policiesFor s t). action p = Block_always \<and> matches p toolResult
                        \<and> reason row = description p))
            \<and> (\<not> (\<exists>p \<in> set (policiesFor s t). action p = Block_always \<and> matches p toolResult)
                \<and> (\<exists>p \<in> set (policiesFor s t). action p = Mark_as_trusted \<and> matches p toolResult) \<longrightarrow>
                  trusted row \<and> \<not> blocked row
                  \<and> (\<exists>p \<in> set (policiesFor s t). action p = Mark_as_trusted \<and> matches p toolResult
                        \<and> reason row = description p))
            \<and> (\<not> (\<exists>p \<in> set (policiesFor s t). matches p toolResult) \<longrightarrow>
                  \<not> trusted row \<and> \<not> blocked row
                  \<and> reason row = ''content does not match any trust policies'')))"
proof (intro conjI allI impI)
  show "interactions (evaluatePolicies_trustedData matches ms chat s)
     = interactions s @ concat (map (persistedFor matches s chat) ms)"
    by (rule evaluatePolicies_rows)
  show "persistedFor matches s chat m = []" if "\<not> isToolMessage m"
    using that by (simp add: persistedFor_def isToolMessage_def split: message.splits)
next
  fix callId toolResult t
  assume h: "m = ToolMessage callId toolResult \<and> resolveTool s chat callId = Some t"
  let ?ps = "policiesFor s t"
  let ?B = "\<lambda>p. action p = Block_always \<and> matches p toolResult"
  let ?T = "\<lambda>p. action p = Mark_as_trusted \<and> matches p toolResult"
  obtain tr bl why where c: "classify matches ?ps toolResult = (tr, bl, why)"
    by (cases "classify matches ?ps toolResult")
  let ?row = "\<lparr>chatId = chat, message_content = m, trusted = tr, blocked = bl, reason = why\<rparr>"
  have p: "persistedFor matches s chat m = [?row]"
    using h c by (simp add: persistedFor_def)
  have cases: "(\<exists>p \<in> set ?ps. ?B p \<and> (tr, bl, why) = (False, True, description p))
      \<or> (\<not> (\<exists>p \<in> set ?ps. ?B p) \<and> (\<exists>p \<in> set ?ps. ?T p \<and> (tr, bl, why) = (True, False, description p)))
      \<or> (\<not> (\<exists>p \<in> set ?ps. ?B p) \<and> \<not> (\<exists>p \<in> set ?ps. ?T p)
           \<and> (tr, bl, why) = (False, False, ''content does not match any trust policies''))"
  proof (cases "find ?B ?ps")
    case (Some p)
    then have "p \<in> set ?ps \<and> ?B p" by (auto simp: find_Some_iff)
    moreover have "(tr, bl, why) = (False, True, description p)"
      using c Some by (simp add: classify_def)
    ultimately show ?thesis by blast
  next
    case None
    then have nb: "\<not> (\<exists>p \<in> set ?ps. ?B p)" by (simp add: find_None_iff)
    show ?thesis
    proof (cases "find ?T ?ps")
      case (Some p)
      then have "p \<in> set ?ps \<and> ?T p" by (auto simp: find_Some_iff)
      moreover have "(tr, bl, why) = (True, False, description p)"
        using c None Some by (simp add: classify_def)
      ultimately show ?thesis using nb by blast
    next
      case None2: None
      then have nt: "\<not> (\<exists>p \<in> set ?ps. ?T p)" by (simp add: find_None_iff)
      have "(tr, bl, why) = (False, False, ''content does not match any trust policies'')"
        using c None None2 by (simp add: classify_def)
      then show ?thesis using nb nt by blast
    qed
  qed
  have all: "\<not> (\<exists>p \<in> set ?ps. matches p toolResult) \<Longrightarrow>
      \<not> (\<exists>p \<in> set ?ps. ?B p) \<and> \<not> (\<exists>p \<in> set ?ps. ?T p)" by blast
  have either: "\<And>p. matches p toolResult \<Longrightarrow> ?B p \<or> ?T p"
    by (metis policy_action.exhaust)
  show "\<exists>row. persistedFor matches s chat m = [row]
            \<and> chatId row = chat \<and> message_content row = m
            \<and> (trusted row, blocked row) \<in> {(True, False), (False, True), (False, False)}
            \<and> ((\<exists>p \<in> set (policiesFor s t). action p = Block_always \<and> matches p toolResult) \<longrightarrow>
                  \<not> trusted row \<and> blocked row
                  \<and> (\<exists>p \<in> set (policiesFor s t). action p = Block_always \<and> matches p toolResult
                        \<and> reason row = description p))
            \<and> (\<not> (\<exists>p \<in> set (policiesFor s t). action p = Block_always \<and> matches p toolResult)
                \<and> (\<exists>p \<in> set (policiesFor s t). action p = Mark_as_trusted \<and> matches p toolResult) \<longrightarrow>
                  trusted row \<and> \<not> blocked row
                  \<and> (\<exists>p \<in> set (policiesFor s t). action p = Mark_as_trusted \<and> matches p toolResult
                        \<and> reason row = description p))
            \<and> (\<not> (\<exists>p \<in> set (policiesFor s t). matches p toolResult) \<longrightarrow>
                  \<not> trusted row \<and> \<not> blocked row
                  \<and> reason row = ''content does not match any trust policies'')"
    using p cases either all by (intro exI [of _ ?row]) auto
qed


theorem evaluatePolicies_one_row_each_witness:
  "interactions (evaluatePolicies_trustedData equalsValue
      [ToolMessage ''call_001'' ''trusted'', UserMessage ''thanks'',
       ToolMessage ''call_002'' ''malicious'']
      ''chat-1''
      (exampleTrustStore
         [examplePolicy ''p1'' ''trusted'' Mark_as_trusted ''Allow trusted source'',
          examplePolicy ''p2'' ''malicious'' Block_always ''Block malicious source'']
         [assistantCall ''call_001'', assistantCall ''call_002'']))
     = [assistantCall ''call_001'', assistantCall ''call_002'',
        \<lparr>chatId = ''chat-1'', message_content = ToolMessage ''call_001'' ''trusted'',
         trusted = True, blocked = False, reason = ''Allow trusted source''\<rparr>,
        \<lparr>chatId = ''chat-1'', message_content = ToolMessage ''call_002'' ''malicious'',
         trusted = False, blocked = True, reason = ''Block malicious source''\<rparr>]
   \<and> (\<exists>row. persistedFor equalsValue
          (exampleTrustStore
             [examplePolicy ''p1'' ''trusted'' Mark_as_trusted ''Allow trusted source'',
              examplePolicy ''p2'' ''malicious'' Block_always ''Block malicious source'']
             [assistantCall ''call_001'', assistantCall ''call_002''])
          ''chat-1'' (ToolMessage ''call_002'' ''malicious'') = [row]
        \<and> \<not> trusted row \<and> blocked row)"
proof -
  let ?s = "exampleTrustStore
         [examplePolicy ''p1'' ''trusted'' Mark_as_trusted ''Allow trusted source'',
          examplePolicy ''p2'' ''malicious'' Block_always ''Block malicious source'']
         [assistantCall ''call_001'', assistantCall ''call_002'']"
  let ?t = "\<lparr>tool_id = ''tool-1'', tool_agentId = ''agent-1'', registered_name = ''get_emails''\<rparr>"
  let ?ms = "[ToolMessage ''call_001'' ''trusted'', UserMessage ''thanks'',
       ToolMessage ''call_002'' ''malicious'']"
  note inst = evaluatePolicies_one_row_each
      [where matches = equalsValue and ms = ?ms and chat = "''chat-1''" and s = ?s
         and m = "ToolMessage ''call_002'' ''malicious''"]
  have r: "resolveTool ?s ''chat-1'' ''call_002'' = Some ?t"
    by (simp add: trust_eval trust_defs)
  have b: "\<exists>p \<in> set (policiesFor ?s ?t). action p = Block_always \<and> equalsValue p ''malicious''"
    by (simp add: trust_eval trust_defs)
  from inst r b have 2: "\<exists>row. persistedFor equalsValue ?s ''chat-1''
          (ToolMessage ''call_002'' ''malicious'') = [row] \<and> \<not> trusted row \<and> blocked row"
    by blast
  from inst have "interactions (evaluatePolicies_trustedData equalsValue ?ms ''chat-1'' ?s)
     = interactions ?s @ concat (map (persistedFor equalsValue ?s ''chat-1'') ?ms)"
    by blast
  then have 1: "interactions (evaluatePolicies_trustedData equalsValue ?ms ''chat-1'' ?s)
     = [assistantCall ''call_001'', assistantCall ''call_002'',
        \<lparr>chatId = ''chat-1'', message_content = ToolMessage ''call_001'' ''trusted'',
         trusted = True, blocked = False, reason = ''Allow trusted source''\<rparr>,
        \<lparr>chatId = ''chat-1'', message_content = ToolMessage ''call_002'' ''malicious'',
         trusted = False, blocked = True, reason = ''Block malicious source''\<rparr>]"
    by (simp add: trust_eval trust_defs)
  from 1 2 show ?thesis by (rule conjI)
qed

text \<open>
  Claim C2, as stated, fails (on the model of section 4.2, and as trusted-data.test.ts
  expects): a tool message with no persisted interaction at all is kept, though no
  interaction with \<^verbatim>\<open>blocked=false\<close> corresponds to it. This is the test "filters multiple
  blocked tool messages".
\<close>

theorem filterOutBlockedData_counterexample:
  "filterOutBlockedData ''chat-1''
      [UserMessage ''Get data'', ToolMessage ''blocked_1'' ''blocked data 1'',
       ToolMessage ''blocked_2'' ''blocked data 2'', ToolMessage ''allowed'' ''allowed data'']
      (exampleTrustStore [] [toolRow ''blocked_1'' ''blocked data 1'' False True,
                             toolRow ''blocked_2'' ''blocked data 2'' False True])
     = [UserMessage ''Get data'', ToolMessage ''allowed'' ''allowed data'']
   \<and> filter (\<lambda>row. \<exists>toolResult. message_content row = ToolMessage ''allowed'' toolResult)
        (interactions
           (exampleTrustStore [] [toolRow ''blocked_1'' ''blocked data 1'' False True,
                                  toolRow ''blocked_2'' ''blocked data 2'' False True]))
     = []"
  by (simp add: filterOutBlockedData_def blockedCall_def trust_defs)

text \<open>
  Claim C2, amended (on the model of section 4.2). \<^verbatim>\<open>filterOutBlockedData(chatId,
  messages)\<close> returns a list that contains every non-tool input message, preserves the
  original relative order of the messages it keeps, and contains exactly those tool
  messages for which no persisted interaction of the chat with the same
  \<^verbatim>\<open>tool_call_id\<close> has \<^verbatim>\<open>blocked=true\<close>; a tool message with no persisted interaction is
  kept.
\<close>

theorem filterOutBlockedData_keeps:
  "filter (\<lambda>m. \<not> isToolMessage m) (filterOutBlockedData chat ms s)
     = filter (\<lambda>m. \<not> isToolMessage m) ms
   \<and> filterOutBlockedData chat ms s
     = filter (\<lambda>m. m \<in> set (filterOutBlockedData chat ms s)) ms
   \<and> (\<forall>callId toolResult.
         (ToolMessage callId toolResult \<in> set (filterOutBlockedData chat ms s))
         = (ToolMessage callId toolResult \<in> set ms
            \<and> \<not> (\<exists>row \<in> set (interactions s).
                    chatId row = chat \<and> blocked row
                    \<and> (\<exists>r. message_content row = ToolMessage callId r))))"
proof (intro conjI allI)
  let ?keep = "\<lambda>m. case m of
                   ToolMessage callId toolResult \<Rightarrow> \<not> blockedCall s chat callId
                 | _ \<Rightarrow> True"
  have f: "filterOutBlockedData chat ms s = filter ?keep ms"
    by (simp add: filterOutBlockedData_def)
  show "filter (\<lambda>m. \<not> isToolMessage m) (filterOutBlockedData chat ms s)
     = filter (\<lambda>m. \<not> isToolMessage m) ms"
    unfolding f filter_filter
    by (rule filter_cong) (auto simp: isToolMessage_def split: message.splits)
  show "filterOutBlockedData chat ms s
     = filter (\<lambda>m. m \<in> set (filterOutBlockedData chat ms s)) ms"
    unfolding f by (rule filter_cong) auto
  fix callId toolResult
  have b: "blockedCall s chat callId
      = (\<exists>row \<in> set (interactions s).
            chatId row = chat \<and> blocked row
            \<and> (\<exists>r. message_content row = ToolMessage callId r))"
  proof -
    have "(chatId row = chat \<and> blocked row \<and>
             (case message_content row of ToolMessage i r \<Rightarrow> i = callId | _ \<Rightarrow> False))
        = (chatId row = chat \<and> blocked row \<and>
             (\<exists>r. message_content row = ToolMessage callId r))" for row
      by (cases "message_content row") auto
    then show ?thesis
      unfolding blockedCall_def list_ex_iff by (intro bex_cong refl)
  qed
  show "(ToolMessage callId toolResult \<in> set (filterOutBlockedData chat ms s))
         = (ToolMessage callId toolResult \<in> set ms
            \<and> \<not> (\<exists>row \<in> set (interactions s).
                    chatId row = chat \<and> blocked row
                    \<and> (\<exists>r. message_content row = ToolMessage callId r)))"
    unfolding f b [symmetric] by simp
qed

theorem filterOutBlockedData_keeps_witness:
  "filterOutBlockedData ''chat-1''
      [UserMessage ''Get emails'', AssistantMessage (Some ''Getting emails...'') [],
       ToolMessage ''blocked_call'' ''blocked data'', ToolMessage ''trusted_call'' ''trusted data'',
       AssistantMessage (Some ''Here are your emails'') []]
      (exampleTrustStore [] [toolRow ''blocked_call'' ''blocked data'' False True,
                             toolRow ''trusted_call'' ''trusted data'' True False])
     = [UserMessage ''Get emails'', AssistantMessage (Some ''Getting emails...'') [],
        ToolMessage ''trusted_call'' ''trusted data'',
        AssistantMessage (Some ''Here are your emails'') []]"
proof -
  let ?ms = "[UserMessage ''Get emails'', AssistantMessage (Some ''Getting emails...'') [],
       ToolMessage ''blocked_call'' ''blocked data'', ToolMessage ''trusted_call'' ''trusted data'',
       AssistantMessage (Some ''Here are your emails'') []]"
  let ?s = "exampleTrustStore [] [toolRow ''blocked_call'' ''blocked data'' False True,
                             toolRow ''trusted_call'' ''trusted data'' True False]"
  let ?out = "filterOutBlockedData ''chat-1'' ?ms ?s"
  note inst = filterOutBlockedData_keeps [where ms = ?ms and chat = "''chat-1''" and s = ?s]
  from inst have order: "?out = filter (\<lambda>m. m \<in> set ?out) ?ms" by blast
  from inst have non: "filter (\<lambda>m. \<not> isToolMessage m) ?out = filter (\<lambda>m. \<not> isToolMessage m) ?ms"
    by blast
  from inst have tool: "(ToolMessage callId toolResult \<in> set ?out)
         = (ToolMessage callId toolResult \<in> set ?ms
            \<and> \<not> (\<exists>row \<in> set (interactions ?s).
                    chatId row = ''chat-1'' \<and> blocked row
                    \<and> (\<exists>r. message_content row = ToolMessage callId r)))" for callId toolResult
    by blast
  have t1: "ToolMessage ''blocked_call'' ''blocked data'' \<notin> set ?out"
    unfolding tool by (simp add: trust_defs)
  have t2: "ToolMessage ''trusted_call'' ''trusted data'' \<in> set ?out"
    unfolding tool by (simp add: trust_defs)
  have n: "m \<in> set ?out" if "m \<in> set ?ms" "\<not> isToolMessage m" for m
  proof -
    from that have "m \<in> set (filter (\<lambda>m. \<not> isToolMessage m) ?ms)"
      by (simp only: set_filter mem_Collect_eq simp_thms)
    then have "m \<in> set (filter (\<lambda>m. \<not> isToolMessage m) ?out)" unfolding non .
    then show ?thesis by (simp only: set_filter mem_Collect_eq)
  qed
  have u: "UserMessage ''Get emails'' \<in> set ?out"
    and a1: "AssistantMessage (Some ''Getting emails...'') [] \<in> set ?out"
    and a2: "AssistantMessage (Some ''Here are your emails'') [] \<in> set ?out"
    by (rule n; simp add: isToolMessage_def)+
  show ?thesis
    by (subst order) (simp add: t1 t2 u a1 a2)
qed

end
